(* ===== verification/Prelude.thy ===== *)
theory Prelude
  imports Main "HOL-Library.Word" "HOL-Library.List_Lexorder" "HOL-Library.Char_ord"
begin

text \<open>
  Shared vocabulary of the development: the machine types of the Rust code, the ordered
  string-keyed map that stands for \<open>BTreeMap<String, _>\<close> and \<open>HashMap<String, _>\<close>, and the
  lemma collections the component theories use.

  Strings are lists of UTF-8 bytes (\<^typ>\<open>char\<close>), which is what \<open>String::len\<close> counts
  and what the derived \<open>Ord\<close> of \<open>String\<close> compares: the lexicographic order on
  byte lists supplied by \<open>List_Lexorder\<close> and \<open>Char_ord\<close>.
\<close>

section \<open>Machine types\<close>

type_synonym u8 = "8 word"
type_synonym u16 = "16 word"
type_synonym u32 = "32 word"

named_theorems smap_simps \<open>lookup equations of the string-keyed maps\<close>
named_theorems f64_simps \<open>rewrite rules of binary64 values\<close>
named_theorems reg_simps \<open>lookup equations of the metric registry\<close>

section \<open>Ordered string-keyed maps\<close>

text \<open>
  A map is its list of entries in strictly increasing key order, as a \<open>BTreeMap\<close> iterates
  over it. \<open>sget\<close> is \<open>get\<close>, \<open>sput\<close> is \<open>insert\<close>, \<open>sentry\<close> is \<open>entry(k).or_default()\<close>
  followed by an update through the returned reference.
\<close>

type_synonym 'v smap = "(string \<times> 'v) list"

definition sget :: "'v smap \<Rightarrow> string \<Rightarrow> 'v option" where
  "sget m k = map_of m k"

fun sput :: "string \<Rightarrow> 'v \<Rightarrow> 'v smap \<Rightarrow> 'v smap" where
  "sput k v [] = [(k, v)]"
| "sput k v ((a, b) # m) =
     (if k < a then (k, v) # (a, b) # m
      else if k = a then (k, v) # m
      else (a, b) # sput k v m)"

definition skeys :: "'v smap \<Rightarrow> string list" where
  "skeys m = List.map fst m"

definition sentry :: "'v \<Rightarrow> string \<Rightarrow> 'v smap \<Rightarrow> 'v" where
  "sentry dflt k m = (case sget m k of None \<Rightarrow> dflt | Some v \<Rightarrow> v)"

definition smap_ok :: "'v smap \<Rightarrow> bool" where
  "smap_ok m \<longleftrightarrow> sorted_wrt (<) (skeys m)"

lemma sget_Nil [simp, smap_simps]: "sget [] k = None"
  by (simp add: sget_def)

lemma sget_Cons [simp]: "sget ((a, b) # m) k = (if k = a then Some b else sget m k)"
  by (simp add: sget_def)

lemma skeys_Nil [simp]: "skeys [] = []"
  by (simp add: skeys_def)

lemma skeys_Cons [simp]: "skeys ((a, b) # m) = a # skeys m"
  by (simp add: skeys_def)

lemma smap_ok_Nil [simp]: "smap_ok []"
  by (simp add: smap_ok_def)

lemma smap_ok_Cons: "smap_ok ((a, b) # m) \<longleftrightarrow> (\<forall>k\<in>set (skeys m). a < k) \<and> smap_ok m"
  by (simp add: smap_ok_def)

lemma sget_sput [smap_simps]: "sget (sput k v m) j = (if j = k then Some v else sget m j)"
  by (induction k v m rule: sput.induct) auto

lemma set_skeys_sput: "set (skeys (sput k v m)) = insert k (set (skeys m))"
  by (induction k v m rule: sput.induct) auto

lemma smap_ok_sput: "smap_ok m \<Longrightarrow> smap_ok (sput k v m)"
proof (induction m)
  case Nil
  then show ?case by (simp add: smap_ok_def)
next
  case (Cons e m)
  then show ?case
    by (cases e) (auto simp: smap_ok_Cons set_skeys_sput)
qed

lemma sget_None_iff: "sget m k = None \<longleftrightarrow> k \<notin> set (skeys m)"
  by (induction m) (auto split: if_splits)

lemma sget_Some_in: "sget m k = Some v \<Longrightarrow> (k, v) \<in> set m"
  by (simp add: sget_def map_of_SomeD)

lemma distinct_skeys: "smap_ok m \<Longrightarrow> distinct (skeys m)"
  using strict_sorted_iff by (auto simp: smap_ok_def)

lemma sget_iff_in: "smap_ok m \<Longrightarrow> sget m k = Some v \<longleftrightarrow> (k, v) \<in> set m"
  using distinct_skeys [of m] by (simp add: sget_def skeys_def)

lemma skeys_sput_mem: "smap_ok m \<Longrightarrow> k \<in> set (skeys m) \<Longrightarrow> skeys (sput k v m) = skeys m"
proof (induction m)
  case (Cons e m)
  then show ?case
    by (cases e) (auto simp: smap_ok_Cons dest: order.asym)
qed simp

lemma sget_Some_key: "sget m k = Some v \<Longrightarrow> k \<in> set (skeys m)"
  by (metis sget_None_iff option.distinct(1))

lemma length_skeys [simp]: "length (skeys m) = length m"
  by (simp add: skeys_def)

lemma length_sput:
  "length (sput k v m) = (if k \<in> set (skeys m) then length m else Suc (length m))"
  if "smap_ok m"
proof -
  from that have "length (skeys (sput k v m)) = card (insert k (set (skeys m)))"
    by (metis distinct_card distinct_skeys set_skeys_sput smap_ok_sput)
  also have "\<dots> = (if k \<in> set (skeys m) then length m else Suc (length m))"
    using distinct_card [OF distinct_skeys [OF that]] by (simp add: card_insert_if)
  finally show ?thesis by simp
qed

lemma sentry_None [smap_simps]: "sget m k = None \<Longrightarrow> sentry d k m = d"
  and sentry_Some [smap_simps]: "sget m k = Some v \<Longrightarrow> sentry d k m = v"
  by (simp_all add: sentry_def)

text \<open>Maps over all values and filters over the keys keep the order.\<close>

definition smapv :: "('v \<Rightarrow> 'w) \<Rightarrow> 'v smap \<Rightarrow> 'w smap" where
  "smapv f m = List.map (\<lambda>(k, v). (k, f v)) m"

definition sfilter :: "(string \<Rightarrow> bool) \<Rightarrow> 'v smap \<Rightarrow> 'v smap" where
  "sfilter p m = List.filter (\<lambda>(k, v). p k) m"

lemma skeys_smapv [simp]: "skeys (smapv f m) = skeys m"
  by (simp add: skeys_def smapv_def case_prod_beta comp_def)

lemma smap_ok_smapv [simp]: "smap_ok (smapv f m) = smap_ok m"
  by (simp add: smap_ok_def)

lemma sget_smapv [smap_simps]: "sget (smapv f m) k = map_option f (sget m k)"
  by (induction m) (auto simp: smapv_def)

lemma skeys_sfilter: "skeys (sfilter p m) = List.filter p (skeys m)"
  by (induction m) (auto simp: sfilter_def)

lemma smap_ok_sfilter: "smap_ok m \<Longrightarrow> smap_ok (sfilter p m)"
  by (simp add: smap_ok_def skeys_sfilter sorted_wrt_filter)

lemma sfilter_True [simp]: "sfilter (\<lambda>_. True) m = m"
  by (simp add: sfilter_def case_prod_beta)

lemma sget_sfilter [smap_simps]: "sget (sfilter p m) k = (if p k then sget m k else None)"
  by (induction m) (auto simp: sfilter_def)

text \<open>Two ordered maps with the same lookups are the same map.\<close>

lemma smap_eqI:
  assumes "smap_ok m" "smap_ok n" and "\<And>k. sget m k = sget n k"
  shows "m = n"
proof -
  have "set m = set n" using assms by (auto simp flip: sget_iff_in)
  moreover have "sorted (List.map fst m)" "sorted (List.map fst n)" "distinct (List.map fst m)"
      "distinct (List.map fst n)"
    using assms(1,2) distinct_skeys by (auto simp: smap_ok_def skeys_def strict_sorted_iff)
  ultimately show ?thesis by (intro map_sorted_distinct_set_unique [of fst]) (auto simp: distinct_map)
qed

end
