(* ===== verification/Rounding.thy ===== *)
theory Rounding
  imports Complex_Main Prelude "HOL-Library.Log_Nat"
begin

text \<open>
  Round-to-nearest, ties-to-even, to the 53-bit significand of IEEE 754 binary64, as an exact
  computation on rationals: \<open>ilog2\<close> is the binary exponent, \<open>ulp_exp\<close> the exponent of
  the last significand bit (bounded below by the subnormal exponent \<open>-1074\<close>) and
  \<open>rnd\<close> the rounding itself. The locale \<open>rounding\<close> states the laws that the
  arithmetic of the program relies on; \<open>rnd\<close> is shown to satisfy them.
\<close>

section \<open>The laws of a rounding function\<close>

locale rounding =
  fixes rd :: "rat \<Rightarrow> rat"
  assumes mono: "x \<le> y \<Longrightarrow> rd x \<le> rd y"
    and idem: "rd (rd x) = rd x"
    and zero: "rd 0 = 0"
    and neg: "rd (- x) = - rd x"
begin

lemma nonneg: "0 \<le> x \<Longrightarrow> 0 \<le> rd x"
  using mono [of 0 x] by (simp add: zero)

lemma nonpos: "x \<le> 0 \<Longrightarrow> rd x \<le> 0"
  using mono [of x 0] by (simp add: zero)

lemma upper: "rd c = c \<Longrightarrow> x \<le> c \<Longrightarrow> rd x \<le> c"
  using mono [of x c] by simp

lemma lower: "rd c = c \<Longrightarrow> c \<le> x \<Longrightarrow> c \<le> rd x"
  using mono [of c x] by simp

lemma add_absorb: "rd a = a \<Longrightarrow> 0 \<le> b \<Longrightarrow> a \<le> rd (a + b)"
  by (rule lower) simp_all

lemma abs_rd: "\<bar>rd x\<bar> = rd \<bar>x\<bar>"
  using nonneg [of x] nonpos [of x] neg [of x] by (cases "0 \<le> x") simp_all

lemma abs_upper: "rd c = c \<Longrightarrow> \<bar>x\<bar> \<le> c \<Longrightarrow> \<bar>rd x\<bar> \<le> c"
  by (simp add: abs_rd upper)

end

section \<open>Rounding to an integer\<close>

definition rne :: "rat \<Rightarrow> int" where
  "rne x = (let f = \<lfloor>x\<rfloor>; d = x - of_int f in
     if d < 1 / 2 then f else if 1 / 2 < d then f + 1 else if even f then f else f + 1)"

lemma rne_of_int [simp]: "rne (of_int n) = n"
  by (simp add: rne_def Let_def)

lemma rne_bounds: "x - 1 / 2 \<le> of_int (rne x)" "of_int (rne x) \<le> x + 1 / 2"
  unfolding rne_def Let_def by (auto; linarith)+

lemma rne_neg: "rne (- x) = - rne x"
proof (cases "x \<in> \<int>")
  case True
  then obtain n where "x = of_int n" by (auto elim: Ints_cases)
  then show ?thesis by (metis of_int_minus rne_of_int)
next
  case False
  then have fl: "\<lfloor>- x\<rfloor> = - \<lfloor>x\<rfloor> - 1"
    using floor_minus [of x] ceiling_altdef [of x] by (auto simp: Ints_def)
  show ?thesis unfolding rne_def Let_def fl
    by (auto simp: field_simps)
qed

lemma rne_mono: "x \<le> y \<Longrightarrow> rne x \<le> rne y"
proof -
  assume le: "x \<le> y"
  then have fl: "\<lfloor>x\<rfloor> \<le> \<lfloor>y\<rfloor>" by (rule floor_mono)
  show ?thesis
  proof (cases "\<lfloor>x\<rfloor> = \<lfloor>y\<rfloor>")
    case True
    with le show ?thesis unfolding rne_def Let_def by auto
  next
    case False
    with fl have "\<lfloor>x\<rfloor> + 1 \<le> \<lfloor>y\<rfloor>" by simp
    moreover have "rne x \<le> \<lfloor>x\<rfloor> + 1" "\<lfloor>y\<rfloor> \<le> rne y"
      unfolding rne_def Let_def by auto
    ultimately show ?thesis by simp
  qed
qed

lemma rne_upper: "x \<le> of_int n \<Longrightarrow> rne x \<le> n"
  using rne_mono [of x "of_int n"] by simp

lemma rne_lower: "of_int n \<le> x \<Longrightarrow> n \<le> rne x"
  using rne_mono [of "of_int n" x] by simp

section \<open>Binary exponents\<close>

definition ilog2 :: "rat \<Rightarrow> int" where
  "ilog2 q = (case quotient_of q of (n, d) \<Rightarrow>
     let k = bitlen n - bitlen d in if 2 powi k \<le> q then k else k - 1)"

lemma powi_add2: "(2::rat) powi (m + n) = 2 powi m * 2 powi n"
  by (simp add: power_int_add)

lemma powi_pos2 [simp]: "(0::rat) < 2 powi k"
  by simp

lemma powi_mono2: "m \<le> n \<Longrightarrow> (2::rat) powi m \<le> 2 powi n"
  by (simp add: power_int_increasing)

lemma powi_strict2: "m < n \<Longrightarrow> (2::rat) powi m < 2 powi n"
  by (simp add: power_int_strict_increasing)

lemma powi_less_iff2: "(2::rat) powi m < 2 powi n \<longleftrightarrow> m < n"
  using powi_mono2 [of n m] powi_strict2 [of m n] by (cases "m < n") (auto simp: not_less)

lemma bitlen_powi:
  assumes "0 < n"
  shows "(2::rat) powi (bitlen n - 1) \<le> of_int n" and "of_int n < (2::rat) powi bitlen n"
proof -
  have pos: "0 < bitlen n" using assms by (simp add: bitlen_eq_zero_iff bitlen_nonneg less_le)
  from bitlen_bounds [OF assms]
  have b: "2 ^ nat (bitlen n - 1) \<le> n" "n < 2 ^ nat (bitlen n)" by auto
  have "(2::rat) powi (bitlen n - 1) = of_int (2 ^ nat (bitlen n - 1))"
    using pos by (simp add: power_int_def)
  with b(1) show "(2::rat) powi (bitlen n - 1) \<le> of_int n" by (metis of_int_le_iff)
  have "(2::rat) powi bitlen n = of_int (2 ^ nat (bitlen n))"
    using pos by (simp add: power_int_def)
  with b(2) show "of_int n < (2::rat) powi bitlen n" by (metis of_int_less_iff)
qed

lemma ilog2_bounds:
  assumes "0 < q"
  shows "2 powi ilog2 q \<le> q" and "q < 2 powi (ilog2 q + 1)"
proof -
  obtain n d where nd: "quotient_of q = (n, d)" by (cases "quotient_of q")
  have d: "0 < d" using quotient_of_denom_pos [OF nd] .
  have q: "q = of_int n / of_int d" using quotient_of_div [OF nd] .
  have n: "0 < n" using assms d unfolding q by (simp add: zero_less_divide_iff)
  define k where "k = bitlen n - bitlen d"
  note bn = bitlen_powi [OF n] and bd = bitlen_powi [OF d]
  have "q * of_int d < 2 powi (k + 1) * of_int d"
  proof -
    have "q * of_int d = of_int n" using d q by simp
    also have "\<dots> < 2 powi bitlen n" by (rule bn(2))
    also have "\<dots> = 2 powi (k + 1) * 2 powi (bitlen d - 1)"
      unfolding k_def by (subst powi_add2 [symmetric]) simp
    also have "\<dots> \<le> 2 powi (k + 1) * of_int d"
      using bd(1) by (intro mult_left_mono) auto
    finally show ?thesis .
  qed
  then have up: "q < 2 powi (k + 1)" using d by simp
  have "2 powi (k - 1) * of_int d < q * of_int d"
  proof -
    have "2 powi (k - 1) * of_int d < (2 powi (k - 1) * 2 powi bitlen d :: rat)"
      using bd(2) by (intro mult_strict_left_mono) auto
    also have "\<dots> = 2 powi (bitlen n - 1)"
      unfolding k_def by (subst powi_add2 [symmetric]) simp
    also have "\<dots> \<le> of_int n" by (rule bn(1))
    also have "\<dots> = q * of_int d" using d q by simp
    finally show ?thesis .
  qed
  then have lo: "2 powi (k - 1) \<le> q" using d by simp
  have e: "ilog2 q = (if 2 powi k \<le> q then k else k - 1)"
    by (simp add: ilog2_def nd k_def)
  show "2 powi ilog2 q \<le> q" using lo unfolding e by simp
  show "q < 2 powi (ilog2 q + 1)" using up unfolding e by simp
qed

lemma ilog2_unique: "2 powi k \<le> q \<Longrightarrow> q < 2 powi (k + 1) \<Longrightarrow> ilog2 q = k"
proof -
  assume a: "2 powi k \<le> q" "q < 2 powi (k + 1)"
  have "0 < q" using powi_pos2 [of k] a(1) by linarith
  note b = ilog2_bounds [OF this]
  have "ilog2 q < k + 1" using b(1) a(2) powi_less_iff2 by (meson le_less_trans)
  moreover have "k < ilog2 q + 1" using a(1) b(2) powi_less_iff2 by (meson le_less_trans)
  ultimately show ?thesis by simp
qed

lemma ilog2_mono: "0 < p \<Longrightarrow> p \<le> q \<Longrightarrow> ilog2 p \<le> ilog2 q"
proof -
  assume a: "0 < p" "p \<le> q"
  have "2 powi ilog2 p \<le> p" using a(1) by (rule ilog2_bounds)
  moreover have "q < 2 powi (ilog2 q + 1)" using a by (intro ilog2_bounds) simp
  ultimately have "(2::rat) powi ilog2 p < 2 powi (ilog2 q + 1)" using a(2) by linarith
  then show ?thesis by (simp add: powi_less_iff2)
qed

section \<open>Rounding to binary64 precision\<close>

definition ulp_exp :: "rat \<Rightarrow> int" where
  "ulp_exp q = max (ilog2 \<bar>q\<bar> - 52) (- 1074)"

definition rnd :: "rat \<Rightarrow> rat" where
  "rnd q = (if q = 0 then 0 else of_int (rne (q / 2 powi ulp_exp q)) * 2 powi ulp_exp q)"

lemma rnd_0 [simp]: "rnd 0 = 0"
  by (simp add: rnd_def)

lemma ulp_exp_neg [simp]: "ulp_exp (- q) = ulp_exp q"
  by (simp add: ulp_exp_def)

lemma rnd_neg: "rnd (- q) = - rnd q"
  by (simp add: rnd_def rne_neg)

text \<open>An integer multiple of \<open>2 powi e\<close> is one of every smaller power.\<close>

lemma grid_refine: "e' \<le> e \<Longrightarrow> \<exists>m'. of_int m * 2 powi e = of_int m' * (2::rat) powi e'"
proof (intro exI)
  assume le: "e' \<le> e"
  have "(2::rat) powi e = 2 powi (e - e') * 2 powi e'"
    by (subst powi_add2 [symmetric]) simp
  moreover have "(2::rat) powi (e - e') = of_int (2 ^ nat (e - e'))"
    using le by (simp add: power_int_def)
  ultimately show "of_int m * (2::rat) powi e = of_int (m * 2 ^ nat (e - e')) * 2 powi e'"
    by simp
qed

lemma rnd_grid:
  assumes "q = of_int m * 2 powi e" and "ulp_exp q \<le> e"
  shows "rnd q = q"
proof (cases "q = 0")
  case False
  obtain m' where "q = of_int m' * 2 powi ulp_exp q"
    using grid_refine [OF assms(2), of m] assms(1) by auto
  then have m': "q = of_int m' * 2 powi ulp_exp q" .
  then have "q / 2 powi ulp_exp q = of_int m'" by (simp add: divide_eq_eq)
  with m' show ?thesis using False by (simp add: rnd_def)
qed simp

text \<open>Every multiple of \<open>2 powi e\<close> with at most 53 significant bits is a fixed point.\<close>

lemma rnd_exact:
  assumes "- 1074 \<le> e" and "\<bar>m\<bar> \<le> 2 ^ 53"
  shows "rnd (of_int m * 2 powi e) = of_int m * 2 powi e" (is "rnd ?q = ?q")
proof (cases "m = 0")
  case False
  have q0: "0 < \<bar>?q\<bar>" using False by (simp add: abs_mult)
  show ?thesis
  proof (cases "\<bar>m\<bar> = 2 ^ 53")
    case True
    then have m53: "\<bar>of_int m\<bar> = (2::rat) powi 53"
      by (metis of_int_abs of_int_numeral of_int_power power_int_numeral)
    have eq: "\<bar>?q\<bar> = 2 powi (53 + e)"
      by (subst powi_add2) (simp add: abs_mult m53 del: of_int_abs)
    have "ilog2 \<bar>?q\<bar> = 53 + e"
      unfolding eq by (rule ilog2_unique) (auto simp: powi_less_iff2)
    then have u: "ulp_exp ?q \<le> 1 + e" using assms(1) by (simp add: ulp_exp_def)
    have "?q = of_int (sgn m) * 2 powi (53 + e)"
      using eq False by (cases "0 < m") (auto simp: abs_mult mult_less_0_iff)
    also have "(2::rat) powi (53 + e) = 2 powi 52 * 2 powi (1 + e)"
      by (subst powi_add2 [symmetric]) simp
    finally have "?q = of_int (sgn m * 2 ^ 52) * 2 powi (1 + e)" by simp
    then show ?thesis using u by (rule rnd_grid)
  next
    case False': False
    with assms(2) have "\<bar>m\<bar> < 2 ^ 53" by simp
    then have "\<bar>of_int m\<bar> < (2::rat) powi 53"
      by (metis of_int_abs of_int_less_iff of_int_numeral of_int_power power_int_numeral)
    then have "\<bar>?q\<bar> < 2 powi 53 * 2 powi e"
      by (simp add: abs_mult del: power_int_numeral)
    also have "\<dots> = 2 powi (53 + e)" by (rule powi_add2 [symmetric])
    finally have lt: "\<bar>?q\<bar> < 2 powi (53 + e)" .
    have "(2::rat) powi ilog2 \<bar>?q\<bar> < 2 powi (53 + e)"
      using ilog2_bounds(1) [OF q0] lt by (rule le_less_trans)
    then have "ilog2 \<bar>?q\<bar> < 53 + e" by (simp only: powi_less_iff2)
    then have "ulp_exp ?q \<le> e" using assms(1) unfolding ulp_exp_def by linarith
    then show ?thesis by (intro rnd_grid [of _ m e]) simp_all
  qed
qed simp

lemma rnd_form: "\<exists>m e. - 1074 \<le> e \<and> \<bar>m\<bar> \<le> 2 ^ 53 \<and> rnd q = of_int m * 2 powi e"
proof (cases "q = 0")
  case True
  then show ?thesis by (intro exI [of _ 0]) auto
next
  case False
  define e where "e = ulp_exp q"
  define m where "m = rne (q / 2 powi e)"
  have "\<bar>q\<bar> < 2 powi (ilog2 \<bar>q\<bar> + 1)" using False by (intro ilog2_bounds) simp
  also have "\<dots> \<le> 2 powi (53 + e)"
    by (rule powi_mono2) (simp add: e_def ulp_exp_def)
  also have "\<dots> = 2 powi 53 * 2 powi e" by (rule powi_add2)
  finally have "\<bar>q / 2 powi e\<bar> \<le> 2 powi 53"
    by (simp add: abs_divide pos_divide_le_eq)
  then have "q / 2 powi e \<le> 2 powi 53 \<and> - (2 powi 53) \<le> q / 2 powi e" by linarith
  then have "q / 2 powi e \<le> of_int (2 ^ 53)" and "of_int (- (2 ^ 53)) \<le> q / 2 powi e"
    by simp_all
  then have "m \<le> 2 ^ 53" and "- (2 ^ 53) \<le> m"
    unfolding m_def by (blast intro: rne_upper rne_lower)+
  then have "\<bar>m\<bar> \<le> 2 ^ 53" by simp
  moreover have "rnd q = of_int m * 2 powi e" using False by (simp add: rnd_def m_def e_def)
  moreover have "- 1074 \<le> e" by (simp add: e_def ulp_exp_def)
  ultimately show ?thesis by blast
qed

lemma rnd_idem [simp]: "rnd (rnd q) = rnd q"
  using rnd_form [of q] rnd_exact by auto

lemma rnd_pos_mono:
  assumes "0 < p" and "p \<le> q"
  shows "rnd p \<le> rnd q"
proof (cases "ulp_exp p = ulp_exp q")
  case True
  have "p / 2 powi ulp_exp q \<le> q / 2 powi ulp_exp q"
    using assms(2) by (simp add: divide_right_mono)
  then show ?thesis
    using assms True by (simp add: rnd_def rne_mono mult_right_mono)
next
  case False
  define E where "E = ilog2 q"
  have le: "ilog2 p \<le> E" unfolding E_def using assms by (rule ilog2_mono)
  then have lt: "ulp_exp p < ulp_exp q" and Elt: "ilog2 p < E"
    using False assms by (auto simp: ulp_exp_def E_def)
  then have uq: "ulp_exp q = E - 52" using assms by (auto simp: ulp_exp_def E_def)
  have split: "(2::rat) powi E = of_int (2 ^ nat (E - e)) * 2 powi e" if "e \<le> E" for e
    using that powi_add2 [of "E - e" e] by (simp add: power_int_def)
  have "p < 2 powi (ilog2 p + 1)" using assms(1) by (rule ilog2_bounds)
  also have "\<dots> \<le> 2 powi E" using Elt by (intro powi_mono2) simp
  finally have "p / 2 powi ulp_exp p \<le> of_int (2 ^ nat (E - ulp_exp p))"
    using split [of "ulp_exp p"] lt uq
    by (simp add: pos_divide_le_eq del: of_int_power of_int_numeral)
  then have "rnd p \<le> of_int (2 ^ nat (E - ulp_exp p)) * 2 powi ulp_exp p"
    using assms(1) unfolding rnd_def
    by (auto intro!: mult_right_mono rne_upper simp del: of_int_power of_int_numeral)
  also have "\<dots> = 2 powi E" using split [of "ulp_exp p"] lt uq by simp
  also have "\<dots> \<le> rnd q"
  proof -
    have "2 powi E \<le> q" unfolding E_def using assms by (intro ilog2_bounds) simp
    then have "of_int (2 ^ nat (E - ulp_exp q)) \<le> q / 2 powi ulp_exp q"
      using split [of "ulp_exp q"] uq
      by (simp add: pos_le_divide_eq del: of_int_power of_int_numeral)
    then have "of_int (2 ^ nat (E - ulp_exp q)) * 2 powi ulp_exp q \<le> rnd q"
      using assms unfolding rnd_def
      by (auto intro!: mult_right_mono rne_lower simp del: of_int_power of_int_numeral)
    then show ?thesis using split [of "ulp_exp q"] uq by simp
  qed
  finally show ?thesis .
qed

lemma rnd_nonneg: "0 \<le> q \<Longrightarrow> 0 \<le> rnd q"
proof (cases "q = 0")
  case False
  assume "0 \<le> q"
  then have "0 \<le> q / 2 powi ulp_exp q" by simp
  then have "0 \<le> rne (q / 2 powi ulp_exp q)" by (intro rne_lower) simp
  then show ?thesis using False by (simp add: rnd_def)
qed simp

lemma rnd_mono: "p \<le> q \<Longrightarrow> rnd p \<le> rnd q"
proof -
  assume le: "p \<le> q"
  consider "0 < p" | "p \<le> 0" "0 \<le> q" | "q < 0" by linarith
  then show ?thesis
  proof cases
    case 1
    then show ?thesis using le by (rule rnd_pos_mono)
  next
    case 2
    then show ?thesis using rnd_nonneg [of q] rnd_nonneg [of "- p"] by (simp add: rnd_neg)
  next
    case 3
    then have "rnd (- q) \<le> rnd (- p)" using le by (intro rnd_pos_mono) simp_all
    then show ?thesis by (simp add: rnd_neg)
  qed
qed

interpretation rne: rounding rnd
  by unfold_locales (simp_all add: rnd_mono rnd_neg)

text \<open>Integers of at most 53 bits and small dyadic fractions are fixed points.\<close>

lemma rnd_of_int: "\<bar>m\<bar> \<le> 2 ^ 53 \<Longrightarrow> rnd (of_int m) = of_int m"
  using rnd_exact [of 0 m] by simp

lemma rnd_of_nat: "m \<le> 2 ^ 53 \<Longrightarrow> rnd (of_nat m) = of_nat m"
  using rnd_of_int [of "int m"] by simp

lemma rnd_powi: "- 1074 \<le> e \<Longrightarrow> rnd (2 powi e) = 2 powi e"
  using rnd_exact [of e 1] by simp

text \<open>The rounding error is at most half a unit in the last place.\<close>

lemma rnd_error: "\<bar>rnd q - q\<bar> \<le> 2 powi ulp_exp q / 2"
proof (cases "q = 0")
  case False
  define u where "u = (2::rat) powi ulp_exp q"
  have u: "0 < u" by (simp add: u_def)
  have "\<bar>of_int (rne (q / u)) - q / u\<bar> \<le> 1 / 2" using rne_bounds [of "q / u"] by linarith
  then have "\<bar>of_int (rne (q / u)) - q / u\<bar> * u \<le> 1 / 2 * u" using u by (intro mult_right_mono) simp_all
  also have "\<bar>of_int (rne (q / u)) - q / u\<bar> * u = \<bar>(of_int (rne (q / u)) - q / u) * u\<bar>"
    using u by (simp add: abs_mult)
  also have "(of_int (rne (q / u)) - q / u) * u = rnd q - q"
    using u False by (simp add: rnd_def left_diff_distrib flip: u_def)
  finally show ?thesis by (simp add: u_def)
qed simp

lemma rnd_error_le:
  assumes "\<bar>q\<bar> < 2 powi E" and "- 1021 \<le> E"
  shows "\<bar>rnd q - q\<bar> \<le> 2 powi (E - 54)"
proof (cases "q = 0")
  case False
  then have "(2::rat) powi ilog2 \<bar>q\<bar> < 2 powi E"
    using ilog2_bounds(1) [of "\<bar>q\<bar>"] assms(1) by simp
  then have "ulp_exp q \<le> E - 53" using assms(2) unfolding powi_less_iff2 ulp_exp_def by simp
  then have "(2::rat) powi ulp_exp q / 2 \<le> 2 powi (E - 53) / 2"
    by (intro divide_right_mono powi_mono2) simp_all
  also have "(2::rat) powi (E - 53) / 2 = 2 powi (E - 54)"
    using powi_add2 [of "E - 54" 1] by simp
  finally show ?thesis using rnd_error [of q] by linarith
qed simp

section \<open>Overflow\<close>

text \<open>A rounded value overflows when its exponent exceeds that of \<open>f64::MAX\<close>.\<close>

definition overflows :: "rat \<Rightarrow> bool" where
  "overflows r \<longleftrightarrow> r \<noteq> 0 \<and> 1024 \<le> ilog2 \<bar>r\<bar>"

lemma overflows_iff: "overflows r \<longleftrightarrow> 2 powi 1024 \<le> \<bar>r\<bar>"
proof (cases "r = 0")
  case False
  then have b: "2 powi ilog2 \<bar>r\<bar> \<le> \<bar>r\<bar>" "\<bar>r\<bar> < 2 powi (ilog2 \<bar>r\<bar> + 1)"
    using ilog2_bounds [of "\<bar>r\<bar>"] by simp_all
  show ?thesis
  proof
    assume "overflows r"
    then have "(2::rat) powi 1024 \<le> 2 powi ilog2 \<bar>r\<bar>"
      unfolding overflows_def by (intro powi_mono2) simp
    with b(1) show "2 powi 1024 \<le> \<bar>r\<bar>" by linarith
  next
    assume "2 powi 1024 \<le> \<bar>r\<bar>"
    then have "(2::rat) powi 1024 < 2 powi (ilog2 \<bar>r\<bar> + 1)" using b(2) by linarith
    then have "1024 \<le> ilog2 \<bar>r\<bar>" unfolding powi_less_iff2 by simp
    with False show "overflows r" by (simp add: overflows_def)
  qed
next
  case True
  have "(0::rat) < 2 powi 1024" by (rule powi_pos2)
  then show ?thesis using True unfolding overflows_def by (simp add: not_le)
qed

lemma overflows_neg [simp]: "overflows (- r) = overflows r"
  by (simp add: overflows_def)

lemma overflows_0 [simp]: "\<not> overflows 0"
  by (simp add: overflows_def)

lemma overflows_mono: "overflows p \<Longrightarrow> \<bar>p\<bar> \<le> \<bar>q\<bar> \<Longrightarrow> overflows q"
  unfolding overflows_iff by (rule order_trans)

section \<open>Evaluation\<close>

text \<open>
  The same rounding on numerator and denominator, as a code equation: it keeps the kernel's
  evaluation of closed terms on integers.
\<close>

definition rne_frac :: "int \<Rightarrow> int \<Rightarrow> int" where
  "rne_frac n d = (let f = n div d; r = 2 * (n mod d) in
     if r < d then f else if d < r then f + 1 else if even f then f else f + 1)"

lemma frac_less_half: "0 < d \<Longrightarrow> (of_int r / of_int d < (1 / 2 :: rat)) \<longleftrightarrow> 2 * r < d"
  and half_less_frac: "0 < d \<Longrightarrow> ((1 / 2 :: rat) < of_int r / of_int d) \<longleftrightarrow> d < 2 * r"
proof -
  assume d: "0 < d"
  have "(of_int r / of_int d < (1 / 2 :: rat)) \<longleftrightarrow> (of_int (2 * r) :: rat) < of_int d"
    using d by (simp add: pos_divide_less_eq mult.commute)
  then show "(of_int r / of_int d < (1 / 2 :: rat)) \<longleftrightarrow> 2 * r < d"
    by (simp only: of_int_less_iff)
  have "((1 / 2 :: rat) < of_int r / of_int d) \<longleftrightarrow> (of_int d :: rat) < of_int (2 * r)"
    using d by (simp add: pos_less_divide_eq mult.commute)
  then show "((1 / 2 :: rat) < of_int r / of_int d) \<longleftrightarrow> d < 2 * r"
    by (simp only: of_int_less_iff)
qed

lemma rne_frac: "0 < d \<Longrightarrow> rne (of_int n / of_int d) = rne_frac n d"
proof -
  assume d: "0 < d"
  have fl: "\<lfloor>of_int n / of_int d :: rat\<rfloor> = n div d" by (rule floor_divide_of_int_eq)
  have "(of_int n :: rat) = of_int (n div d) * of_int d + of_int (n mod d)"
    by (simp flip: of_int_mult of_int_add)
  then have fr: "of_int n / of_int d - of_int (n div d) = (of_int (n mod d) / of_int d :: rat)"
    using d by (simp add: add_divide_distrib)
  show ?thesis
    by (simp only: rne_def rne_frac_def Let_def fl fr frac_less_half [OF d] half_less_frac [OF d])
qed

lemma powi_nonneg: "0 \<le> e \<Longrightarrow> (2::rat) powi e = of_int (2 ^ nat e)"
  by (simp add: power_int_def)

lemma powi_neg: "e < 0 \<Longrightarrow> (2::rat) powi e = 1 / of_int (2 ^ nat (- e))"
proof -
  assume "e < 0"
  then have "(2::rat) powi e = inverse 2 ^ nat (- e)" by (simp add: power_int_def)
  also have "\<dots> = inverse (2 ^ nat (- e))" by (rule power_inverse)
  also have "\<dots> = 1 / of_int (2 ^ nat (- e))"
    by (simp only: inverse_eq_divide of_int_power of_int_numeral)
  finally show ?thesis .
qed

lemma rnd_code [code]:
  "rnd q = (case quotient_of q of (n, d) \<Rightarrow>
     if n = 0 then 0
     else let e = ulp_exp q in
       if 0 \<le> e then of_int (rne_frac n (d * 2 ^ nat e) * 2 ^ nat e)
       else of_int (rne_frac (n * 2 ^ nat (- e)) d) / of_int (2 ^ nat (- e)))"
proof -
  obtain n d where nd: "quotient_of q = (n, d)" by (cases "quotient_of q")
  have d: "0 < d" using quotient_of_denom_pos [OF nd] .
  have q: "q = of_int n / of_int d" using quotient_of_div [OF nd] .
  have n0: "q = 0 \<longleftrightarrow> n = 0" using d by (simp add: q)
  define e where "e = ulp_exp q"
  have r: "rnd q = (if n = 0 then 0 else of_int (rne (q / 2 powi e)) * 2 powi e)"
    by (simp only: rnd_def e_def n0)
  have pos: "q / 2 powi e = of_int n / of_int (d * 2 ^ nat e)" if "0 \<le> e"
    unfolding powi_nonneg [OF that] q by simp
  have neg: "q / 2 powi e = of_int (n * 2 ^ nat (- e)) / of_int d" if "e < 0"
    unfolding powi_neg [OF that] q by simp
  have d': "0 < d * 2 ^ nat e" using d by simp
  have "of_int (rne (q / 2 powi e)) * 2 powi e =
      (if 0 \<le> e then of_int (rne_frac n (d * 2 ^ nat e) * 2 ^ nat e)
       else of_int (rne_frac (n * 2 ^ nat (- e)) d) / of_int (2 ^ nat (- e)) :: rat)"
  proof (cases "0 \<le> e")
    case True
    then show ?thesis
      unfolding pos [OF True] rne_frac [OF d'] unfolding powi_nonneg [OF True] of_int_mult
      by (simp only: if_True)
  next
    case False
    then have lt: "e < 0" by simp
    show ?thesis using False
      unfolding neg [OF lt] rne_frac [OF d] unfolding powi_neg [OF lt]
      by (simp only: if_False times_divide_eq_right mult_1_right)
  qed
  then show ?thesis unfolding r nd prod.case Let_def e_def [symmetric] by (simp only:)
qed

lemma ilog2_code [code]:
  "ilog2 q = (case quotient_of q of (n, d) \<Rightarrow>
     let k = bitlen n - bitlen d in
       if (if 0 \<le> k then d * 2 ^ nat k \<le> n else d \<le> n * 2 ^ nat (- k)) then k else k - 1)"
proof -
  obtain n d where nd: "quotient_of q = (n, d)" by (cases "quotient_of q")
  have d: "0 < d" using quotient_of_denom_pos [OF nd] .
  have q: "q = of_int n / of_int d" using quotient_of_div [OF nd] .
  define k where "k = bitlen n - bitlen d"
  have "2 powi k \<le> q \<longleftrightarrow> (if 0 \<le> k then d * 2 ^ nat k \<le> n else d \<le> n * 2 ^ nat (- k))"
  proof (cases "0 \<le> k")
    case True
    have "2 powi k \<le> q \<longleftrightarrow> (of_int (d * 2 ^ nat k) :: rat) \<le> of_int n"
      unfolding q powi_nonneg [OF True] using d
      by (simp add: pos_le_divide_eq mult.commute)
    then show ?thesis using True by (simp only: of_int_le_iff if_True)
  next
    case False
    then have neg: "k < 0" by simp
    have "2 powi k \<le> q \<longleftrightarrow> (of_int d :: rat) \<le> of_int (n * 2 ^ nat (- k))"
      unfolding q powi_neg [OF neg] using d
      by (simp add: pos_le_divide_eq pos_divide_le_eq)
    then show ?thesis using False by (simp only: of_int_le_iff if_False)
  qed
  then show ?thesis by (simp only: ilog2_def nd prod.case Let_def k_def)
qed

end
