(* ===== verification/F64.thy ===== *)
theory F64
  imports Rounding
begin

text \<open>
  Rust's \<open>f64\<close>: IEEE 754 binary64 with round-to-nearest-even. A value is not-a-number, an
  infinity or a rational that is its own rounding and does not overflow, so the type holds
  exactly the values a double can take. The two zeros are one value: no comparison, sum,
  product, minimum, maximum or clamp tells them apart, and the divisions of the program are
  guarded against a zero divisor.

  The comparison operators are IEEE's (every comparison with NaN is false), \<open>feq\<close> is
  Rust's \<open>==\<close>. \<open>fkey\<close> embeds the non-NaN values into the rationals, infinities at the
  overflow bound, and turns order reasoning into linear arithmetic.
\<close>

section \<open>The values\<close>

datatype fdata = FNaN | FInf bool | FFin rat

fun fvalid :: "fdata \<Rightarrow> bool" where
  "fvalid (FFin q) \<longleftrightarrow> rnd q = q \<and> \<not> overflows q"
| "fvalid _ \<longleftrightarrow> True"

typedef f64 = "{x. fvalid x}" morphisms rep_f64 mk_f64
  by (rule exI [of _ FNaN]) simp

setup_lifting type_definition_f64

definition pack :: "rat \<Rightarrow> fdata" where
  "pack q = (let r = rnd q in if overflows r then FInf (r < 0) else FFin r)"

lemma fvalid_pack [simp]: "fvalid (pack q)"
  by (simp add: pack_def Let_def)

lemma pack_fixed: "rnd q = q \<Longrightarrow> \<not> overflows q \<Longrightarrow> pack q = FFin q"
  by (simp add: pack_def)

lemma pack_0 [simp]: "pack 0 = FFin 0"
  by (simp add: pack_def)

section \<open>Arithmetic\<close>

fun fdata_add :: "fdata \<Rightarrow> fdata \<Rightarrow> fdata" where
  "fdata_add (FFin p) (FFin q) = pack (p + q)"
| "fdata_add (FInf a) (FInf b) = (if a = b then FInf a else FNaN)"
| "fdata_add (FInf a) (FFin _) = FInf a"
| "fdata_add (FFin _) (FInf b) = FInf b"
| "fdata_add _ _ = FNaN"

fun fdata_neg :: "fdata \<Rightarrow> fdata" where
  "fdata_neg (FFin p) = FFin (- p)"
| "fdata_neg (FInf a) = FInf (\<not> a)"
| "fdata_neg FNaN = FNaN"

fun fdata_mul :: "fdata \<Rightarrow> fdata \<Rightarrow> fdata" where
  "fdata_mul (FFin p) (FFin q) = pack (p * q)"
| "fdata_mul (FInf a) (FInf b) = FInf (a \<noteq> b)"
| "fdata_mul (FInf a) (FFin q) = (if q = 0 then FNaN else FInf (a \<noteq> (q < 0)))"
| "fdata_mul (FFin p) (FInf b) = (if p = 0 then FNaN else FInf (b \<noteq> (p < 0)))"
| "fdata_mul _ _ = FNaN"

fun fdata_div :: "fdata \<Rightarrow> fdata \<Rightarrow> fdata" where
  "fdata_div (FFin p) (FFin q) =
     (if q = 0 then if p = 0 then FNaN else FInf (p < 0) else pack (p / q))"
| "fdata_div (FInf a) (FFin q) = FInf (a \<noteq> (q < 0))"
| "fdata_div (FFin _) (FInf _) = FFin 0"
| "fdata_div _ _ = FNaN"

fun fdata_abs :: "fdata \<Rightarrow> fdata" where
  "fdata_abs (FFin p) = FFin \<bar>p\<bar>"
| "fdata_abs (FInf _) = FInf False"
| "fdata_abs FNaN = FNaN"

fun fdata_le :: "fdata \<Rightarrow> fdata \<Rightarrow> bool" where
  "fdata_le (FFin p) (FFin q) \<longleftrightarrow> p \<le> q"
| "fdata_le (FInf a) (FInf b) \<longleftrightarrow> a \<or> \<not> b"
| "fdata_le (FInf a) (FFin _) \<longleftrightarrow> a"
| "fdata_le (FFin _) (FInf b) \<longleftrightarrow> \<not> b"
| "fdata_le _ _ \<longleftrightarrow> False"

lemma fdata_add_NaN [simp]: "fdata_add FNaN y = FNaN" "fdata_add x FNaN = FNaN"
  by (cases y; simp) (cases x; simp)

lemma fvalid_add: "fvalid (fdata_add x y)"
  by (cases x; cases y) auto

lemma fvalid_neg: "fvalid x \<Longrightarrow> fvalid (fdata_neg x)"
  by (cases x) (auto simp: rnd_neg)

lemma fvalid_mul: "fvalid (fdata_mul x y)"
  by (cases x; cases y) auto

lemma fvalid_div: "fvalid (fdata_div x y)"
  by (cases x; cases y) auto

lemma fvalid_abs: "fvalid x \<Longrightarrow> fvalid (fdata_abs x)"
  by (cases x) (auto simp: abs_if rnd_neg)

instantiation f64 :: zero
begin
lift_definition zero_f64 :: f64 is "FFin 0" by simp
instance ..
end

instantiation f64 :: one
begin
lift_definition one_f64 :: f64 is "pack 1" by simp
instance ..
end

instantiation f64 :: plus
begin
lift_definition plus_f64 :: "f64 \<Rightarrow> f64 \<Rightarrow> f64" is fdata_add by (rule fvalid_add)
instance ..
end

instantiation f64 :: uminus
begin
lift_definition uminus_f64 :: "f64 \<Rightarrow> f64" is fdata_neg by (rule fvalid_neg)
instance ..
end

instantiation f64 :: minus
begin
lift_definition minus_f64 :: "f64 \<Rightarrow> f64 \<Rightarrow> f64" is "\<lambda>x y. fdata_add x (fdata_neg y)"
  by (rule fvalid_add)
instance ..
end

instantiation f64 :: times
begin
lift_definition times_f64 :: "f64 \<Rightarrow> f64 \<Rightarrow> f64" is fdata_mul by (rule fvalid_mul)
instance ..
end

instantiation f64 :: inverse
begin
lift_definition divide_f64 :: "f64 \<Rightarrow> f64 \<Rightarrow> f64" is fdata_div by (rule fvalid_div)
lift_definition inverse_f64 :: "f64 \<Rightarrow> f64" is "fdata_div (FFin 1)" by (rule fvalid_div)
instance ..
end

instantiation f64 :: abs
begin
lift_definition abs_f64 :: "f64 \<Rightarrow> f64" is fdata_abs by (rule fvalid_abs)
instance ..
end

instantiation f64 :: ord
begin
lift_definition less_eq_f64 :: "f64 \<Rightarrow> f64 \<Rightarrow> bool" is fdata_le .
lift_definition less_f64 :: "f64 \<Rightarrow> f64 \<Rightarrow> bool" is
  "\<lambda>x y. fdata_le x y \<and> \<not> fdata_le y x" .
instance ..
end

instantiation f64 :: equal
begin
lift_definition equal_f64 :: "f64 \<Rightarrow> f64 \<Rightarrow> bool" is "(=)" .
instance by standard (transfer, simp)
end

text \<open>Literals, conversions from integers and the classification predicates.\<close>

lift_definition flit :: "rat \<Rightarrow> f64" is pack by simp

lift_definition f64_nan :: f64 is FNaN by simp

lift_definition f64_infinity :: f64 is "FInf False" by simp

lift_definition is_nan :: "f64 \<Rightarrow> bool" is "\<lambda>x. x = FNaN" .

lift_definition is_finite :: "f64 \<Rightarrow> bool" is
  "\<lambda>x. case x of FFin _ \<Rightarrow> True | _ \<Rightarrow> False" .

text \<open>\<open>f64::MAX\<close>: 53 one bits, shifted to the top exponent.\<close>

definition f64_max :: f64 where
  "f64_max = flit (of_int ((2 ^ 53 - 1) * 2 ^ 971))"

text \<open>\<open>f64::from(i32)\<close> and \<open>as f64\<close> from an unsigned integer: exact below 53 bits, else
  rounded to nearest.\<close>

definition f64_of_int :: "int \<Rightarrow> f64" where
  "f64_of_int n = flit (of_int n)"

definition f64_of_nat :: "nat \<Rightarrow> f64" where
  "f64_of_nat n = flit (of_nat n)"

definition f64_of_u16 :: "u16 \<Rightarrow> f64" where
  "f64_of_u16 w = f64_of_int (uint w)"

text \<open>Rust's \<open>==\<close>, \<open>min\<close>, \<open>max\<close> (a NaN operand gives the other one) and \<open>clamp\<close>.
  \<open>clamp\<close> panics unless \<open>lo \<le> hi\<close>, which is \<open>clamp_ok\<close>.\<close>

definition feq :: "f64 \<Rightarrow> f64 \<Rightarrow> bool" where
  "feq x y \<longleftrightarrow> \<not> is_nan x \<and> x = y"

definition fmin :: "f64 \<Rightarrow> f64 \<Rightarrow> f64" where
  "fmin x y = (if is_nan x then y else if is_nan y then x else if x \<le> y then x else y)"

definition fmax :: "f64 \<Rightarrow> f64 \<Rightarrow> f64" where
  "fmax x y = (if is_nan x then y else if is_nan y then x else if y \<le> x then x else y)"

definition clamp_ok :: "f64 \<Rightarrow> f64 \<Rightarrow> bool" where
  "clamp_ok lo hi \<longleftrightarrow> lo \<le> hi"

definition fclamp :: "f64 \<Rightarrow> f64 \<Rightarrow> f64 \<Rightarrow> f64" where
  "fclamp lo hi x = (let y = (if x < lo then lo else x) in if hi < y then hi else y)"

text \<open>\<open>total_cmp\<close> on values with a clear sign bit: NaN is the greatest.\<close>

definition ftotal_le :: "f64 \<Rightarrow> f64 \<Rightarrow> bool" where
  "ftotal_le x y \<longleftrightarrow> is_nan y \<or> \<not> is_nan x \<and> x \<le> y"

section \<open>Order and arithmetic through the key\<close>

definition fbound :: rat where
  "fbound = 2 powi 1024"

lemma fbound_pos [simp]: "0 < fbound" "0 \<le> fbound"
  unfolding fbound_def by (rule powi_pos2, rule less_imp_le, rule powi_pos2)

lemma fbound_fixed: "rnd fbound = fbound"
  unfolding fbound_def by (rule rnd_powi) simp

lemma overflows_fbound: "overflows r \<longleftrightarrow> fbound \<le> \<bar>r\<bar>"
  by (simp only: overflows_iff fbound_def)

lemma finite_abs_less: "fvalid (FFin q) \<Longrightarrow> \<bar>q\<bar> < fbound"
  by (simp add: overflows_fbound not_le)

lemma finite_less: "fvalid (FFin q) \<Longrightarrow> - fbound < q \<and> q < fbound"
  using finite_abs_less [of q] by (simp add: abs_less_iff)

fun fdata_key :: "fdata \<Rightarrow> rat" where
  "fdata_key FNaN = 0"
| "fdata_key (FInf s) = (if s then - fbound else fbound)"
| "fdata_key (FFin q) = q"

lift_definition fkey :: "f64 \<Rightarrow> rat" is fdata_key .

definition fclip :: "rat \<Rightarrow> rat" where
  "fclip q = max (- fbound) (min fbound q)"

lemma fdata_le_key:
  "fvalid x \<Longrightarrow> fvalid y \<Longrightarrow>
   fdata_le x y \<longleftrightarrow> x \<noteq> FNaN \<and> y \<noteq> FNaN \<and> fdata_key x \<le> fdata_key y"
  using fbound_pos(1)
  by (cases x; cases y) (auto dest!: finite_less simp del: fvalid.simps fbound_pos split: if_splits)

lemma fdata_key_inject:
  "fvalid x \<Longrightarrow> fvalid y \<Longrightarrow> x \<noteq> FNaN \<Longrightarrow> y \<noteq> FNaN \<Longrightarrow> fdata_key x = fdata_key y \<Longrightarrow> x = y"
  using fbound_pos(1)
  by (cases x; cases y) (auto dest!: finite_less simp del: fvalid.simps fbound_pos split: if_splits)

lemma fdata_key_pack: "fdata_key (pack q) = fclip (rnd q)"
  using fbound_pos(1)
  by (auto simp: pack_def Let_def fclip_def overflows_fbound min_def max_def simp del: fbound_pos)

lemma pack_neq_NaN [simp]: "pack q \<noteq> FNaN" "FNaN \<noteq> pack q"
  by (simp_all add: pack_def Let_def)

lemma f64_le_iff: "x \<le> y \<longleftrightarrow> \<not> is_nan x \<and> \<not> is_nan y \<and> fkey x \<le> fkey y"
  by transfer (rule fdata_le_key)

lemma f64_less_iff: "x < y \<longleftrightarrow> \<not> is_nan x \<and> \<not> is_nan y \<and> fkey x < fkey y"
  by transfer (auto simp: fdata_le_key)

lemma f64_eq_iff: "\<not> is_nan x \<Longrightarrow> \<not> is_nan y \<Longrightarrow> x = y \<longleftrightarrow> fkey x = fkey y"
  by transfer (auto dest: fdata_key_inject)

lemma fkey_fixed: "rnd (fkey x) = fkey x"
  by transfer (auto elim!: fvalid.elims simp: fbound_fixed rnd_neg)

lemma fkey_bounds: "- fbound \<le> fkey x" "fkey x \<le> fbound"
proof -
  have "- fbound \<le> fkey x \<and> fkey x \<le> fbound"
    by transfer (auto elim!: fvalid.elims simp: overflows_fbound not_le abs_less_iff)
  then show "- fbound \<le> fkey x" "fkey x \<le> fbound" by simp_all
qed

lemma is_finite_not_nan: "is_finite x \<Longrightarrow> \<not> is_nan x"
  by transfer (auto split: fdata.splits)

lemma is_finite_iff: "is_finite x \<longleftrightarrow> \<not> is_nan x \<and> \<bar>fkey x\<bar> < fbound"
  by transfer (auto split: fdata.splits simp: overflows_fbound abs_less_iff not_le)

lemma fkey_0 [simp]: "fkey 0 = 0" "\<not> is_nan 0" "is_finite 0"
  by (transfer, simp)+

lemma not_nan_1 [simp]: "\<not> is_nan 1"
  by transfer simp

lemma fkey_flit: "fkey (flit q) = fclip (rnd q)" and not_nan_flit [simp]: "\<not> is_nan (flit q)"
  by (transfer, simp add: fdata_key_pack)+

lemma fclip_id: "\<bar>q\<bar> \<le> fbound \<Longrightarrow> fclip q = q"
  by (auto simp: fclip_def abs_le_iff)

lemma fclip_mono: "p \<le> q \<Longrightarrow> fclip p \<le> fclip q"
  by (auto simp: fclip_def)

lemma fclip_fkey [simp]: "fclip (fkey x) = fkey x"
  using fkey_bounds [of x] by (simp add: fclip_def)

lemma fkey_add: "is_finite x \<Longrightarrow> is_finite y \<Longrightarrow> fkey (x + y) = fclip (rnd (fkey x + fkey y))"
  by transfer (auto split: fdata.splits simp: fdata_key_pack)

lemma fkey_mul: "is_finite x \<Longrightarrow> is_finite y \<Longrightarrow> fkey (x * y) = fclip (rnd (fkey x * fkey y))"
  by transfer (auto split: fdata.splits simp: fdata_key_pack)

lemma fkey_div:
  "is_finite x \<Longrightarrow> is_finite y \<Longrightarrow> fkey y \<noteq> 0 \<Longrightarrow> fkey (x / y) = fclip (rnd (fkey x / fkey y))"
  by transfer (auto split: fdata.splits simp: fdata_key_pack)

lemma fkey_neg: "fkey (- x) = - fkey x"
  by transfer (auto elim!: fvalid.elims)

lemma fkey_abs: "fkey \<bar>x\<bar> = \<bar>fkey x\<bar>"
  by transfer (auto elim!: fvalid.elims)

lemma is_nan_neg [simp]: "is_nan (- x) = is_nan x"
  by transfer (auto elim!: fvalid.elims)

lemma is_nan_abs [simp]: "is_nan \<bar>x\<bar> = is_nan x"
  by transfer (auto elim!: fvalid.elims)

lemma f64_diff_conv: "(x::f64) - y = x + - y"
  by transfer simp

lemma finite_not_nan_add [simp]:
  "is_finite x \<Longrightarrow> is_finite y \<Longrightarrow> \<not> is_nan (x + y)"
  "is_finite x \<Longrightarrow> is_finite y \<Longrightarrow> \<not> is_nan (x * y)"
  "is_finite x \<Longrightarrow> is_finite y \<Longrightarrow> fkey y \<noteq> 0 \<Longrightarrow> \<not> is_nan (x / y)"
  by (transfer, auto split: fdata.splits)+

lemma fdata_NaN: "fdata_mul FNaN y = FNaN" "fdata_mul x FNaN = FNaN"
  "fdata_div FNaN y = FNaN" "fdata_div x FNaN = FNaN"
  by (cases x; simp; fail | simp)+

lemma nan_arith [simp]:
  "is_nan x \<Longrightarrow> is_nan (x + y)" "is_nan y \<Longrightarrow> is_nan (x + y)"
  "is_nan x \<Longrightarrow> is_nan (x - y)" "is_nan y \<Longrightarrow> is_nan (x - y)"
  "is_nan x \<Longrightarrow> is_nan (x * y)" "is_nan y \<Longrightarrow> is_nan (x * y)"
  "is_nan x \<Longrightarrow> is_nan (x / y)" "is_nan y \<Longrightarrow> is_nan (x / y)"
  by (transfer, simp add: fdata_NaN)+

section \<open>Order laws\<close>

lemma f64_refl [simp]: "x \<le> x \<longleftrightarrow> \<not> is_nan (x :: f64)"
  by (simp add: f64_le_iff)

lemma f64_trans: "(x :: f64) \<le> y \<Longrightarrow> y \<le> z \<Longrightarrow> x \<le> z"
  by (simp add: f64_le_iff)

lemma f64_antisym: "(x :: f64) \<le> y \<Longrightarrow> y \<le> x \<Longrightarrow> x = y"
  by (auto simp: f64_le_iff f64_eq_iff)

lemma f64_less_imp_le: "(x :: f64) < y \<Longrightarrow> x \<le> y"
  by (simp add: f64_le_iff f64_less_iff)

lemma f64_not_less: "\<not> is_nan x \<Longrightarrow> \<not> is_nan y \<Longrightarrow> \<not> x < y \<longleftrightarrow> y \<le> (x :: f64)"
  by (auto simp: f64_le_iff f64_less_iff)

lemma f64_not_le: "\<not> is_nan x \<Longrightarrow> \<not> is_nan y \<Longrightarrow> \<not> x \<le> y \<longleftrightarrow> y < (x :: f64)"
  by (auto simp: f64_le_iff f64_less_iff)

lemma f64_le_not_nan: "(x :: f64) \<le> y \<Longrightarrow> \<not> is_nan x" "(x :: f64) \<le> y \<Longrightarrow> \<not> is_nan y"
  by (simp_all add: f64_le_iff)

lemma f64_less_not_nan: "(x :: f64) < y \<Longrightarrow> \<not> is_nan x" "(x :: f64) < y \<Longrightarrow> \<not> is_nan y"
  by (simp_all add: f64_less_iff)

lemma f64_irrefl [simp]: "\<not> x < (x :: f64)"
  by (simp add: f64_less_iff)

lemma f64_le_less_trans: "(x :: f64) \<le> y \<Longrightarrow> y < z \<Longrightarrow> x < z"
  by (simp add: f64_le_iff f64_less_iff)

lemma f64_add_zero [simp]: "x + 0 = (x :: f64)" "0 + x = (x :: f64)"
proof -
  have "fdata_add x (FFin 0) = x \<and> fdata_add (FFin 0) x = x" if "fvalid x" for x
    using that by (cases x) (auto simp: pack_fixed)
  then show "x + 0 = x" "0 + x = x" by (transfer, simp)+
qed

text \<open>A non-negative value is finite or \<open>+\<infinity>\<close>; sums of such values are never NaN.\<close>

lemma f64_infinity_facts [simp]:
  "\<not> is_nan f64_infinity" "fkey f64_infinity = fbound" "\<not> is_finite f64_infinity"
  by (transfer, simp)+

lemma nonneg_cases: "0 \<le> x \<Longrightarrow> is_finite x \<or> x = f64_infinity"
  by transfer (auto elim!: fvalid.elims simp: fbound_pos [unfolded not_le [symmetric]] split: if_splits)

lemma infinity_add [simp]: "0 \<le> y \<Longrightarrow> f64_infinity + y = f64_infinity"
  "0 \<le> y \<Longrightarrow> y + f64_infinity = f64_infinity"
  by (transfer, auto elim!: fvalid.elims split: if_splits)+

lemma nonneg_add_key: "0 \<le> x \<Longrightarrow> 0 \<le> y \<Longrightarrow> fkey (x + y) = fclip (rnd (fkey x + fkey y))"
proof -
  assume xy: "0 \<le> x" "0 \<le> y"
  then have k: "0 \<le> fkey x" "0 \<le> fkey y" by (simp_all add: f64_le_iff)
  have inf: "fclip (rnd (fbound + k)) = fbound" if "0 \<le> k" for k
    using rne.add_absorb [OF fbound_fixed that] by (simp add: fclip_def)
  show ?thesis
    using nonneg_cases [OF xy(1)] nonneg_cases [OF xy(2)] xy k inf [of "fkey x"] inf [of "fkey y"]
    by (auto simp: fkey_add add.commute)
qed

lemma nonneg_add_not_nan: "0 \<le> x \<Longrightarrow> 0 \<le> y \<Longrightarrow> \<not> is_nan (x + y)"
  using nonneg_cases [of x] nonneg_cases [of y] by auto

lemma f64_add_mono:
  assumes "0 \<le> x" "x \<le> x'" "0 \<le> y" "y \<le> (y' :: f64)"
  shows "x + y \<le> x' + y'"
proof -
  have 0: "0 \<le> x'" "0 \<le> y'" using assms by (blast intro: f64_trans)+
  show ?thesis
    using assms 0 nonneg_add_not_nan [of x y] nonneg_add_not_nan [of x' y']
    by (auto simp: f64_le_iff nonneg_add_key intro!: fclip_mono rnd_mono)
qed

lemma f64_add_increasing: "0 \<le> x \<Longrightarrow> 0 \<le> y \<Longrightarrow> x \<le> x + (y :: f64)"
  using f64_add_mono [of x x 0 y] by (simp add: f64_le_not_nan)

lemma f64_add_nonneg: "0 \<le> x \<Longrightarrow> 0 \<le> y \<Longrightarrow> 0 \<le> x + (y :: f64)"
  using f64_add_increasing f64_trans by blast

lemma f64_neg_nonneg: "x \<le> 0 \<Longrightarrow> 0 \<le> - (x :: f64)"
  by (simp add: f64_le_iff fkey_neg)

lemma f64_abs_nonneg: "\<not> is_nan x \<Longrightarrow> 0 \<le> \<bar>x :: f64\<bar>"
  by (simp add: f64_le_iff fkey_abs)

text \<open>Division by a positive value.\<close>

lemma nonneg_div:
  assumes "0 \<le> x" "0 \<le> y"
  shows "is_nan (x / y) \<or> 0 \<le> x / (y :: f64)"
proof -
  have "fvalid x \<Longrightarrow> fvalid y \<Longrightarrow> x \<noteq> FNaN \<Longrightarrow> y \<noteq> FNaN \<Longrightarrow> 0 \<le> fdata_key x \<Longrightarrow> 0 \<le> fdata_key y \<Longrightarrow>
      fdata_div x y = FNaN \<or> 0 \<le> fdata_key (fdata_div x y)" for x y
    using fbound_pos(1)
    by (cases x; cases y) (auto simp: fdata_key_pack fclip_def le_max_iff_disj rnd_nonneg
        simp del: fbound_pos)
  then have "\<not> is_nan x \<Longrightarrow> \<not> is_nan y \<Longrightarrow> 0 \<le> fkey x \<Longrightarrow> 0 \<le> fkey y \<Longrightarrow>
      is_nan (x / y) \<or> 0 \<le> fkey (x / y)"
    by transfer
  then show ?thesis using assms by (auto simp: f64_le_iff)
qed

lemma infinity_div [simp]: "0 \<le> y \<Longrightarrow> is_finite y \<Longrightarrow> f64_infinity / y = f64_infinity"
  by transfer (auto split: fdata.splits)

lemma f64_div_mono:
  assumes "0 \<le> x" "x \<le> x'" "0 < y" "is_finite y"
  shows "x / y \<le> x' / (y :: f64)"
proof -
  have y: "0 < fkey y" "0 \<le> y" using assms(3) by (auto simp: f64_less_iff f64_le_iff)
  have "0 \<le> x'" using assms by (blast intro: f64_trans)
  then consider "x' = f64_infinity" | "is_finite x'" "is_finite x"
    using nonneg_cases [of x'] nonneg_cases [OF assms(1)] assms(2)
    by (auto simp: is_finite_iff f64_le_iff)
  then show ?thesis
  proof cases
    case 1
    have "\<not> is_nan (x / y)"
      using nonneg_cases [OF assms(1)] y assms(4) by auto
    then show ?thesis using 1 y assms(4) fkey_bounds [of "x / y"] by (simp add: f64_le_iff)
  next
    case 2
    then show ?thesis using assms(2,4) y
      by (simp add: f64_le_iff fkey_div fclip_mono rnd_mono divide_right_mono)
  qed
qed

lemma f64_div_nonneg: "0 \<le> x \<Longrightarrow> 0 < y \<Longrightarrow> is_finite y \<Longrightarrow> 0 \<le> x / (y :: f64)"
  using nonneg_cases [of x] nonneg_div [of x y]
  by (auto simp: f64_less_imp_le) (auto simp: f64_less_iff)

lemma f64_le_infinity: "x \<le> f64_infinity \<longleftrightarrow> \<not> is_nan x"
  using fkey_bounds [of x] by (auto simp: f64_le_iff)

section \<open>Minimum, maximum, clamp\<close>

lemma fmin_le: "\<not> is_nan y \<Longrightarrow> fmin x y \<le> y"
  by (auto simp: fmin_def f64_le_iff)

lemma fmin_not_nan: "\<not> is_nan y \<Longrightarrow> \<not> is_nan (fmin x y)"
  by (simp add: fmin_def)

lemma fmin_nonneg: "0 \<le> x \<Longrightarrow> 0 \<le> y \<Longrightarrow> 0 \<le> fmin x y"
  by (auto simp: fmin_def)

lemma fmin_le_left: "\<not> is_nan x \<Longrightarrow> fmin x y \<le> x"
  by (auto simp: fmin_def f64_le_iff)

lemma fmax_ge_right: "\<not> is_nan y \<Longrightarrow> y \<le> fmax x y"
  by (auto simp: fmax_def f64_le_iff)

lemma fmax_ge_left: "\<not> is_nan x \<Longrightarrow> x \<le> fmax x y"
  by (auto simp: fmax_def f64_le_iff)

lemma fmax_not_nan: "\<not> is_nan x \<or> \<not> is_nan y \<Longrightarrow> \<not> is_nan (fmax x y)"
  by (auto simp: fmax_def)

lemma fclamp_bounds:
  assumes "clamp_ok lo hi" and "\<not> is_nan x"
  shows "lo \<le> fclamp lo hi x" and "fclamp lo hi x \<le> hi"
  using assms by (auto simp: clamp_ok_def fclamp_def Let_def f64_le_iff f64_less_iff)

lemma fclamp_nan: "is_nan x \<Longrightarrow> fclamp lo hi x = x"
  by (auto simp: fclamp_def Let_def f64_less_iff)

lemma fclamp_id: "lo \<le> x \<Longrightarrow> x \<le> hi \<Longrightarrow> fclamp lo hi x = x"
  by (auto simp: fclamp_def Let_def f64_less_iff f64_le_iff)

section \<open>Successor and square root\<close>

text \<open>\<open>next_up\<close>: the least double above the argument. Below zero the spacing shrinks at a
  power of two, where the predecessor of the magnitude lies in the smaller binade.\<close>

definition succ_rat :: "rat \<Rightarrow> rat" where
  "succ_rat q = q + 2 powi ulp_exp q"

definition pred_rat :: "rat \<Rightarrow> rat" where
  "pred_rat q =
     (if q = 2 powi ilog2 q \<and> - 1074 < ulp_exp q then q - 2 powi (ulp_exp q - 1)
      else q - 2 powi ulp_exp q)"

fun fdata_next_up :: "fdata \<Rightarrow> fdata" where
  "fdata_next_up FNaN = FNaN"
| "fdata_next_up (FInf s) = (if s then pack (- of_int ((2 ^ 53 - 1) * 2 ^ 971)) else FInf False)"
| "fdata_next_up (FFin q) =
     pack (if q = 0 then 2 powi (- 1074) else if 0 < q then succ_rat q else - pred_rat (- q))"

lift_definition next_up :: "f64 \<Rightarrow> f64" is fdata_next_up
proof -
  show "fvalid (fdata_next_up x)" if "fvalid x" for x by (cases x) auto
qed

lemma succ_rat_fixed:
  assumes "0 < q" and "rnd q = q"
  shows "rnd (succ_rat q) = succ_rat q"
proof -
  define e where "e = ulp_exp q"
  define m where "m = rne (q / 2 powi e)"
  have q: "q = of_int m * 2 powi e" using assms by (simp add: rnd_def m_def e_def)
  have e: "- 1074 \<le> e" by (simp add: e_def ulp_exp_def)
  have "q < 2 powi (ilog2 q + 1)" using assms(1) by (rule ilog2_bounds)
  also have "\<dots> \<le> 2 powi (53 + e)"
    using assms(1) by (intro powi_mono2) (simp add: e_def ulp_exp_def)
  also have "\<dots> = 2 powi 53 * 2 powi e" by (rule powi_add2)
  finally have "of_int m * 2 powi e < (2 powi 53 * 2 powi e :: rat)" unfolding q .
  then have "(of_int m :: rat) < 2 powi 53" by (rule mult_right_less_imp_less) simp
  then have "(of_int m :: rat) < of_int (2 ^ 53)" by simp
  then have "m < 2 ^ 53" by (simp only: of_int_less_iff)
  moreover have "0 < m" using assms(1) powi_pos2 [of e] unfolding q
    by (auto simp: zero_less_mult_iff simp del: powi_pos2)
  ultimately have "\<bar>m + 1\<bar> \<le> 2 ^ 53" by simp
  moreover have "succ_rat q = of_int (m + 1) * 2 powi e"
    unfolding succ_rat_def by (simp add: q [symmetric] flip: e_def) (simp add: q algebra_simps)
  ultimately show ?thesis using rnd_exact [OF e, of "m + 1"] by (simp only:)
qed

lemma next_up_greater: "0 < v \<Longrightarrow> is_finite v \<Longrightarrow> v < next_up v"
proof -
  assume v: "0 < v" "is_finite v"
  have "fdata_next_up x \<noteq> FNaN \<and> fdata_key x < fdata_key (fdata_next_up x)"
    if x: "fvalid x" "x = FFin q" "0 < q" for x q
  proof -
    have q: "rnd q = q" "q < fbound" using x finite_less [of q] by auto
    have up: "rnd (succ_rat q) = succ_rat q" using x(3) q(1) by (rule succ_rat_fixed)
    have "q < succ_rat q" by (simp add: succ_rat_def)
    then have "q < fclip (succ_rat q)" using q x(3) fbound_pos(1) by (simp add: fclip_def)
    then show ?thesis using x up by (simp add: fdata_key_pack)
  qed
  then have "fvalid x \<Longrightarrow> 0 < fdata_key x \<Longrightarrow> (case x of FFin _ \<Rightarrow> True | _ \<Rightarrow> False) \<Longrightarrow>
      fdata_next_up x \<noteq> FNaN \<and> fdata_key x < fdata_key (fdata_next_up x)" for x
    by (cases x) auto
  then have "0 < fkey v \<Longrightarrow> is_finite v \<Longrightarrow> \<not> is_nan (next_up v) \<and> fkey v < fkey (next_up v)"
    by transfer auto
  then show ?thesis using v by (auto simp: f64_less_iff)
qed

text \<open>
  The square root of \<open>n / d\<close> is computed to at least 55 bits as an integer root with a sticky
  half: \<open>isqrt\<close> is the floor of the root of \<open>m = n * 4 ^ k div d\<close>, and a half is added when
  the root is inexact, so that rounding the result rounds the exact root.
\<close>

function isqrt :: "int \<Rightarrow> int" where
  "isqrt n = (if n \<le> 0 then 0
     else let r = 2 * isqrt (n div 4) in if (r + 1) * (r + 1) \<le> n then r + 1 else r)"
  by pat_completeness auto
termination
  by (relation "measure nat") auto

declare isqrt.simps [simp del]

lemma isqrt_bounds: "0 \<le> n \<Longrightarrow> 0 \<le> isqrt n \<and> isqrt n * isqrt n \<le> n \<and> n < (isqrt n + 1) * (isqrt n + 1)"
proof (induction n rule: isqrt.induct)
  case (1 n)
  show ?case
  proof (cases "n = 0")
    case False
    define s where "s = isqrt (n div 4)"
    have s: "0 \<le> s" "s * s \<le> n div 4" "n div 4 < (s + 1) * (s + 1)"
      using "1.IH" "1.prems" False by (simp_all add: s_def)
    have lo: "(2 * s) * (2 * s) \<le> n" using s(2) by (simp add: algebra_simps)
    have "n div 4 + 1 \<le> (s + 1) * (s + 1)" using s(3) by simp
    then have "4 * (n div 4 + 1) \<le> 4 * ((s + 1) * (s + 1))" by simp
    moreover have "n < 4 * (n div 4 + 1)" by simp
    ultimately have hi: "n < (2 * s + 2) * (2 * s + 2)" by (simp add: algebra_simps)
    have "isqrt n = (if (2 * s + 1) * (2 * s + 1) \<le> n then 2 * s + 1 else 2 * s)"
      using False "1.prems" by (subst isqrt.simps) (simp add: Let_def s_def)
    then show ?thesis using lo hi s(1) by (auto simp: not_le algebra_simps)
  qed (simp add: isqrt.simps)
qed

lemma isqrt_nonneg: "0 \<le> isqrt n"
  using isqrt_bounds [of n] by (cases "0 \<le> n") (simp_all add: isqrt.simps)

definition sqrt_rat :: "rat \<Rightarrow> rat" where
  "sqrt_rat q = (case quotient_of q of (n, d) \<Rightarrow>
     let k = nat (56 + (bitlen d - bitlen n) div 2 + 1);
         s = isqrt (n * 4 ^ k div d);
         exact = (s * s * d = n * 4 ^ k)
     in of_int (2 * s + (if exact then 0 else 1)) / of_int (2 * 2 ^ k))"

lemma sqrt_rat_nonneg: "0 \<le> sqrt_rat q"
  by (auto simp: sqrt_rat_def Let_def isqrt_nonneg split: prod.split)

fun fdata_sqrt :: "fdata \<Rightarrow> fdata" where
  "fdata_sqrt (FFin q) = (if q < 0 then FNaN else if q = 0 then FFin 0 else pack (sqrt_rat q))"
| "fdata_sqrt (FInf s) = (if s then FNaN else FInf False)"
| "fdata_sqrt FNaN = FNaN"

lift_definition fsqrt :: "f64 \<Rightarrow> f64" is fdata_sqrt
proof -
  show "fvalid (fdata_sqrt x)" if "fvalid x" for x by (cases x) auto
qed

lemma fsqrt_nonneg: "0 \<le> x \<Longrightarrow> 0 \<le> fsqrt x"
proof -
  have "fvalid x \<Longrightarrow> x \<noteq> FNaN \<Longrightarrow> 0 \<le> fdata_key x \<Longrightarrow>
      fdata_sqrt x \<noteq> FNaN \<and> 0 \<le> fdata_key (fdata_sqrt x)" for x
    using fbound_pos(1)
    by (cases x) (auto simp: fdata_key_pack fclip_def le_max_iff_disj sqrt_rat_nonneg rnd_nonneg
        simp del: fbound_pos)
  then have "\<not> is_nan x \<Longrightarrow> 0 \<le> fkey x \<Longrightarrow> \<not> is_nan (fsqrt x) \<and> 0 \<le> fkey (fsqrt x)"
    by transfer
  then show "0 \<le> x \<Longrightarrow> 0 \<le> fsqrt x" by (simp add: f64_le_iff)
qed

section \<open>Evaluation\<close>

text \<open>
  The code equations compute on the representation and return to a normal form, the fraction
  \<open>ffrac n d\<close> in lowest terms, so that evaluating a nest of operations rounds each once.
\<close>

text \<open>A dyadic fraction of small numerator is its own rounding.\<close>

lemma pow2_dvd: "d dvd (2::int) ^ k \<Longrightarrow> 0 < d \<Longrightarrow> \<exists>j\<le>k. d = 2 ^ j"
proof (induction k arbitrary: d)
  case 0
  then show ?case by (auto dest: zdvd_imp_le)
next
  case (Suc k)
  show ?case
  proof (cases "even d")
    case True
    then obtain c where c: "d = 2 * c" by blast
    have "c dvd 2 ^ k" "0 < c" using Suc.prems by (simp_all add: c)
    then obtain j where "j \<le> k" "c = 2 ^ j" using Suc.IH by blast
    then show ?thesis by (intro exI [of _ "Suc j"]) (simp add: c)
  next
    case False
    then have "coprime d 2" by simp
    then have "d dvd 2 ^ k" using Suc.prems(1) by (simp add: coprime_dvd_mult_right_iff)
    then show ?thesis using Suc by (meson le_SucI)
  qed
qed

lemma pack_exact:
  assumes "quotient_of q = (n, d)" "\<bar>n\<bar> \<le> 2 ^ 53" "2 ^ 64 mod d = 0"
  shows "pack q = FFin q"
proof -
  have d: "0 < d" using assms(1) by (rule quotient_of_denom_pos)
  have "d dvd 2 ^ 64" using assms(3) by (simp add: dvd_eq_mod_eq_0)
  from pow2_dvd [OF this d] obtain j where j: "j \<le> 64" "d = 2 ^ j" by auto
  have q: "q = of_int n * 2 powi (- int j)"
    using quotient_of_div [OF assms(1)] by (simp add: j power_int_minus divide_inverse)
  have rnd: "rnd q = q" unfolding q using j assms(2) by (intro rnd_exact) auto
  have "\<bar>q\<bar> \<le> \<bar>of_int n :: rat\<bar>"
    using d quotient_of_div [OF assms(1)] by (simp add: divide_le_eq mult_le_cancel_left1)
  also have "\<dots> \<le> 2 powi 53"
  proof -
    have "(of_int \<bar>n\<bar> :: rat) \<le> of_int (2 ^ 53)" using assms(2) by (simp only: of_int_le_iff)
    then show ?thesis by simp
  qed
  also have "(2 powi 53 :: rat) < fbound" unfolding fbound_def by (rule powi_strict2) simp
  finally show ?thesis using rnd by (intro pack_fixed) (simp_all only: overflows_fbound not_le)
qed

lemma pack_code [code]:
  "pack q = (case quotient_of q of (n, d) \<Rightarrow>
     if \<bar>n\<bar> \<le> 9007199254740992 \<and> 18446744073709551616 mod d = 0 then FFin q
     else let r = rnd q in if overflows r then FInf (r < 0) else FFin r)"
  using pack_exact [of q]
  by (cases "quotient_of q") (auto simp: pack_def)

lift_definition ffrac :: "int \<Rightarrow> int \<Rightarrow> f64" is "\<lambda>n d. pack (of_int n / of_int d)" by simp

fun fnorm :: "fdata \<Rightarrow> f64" where
  "fnorm FNaN = f64_nan"
| "fnorm (FInf s) = (if s then - f64_infinity else f64_infinity)"
| "fnorm (FFin q) = (case quotient_of q of (n, d) \<Rightarrow> ffrac n d)"

lemma fnorm_rep: "fnorm (rep_f64 x) = x"
proof -
  have "rep_f64 (fnorm d) = d" if "fvalid d" for d
  proof (cases d)
    case (FFin q)
    obtain a b where "quotient_of q = (a, b)" by fastforce
    then show ?thesis
      using that FFin quotient_of_div [of q a b] by (simp add: ffrac.rep_eq pack_fixed)
  qed (auto simp: f64_nan.rep_eq f64_infinity.rep_eq uminus_f64.rep_eq)
  then show ?thesis using rep_f64 [of x] by (simp add: rep_f64_inject [symmetric])
qed

lemma plus_f64_code [code]: "x + y = fnorm (fdata_add (rep_f64 x) (rep_f64 y))"
  and minus_f64_code [code]: "x - y = fnorm (fdata_add (rep_f64 x) (fdata_neg (rep_f64 y)))"
  and times_f64_code [code]: "x * y = fnorm (fdata_mul (rep_f64 x) (rep_f64 y))"
  and divide_f64_code [code]: "x / y = fnorm (fdata_div (rep_f64 x) (rep_f64 y))"
  by (simp_all only: fnorm_rep plus_f64.rep_eq [symmetric] minus_f64.rep_eq [symmetric]
      times_f64.rep_eq [symmetric] divide_f64.rep_eq [symmetric])

end
