(* ===== verification/Calibration.thy ===== *)
theory Calibration
  imports F64
begin

text \<open>
  \<open>src/calibration.rs\<close>: the exponentially weighted line fit, the per-device closure integrals,
  the peer regressions and the gates that decide which offset is applied.

  The accumulator updates of \<open>EwFit\<close> are polymorphic in the arithmetic: at \<^typ>\<open>f64\<close> they
  are the program's, at an ordered field they are the exact computation that
  \<open>Calibration_Ideal\<close> reasons about. \<open>f64::exp\<close> has no specified result, so it is the
  argument \<open>ex\<close> of every operation that calls it. Fields carry a prefix naming their struct.
\<close>

section \<open>The line fit\<close>

record 'a ew_fit =
  ew_n :: 'a
  ew_sx :: 'a
  ew_sy :: 'a
  ew_sxx :: 'a
  ew_sxy :: 'a
  ew_syy :: 'a

definition ew_default :: "('a :: zero) ew_fit" where
  "ew_default = \<lparr> ew_n = 0, ew_sx = 0, ew_sy = 0, ew_sxx = 0, ew_sxy = 0, ew_syy = 0 \<rparr>"

definition ew_decay :: "('a :: times) \<Rightarrow> 'a ew_fit \<Rightarrow> 'a ew_fit" where
  "ew_decay factor f =
     \<lparr> ew_n = ew_n f * factor, ew_sx = ew_sx f * factor, ew_sy = ew_sy f * factor,
       ew_sxx = ew_sxx f * factor, ew_sxy = ew_sxy f * factor, ew_syy = ew_syy f * factor \<rparr>"

definition ew_push :: "('a :: {plus, times, one}) \<Rightarrow> 'a \<Rightarrow> 'a ew_fit \<Rightarrow> 'a ew_fit" where
  "ew_push x y f =
     \<lparr> ew_n = ew_n f + 1, ew_sx = ew_sx f + x, ew_sy = ew_sy f + y,
       ew_sxx = ew_sxx f + x * x, ew_sxy = ew_sxy f + x * y, ew_syy = ew_syy f + y * y \<rparr>"

definition ew_shift_x :: "('a :: {plus, minus, times, one}) \<Rightarrow> 'a ew_fit \<Rightarrow> 'a ew_fit" where
  "ew_shift_x d f =
     f\<lparr> ew_sxx := ew_sxx f - (1 + 1) * d * ew_sx f + d * d * ew_n f,
        ew_sxy := ew_sxy f - d * ew_sy f,
        ew_sx := ew_sx f - d * ew_n f \<rparr>"

text \<open>The centred sums and the line they give.\<close>

definition ew_cxx :: "('a :: {minus, times, inverse}) ew_fit \<Rightarrow> 'a" where
  "ew_cxx f = ew_sxx f - ew_sx f * ew_sx f / ew_n f"

definition ew_cxy :: "('a :: {minus, times, inverse}) ew_fit \<Rightarrow> 'a" where
  "ew_cxy f = ew_sxy f - ew_sx f * ew_sy f / ew_n f"

definition ew_cyy :: "('a :: {minus, times, inverse}) ew_fit \<Rightarrow> 'a" where
  "ew_cyy f = ew_syy f - ew_sy f * ew_sy f / ew_n f"

definition ew_slope :: "('a :: {minus, times, inverse}) ew_fit \<Rightarrow> 'a" where
  "ew_slope f = ew_cxy f / ew_cxx f"

definition ew_intercept :: "('a :: {minus, times, inverse}) ew_fit \<Rightarrow> 'a" where
  "ew_intercept f = (ew_sy f - ew_slope f * ew_sx f) / ew_n f"

record fit =
  fit_slope :: f64
  fit_intercept :: f64
  fit_r2 :: f64
  fit_stderr :: f64

definition ew_fit_line :: "f64 ew_fit \<Rightarrow> fit option" where
  "ew_fit_line f =
     (if ew_n f < flit 3 then None
      else let sxx = ew_cxx f; sxy = ew_cxy f; syy = ew_cyy f in
        if sxx \<le> 0 \<or> \<not> is_finite sxx then None
        else let slope = ew_slope f;
                 intercept = ew_intercept f;
                 sse = fmax (syy - slope * sxy) 0;
                 stderr = fsqrt (sse / (ew_n f - flit 2) / sxx);
                 r2 = (if 0 < syy then fclamp 0 1 (sxy * sxy / (sxx * syy)) else 1) in
          if \<not> is_finite slope \<or> \<not> is_finite intercept then None
          else Some \<lparr> fit_slope = slope, fit_intercept = intercept, fit_r2 = r2,
                      fit_stderr = (if is_finite stderr then stderr else f64_max) \<rparr>)"

definition ew_weight :: "'a ew_fit \<Rightarrow> 'a" where
  "ew_weight f = ew_n f"

section \<open>Options, samples, reports\<close>

record options =
  o_tau_hours :: f64
  o_min_span_hours :: f64
  o_max_anchor_error_amperes :: f64
  o_max_offset_amperes :: f64
  o_max_stderr_amperes :: f64
  o_max_gap_secs :: f64
  o_peer_max_skew_secs :: f64
  o_peer_tau_hours :: f64
  o_peer_min_weight :: f64
  o_peer_slope_tolerance :: f64
  o_peer_min_r2 :: f64
  o_peer_max_published :: nat
  o_peer_max_disagreement_amperes :: f64

definition options_default :: options where
  "options_default =
     \<lparr> o_tau_hours = flit 1440, o_min_span_hours = flit 168,
       o_max_anchor_error_amperes = flit (5 / 100), o_max_offset_amperes = flit (5 / 10),
       o_max_stderr_amperes = flit (5 / 100), o_max_gap_secs = flit 900,
       o_peer_max_skew_secs = flit 120, o_peer_tau_hours = flit 168,
       o_peer_min_weight = flit 500, o_peer_slope_tolerance = flit (2 / 10),
       o_peer_min_r2 = flit (8 / 10), o_peer_max_published = 3,
       o_peer_max_disagreement_amperes = flit (25 / 100) \<rparr>"

record sample =
  s_current_a :: f64
  s_balance_a :: "f64 option"
  s_remaining_ah :: "f64 option"
  s_capacity_ah :: "f64 option"
  s_now_secs :: f64

datatype hold = HoldNone | Warmup | NoFit | Noisy | PeerDisagreement

fun hold_code :: "hold \<Rightarrow> f64" where
  "hold_code HoldNone = 0"
| "hold_code Warmup = flit 1"
| "hold_code NoFit = flit 2"
| "hold_code Noisy = flit 3"
| "hold_code PeerDisagreement = flit 4"

record peer_report =
  p_peer_sn :: string
  p_relative_offset :: f64
  p_slope :: f64
  p_r2 :: f64
  p_disagreement :: f64

record report =
  r_applied :: f64
  r_estimate :: "f64 option"
  r_stderr :: "f64 option"
  r_r2 :: "f64 option"
  r_span_hours :: f64
  r_anchor_error :: f64
  r_weight :: f64
  r_hold :: hold
  r_peers :: "peer_report list"
  r_peer_disagreement :: "f64 option"

section \<open>State\<close>

record device_state =
  ds_fit :: "f64 ew_fit"
  ds_x :: f64
  ds_span_hours :: f64
  ds_cum_net_ah :: f64
  ds_cum_bal_ah :: f64
  ds_applied :: f64
  ds_capacity_ah :: f64

definition device_default :: device_state where
  "device_default =
     \<lparr> ds_fit = ew_default, ds_x = 0, ds_span_hours = 0, ds_cum_net_ah = 0, ds_cum_bal_ah = 0,
       ds_applied = 0, ds_capacity_ah = 0 \<rparr>"

record cal_state =
  st_devices :: "device_state smap"
  st_pairs :: "f64 ew_fit smap"

definition cal_state_default :: cal_state where
  "cal_state_default = \<lparr> st_devices = [], st_pairs = [] \<rparr>"

record live =
  lv_last_ts :: "f64 option"
  lv_last_current :: "f64 option"
  lv_last_balance :: "f64 option"
  lv_last_raw :: "(f64 \<times> f64) option"
  lv_hold :: hold
  lv_peers :: "peer_report list"
  lv_peer_disagreement :: "f64 option"

definition live_default :: live where
  "live_default =
     \<lparr> lv_last_ts = None, lv_last_current = None, lv_last_balance = None, lv_last_raw = None,
       lv_hold = Warmup, lv_peers = [], lv_peer_disagreement = None \<rparr>"

record pair_live =
  pl_last_ts :: "f64 option"

definition pair_live_default :: pair_live where
  "pair_live_default = \<lparr> pl_last_ts = None \<rparr>"

record calibrator =
  c_opts :: options
  c_state :: cal_state
  c_live :: "live smap"
  c_pair_live :: "pair_live smap"

definition calibrator_new :: "options \<Rightarrow> calibrator" where
  "calibrator_new opts =
     \<lparr> c_opts = opts, c_state = cal_state_default, c_live = [], c_pair_live = [] \<rparr>"

abbreviation c_devices :: "calibrator \<Rightarrow> device_state smap" where
  "c_devices c \<equiv> st_devices (c_state c)"

abbreviation c_pairs :: "calibrator \<Rightarrow> f64 ew_fit smap" where
  "c_pairs c \<equiv> st_pairs (c_state c)"

section \<open>Anchor bound and pair keys\<close>

definition anchor_error :: "f64 \<Rightarrow> f64 \<Rightarrow> f64 \<Rightarrow> f64" where
  "anchor_error capacity_ah span_hours tau_hours =
     (let window = fmin span_hours tau_hours in
      if capacity_ah \<le> 0 \<or> window \<le> 0 then f64_infinity else capacity_ah / window)"

definition pair_key :: "string \<Rightarrow> string \<Rightarrow> string \<times> bool" where
  "pair_key a b = (if a < b then (a @ ''|'' @ b, False) else (b @ ''|'' @ a, True))"

section \<open>Integration of one frame\<close>

definition elapsed_secs :: "options \<Rightarrow> live \<Rightarrow> sample \<Rightarrow> (f64 \<times> f64) option" where
  "elapsed_secs opts l s =
     (case (lv_last_ts l, lv_last_current l) of
        (Some last_ts, Some last_cur) \<Rightarrow>
          Some (fclamp 0 (o_max_gap_secs opts) (s_now_secs s - last_ts), last_cur)
      | _ \<Rightarrow> None)"

text \<open>The part under \<open>if let Some(q) = s.remaining_ah\<close>.\<close>

definition closure_push :: "(f64 \<Rightarrow> f64) \<Rightarrow> options \<Rightarrow> sample \<Rightarrow> f64 \<Rightarrow> device_state \<Rightarrow> device_state" where
  "closure_push ex opts s hours dev =
     (case s_remaining_ah s of None \<Rightarrow> dev
      | Some q \<Rightarrow>
        let dev = dev\<lparr> ds_capacity_ah :=
              fmax (fmax (ds_capacity_ah dev)
                (case s_capacity_ah s of None \<Rightarrow> 0 | Some c \<Rightarrow> c)) q \<rparr>;
            y = ds_cum_net_ah dev - q - ds_cum_bal_ah dev;
            dev = dev\<lparr> ds_fit := ew_push (ds_x dev) y
              (ew_decay (ex (- hours / o_tau_hours opts)) (ds_fit dev)) \<rparr>
        in if flit 50 * o_tau_hours opts < ds_x dev
           then let d = ds_x dev - o_tau_hours opts in
             dev\<lparr> ds_fit := ew_shift_x d (ds_fit dev), ds_x := ds_x dev - d \<rparr>
           else dev)"

definition integrate_device ::
  "(f64 \<Rightarrow> f64) \<Rightarrow> options \<Rightarrow> live \<Rightarrow> sample \<Rightarrow> device_state \<Rightarrow> device_state" where
  "integrate_device ex opts l s dev =
     (case elapsed_secs opts l s of None \<Rightarrow> dev
      | Some (dt, last_cur) \<Rightarrow>
        if 0 < dt
        then let hours = dt / flit 3600;
                 dev = dev\<lparr> ds_cum_net_ah :=
                   ds_cum_net_ah dev + (last_cur + s_current_a s) / flit 2 * hours \<rparr>;
                 dev = (case (lv_last_balance l, s_balance_a s) of
                     (Some lb, Some b) \<Rightarrow>
                       dev\<lparr> ds_cum_bal_ah :=
                         ds_cum_bal_ah dev + (fmax lb 0 + fmax b 0) / flit 2 * hours \<rparr>
                   | _ \<Rightarrow> dev);
                 dev = dev\<lparr> ds_x := ds_x dev + hours, ds_span_hours := ds_span_hours dev + hours \<rparr>
             in closure_push ex opts s hours dev
        else dev)"

definition remember_sample :: "sample \<Rightarrow> live \<Rightarrow> live" where
  "remember_sample s l =
     l\<lparr> lv_last_ts := Some (s_now_secs s), lv_last_current := Some (s_current_a s),
        lv_last_balance := s_balance_a s,
        lv_last_raw := Some (s_now_secs s, s_current_a s) \<rparr>"

definition integrate :: "(f64 \<Rightarrow> f64) \<Rightarrow> string \<Rightarrow> sample \<Rightarrow> calibrator \<Rightarrow> calibrator" where
  "integrate ex sn s c =
     (let dev = sentry device_default sn (c_devices c);
          l = sentry live_default sn (c_live c)
      in c\<lparr> c_state := (c_state c)\<lparr> st_devices :=
              sput sn (integrate_device ex (c_opts c) l s dev) (c_devices c) \<rparr>,
            c_live := sput sn (remember_sample s l) (c_live c) \<rparr>)"

section \<open>Peer regressions\<close>

text \<open>The devices other than \<open>sn\<close> whose last reading is close enough in time.\<close>

definition recent_peers :: "string \<Rightarrow> sample \<Rightarrow> calibrator \<Rightarrow> (string \<times> f64) list" where
  "recent_peers sn s c =
     List.map_filter (\<lambda>(other, l).
       if other = sn then None
       else case lv_last_raw l of None \<Rightarrow> None
         | Some (ts, cur) \<Rightarrow>
           if \<bar>s_now_secs s - ts\<bar> \<le> o_peer_max_skew_secs (c_opts c) then Some (other, cur) else None)
       (c_live c)"

definition pair_decay :: "(f64 \<Rightarrow> f64) \<Rightarrow> options \<Rightarrow> f64 \<Rightarrow> pair_live \<Rightarrow> f64" where
  "pair_decay ex opts now_secs pl =
     (case pl_last_ts pl of None \<Rightarrow> flit 1
      | Some prev \<Rightarrow> ex (- (fmax (now_secs - prev) 0 / flit 3600) / o_peer_tau_hours opts))"

definition push_pair :: "(f64 \<Rightarrow> f64) \<Rightarrow> string \<Rightarrow> sample \<Rightarrow> string \<times> f64 \<Rightarrow> calibrator \<Rightarrow> calibrator" where
  "push_pair ex sn s = (\<lambda>(other, other_cur) c.
     let (key, flipped) = pair_key sn other;
         (x, y) = (if flipped then (other_cur, s_current_a s) else (s_current_a s, other_cur));
         decay = pair_decay ex (c_opts c) (s_now_secs s)
                   (sentry pair_live_default key (c_pair_live c));
         f = sentry ew_default key (c_pairs c)
     in c\<lparr> c_pair_live := sput key \<lparr> pl_last_ts = Some (s_now_secs s) \<rparr> (c_pair_live c),
           c_state := (c_state c)\<lparr> st_pairs :=
             sput key (ew_push x y (ew_decay decay f)) (c_pairs c) \<rparr> \<rparr>)"

definition update_peers :: "(f64 \<Rightarrow> f64) \<Rightarrow> string \<Rightarrow> sample \<Rightarrow> calibrator \<Rightarrow> calibrator" where
  "update_peers ex sn s c = fold (push_pair ex sn s) (recent_peers sn s c) c"

text \<open>One iteration of the loop of \<open>peer_reports\<close>: \<open>None\<close> stands for its \<open>continue\<close>.\<close>

definition peer_report_of :: "calibrator \<Rightarrow> string \<Rightarrow> f64 \<Rightarrow> string \<Rightarrow> peer_report option" where
  "peer_report_of c sn own other =
     (if other = sn then None
      else let (key, flipped) = pair_key sn other in
        case sget (c_pairs c) key of None \<Rightarrow> None
        | Some pfit \<Rightarrow>
          if ew_weight pfit < o_peer_min_weight (c_opts c) then None
          else case ew_fit_line pfit of None \<Rightarrow> None
          | Some f \<Rightarrow>
            if o_peer_slope_tolerance (c_opts c) < \<bar>fit_slope f - flit 1\<bar>
               \<or> fit_r2 f < o_peer_min_r2 (c_opts c) then None
            else let relative = (if flipped then fit_intercept f else - fit_intercept f) in
              case Option.bind (sget (c_devices c) other) (\<lambda>d. ew_fit_line (ds_fit d)) of
                None \<Rightarrow> None
              | Some pf \<Rightarrow>
                Some \<lparr> p_peer_sn = other, p_relative_offset = relative, p_slope = fit_slope f,
                       p_r2 = fit_r2 f,
                       p_disagreement = \<bar>relative - (own - fit_slope pf)\<bar> \<rparr>)"

definition peer_reports :: "string \<Rightarrow> f64 option \<Rightarrow> calibrator \<Rightarrow> peer_report list" where
  "peer_reports sn own_estimate c =
     (case own_estimate of None \<Rightarrow> []
      | Some own \<Rightarrow> List.map_filter (peer_report_of c sn own) (skeys (c_devices c)))"

text \<open>\<open>Iterator::max_by(f64::total_cmp)\<close>: the last of the greatest elements.\<close>

definition max_total :: "f64 list \<Rightarrow> f64 option" where
  "max_total xs = (case xs of [] \<Rightarrow> None
     | x # xs' \<Rightarrow> Some (fold (\<lambda>y m. if ftotal_le m y then y else m) xs' x))"

section \<open>The applied offset\<close>

text \<open>The first \<open>match\<close> of \<open>recompute\<close>: the gates in the order they are tried.\<close>

definition gate :: "options \<Rightarrow> device_state \<Rightarrow> f64 \<times> hold" where
  "gate opts dev =
     (case ew_fit_line (ds_fit dev) of
        None \<Rightarrow> (ds_applied dev, NoFit)
      | Some f \<Rightarrow>
        if ds_span_hours dev < o_min_span_hours opts
           \<or> o_max_anchor_error_amperes opts
             < anchor_error (ds_capacity_ah dev) (ds_span_hours dev) (o_tau_hours opts)
        then (ds_applied dev, Warmup)
        else if o_max_stderr_amperes opts < fit_stderr f then (ds_applied dev, Noisy)
        else (fclamp (- o_max_offset_amperes opts) (o_max_offset_amperes opts) (fit_slope f),
              HoldNone))"

text \<open>The veto: the worst disagreement over every peer, published or not.\<close>

definition veto :: "options \<Rightarrow> f64 \<Rightarrow> f64 option \<Rightarrow> f64 \<times> hold \<Rightarrow> f64 \<times> hold" where
  "veto opts previous peer_disagreement = (\<lambda>(offset, hold).
     if hold = HoldNone \<and> (case peer_disagreement of None \<Rightarrow> False
          | Some worst \<Rightarrow> o_peer_max_disagreement_amperes opts < worst)
     then (previous, PeerDisagreement) else (offset, hold))"

definition recompute :: "string \<Rightarrow> calibrator \<Rightarrow> calibrator" where
  "recompute sn c =
     (case sget (c_devices c) sn of None \<Rightarrow> c
      | Some dev \<Rightarrow>
        let peers = peer_reports sn (map_option fit_slope (ew_fit_line (ds_fit dev))) c;
            peer_disagreement = max_total (List.map p_disagreement peers);
            published = take (o_peer_max_published (c_opts c)) peers;
            (offset, hold) = veto (c_opts c) (ds_applied dev) peer_disagreement
              (gate (c_opts c) dev);
            l = sentry live_default sn (c_live c)
        in c\<lparr> c_state := (c_state c)\<lparr> st_devices :=
                sput sn (dev\<lparr> ds_applied := offset \<rparr>) (c_devices c) \<rparr>,
              c_live := sput sn (l\<lparr> lv_hold := hold, lv_peers := published,
                lv_peer_disagreement := peer_disagreement \<rparr>) (c_live c) \<rparr>)"

definition observe :: "(f64 \<Rightarrow> f64) \<Rightarrow> string \<Rightarrow> sample \<Rightarrow> calibrator \<Rightarrow> f64 \<times> calibrator" where
  "observe ex sn s c =
     (let c = recompute sn (update_peers ex sn s (integrate ex sn s c))
      in (case sget (c_devices c) sn of None \<Rightarrow> 0 | Some d \<Rightarrow> ds_applied d, c))"

section \<open>Reports, snapshots\<close>

definition cal_report :: "string \<Rightarrow> calibrator \<Rightarrow> report option" where
  "cal_report sn c =
     (case sget (c_devices c) sn of None \<Rightarrow> None
      | Some dev \<Rightarrow>
        let f = ew_fit_line (ds_fit dev); l = sget (c_live c) sn in
        Some \<lparr> r_applied = ds_applied dev, r_estimate = map_option fit_slope f,
               r_stderr = map_option fit_stderr f, r_r2 = map_option fit_r2 f,
               r_span_hours = ds_span_hours dev,
               r_anchor_error =
                 anchor_error (ds_capacity_ah dev) (ds_span_hours dev) (o_tau_hours (c_opts c)),
               r_weight = ew_weight (ds_fit dev),
               r_hold = (case l of None \<Rightarrow> Warmup | Some l \<Rightarrow> lv_hold l),
               r_peers = (case l of None \<Rightarrow> [] | Some l \<Rightarrow> lv_peers l),
               r_peer_disagreement = Option.bind l lv_peer_disagreement \<rparr>)"

definition cal_snapshot :: "calibrator \<Rightarrow> cal_state" where
  "cal_snapshot c = c_state c"

text \<open>\<open>str::split\<close>: the pieces between the separators, one more than there are separators.\<close>

fun split_on :: "char \<Rightarrow> string \<Rightarrow> string list" where
  "split_on d [] = [[]]"
| "split_on d (a # s) =
     (if a = d then [] # split_on d s
      else case split_on d s of [] \<Rightarrow> [[a]] | p # ps \<Rightarrow> (a # p) # ps)"

definition cal_restore :: "cal_state \<Rightarrow> (string \<Rightarrow> bool) \<Rightarrow> calibrator \<Rightarrow> calibrator" where
  "cal_restore st admit c =
     c\<lparr> c_state :=
       \<lparr> st_devices = sfilter admit (st_devices st),
         st_pairs = sfilter (\<lambda>key. list_all admit (split_on (CHR ''|'') key)) (st_pairs st) \<rparr> \<rparr>"

definition cal_devices :: "calibrator \<Rightarrow> string list" where
  "cal_devices c = skeys (c_devices c)"

end
