(* ===== verification/Modbus.thy ===== *)
theory Modbus
  imports Prelude
begin

text \<open>
  \<open>src/modbus.rs\<close> and \<open>src/error.rs\<close>: the CRC-16 of Modbus RTU, the parser of a function-0x03
  response and the start register of a request. \<open>hex::decode\<close> is code of another crate: it is
  the parameter \<open>hexd\<close> of the parsers, with its own error type \<open>'h\<close>; the locale \<open>hex_codec\<close>
  states what the round-trip theorem needs of it.
\<close>

unbundle bit_operations_syntax

section \<open>Errors and constants\<close>

datatype 'h decode_error =
    BadHex 'h
  | TooShort nat
  | BadAddress u8
  | BadFunction u8
  | BadByteCount nat nat
  | CrcMismatch u16 u16
  | UnknownBlock u16

definition BMS_ADDRESS :: u8 where "BMS_ADDRESS = 0xD2"

definition FUNC_READ_HOLDING :: u8 where "FUNC_READ_HOLDING = 0x03"

section \<open>CRC-16\<close>

definition crc_bit :: "u16 \<Rightarrow> u16" where
  "crc_bit crc = (if crc AND 1 \<noteq> 0 then drop_bit 1 crc XOR 0xA001 else drop_bit 1 crc)"

definition crc_byte :: "u16 \<Rightarrow> u8 \<Rightarrow> u16" where
  "crc_byte crc byte = (crc_bit ^^ 8) (crc XOR ucast byte)"

definition crc16 :: "u8 list \<Rightarrow> u16" where
  "crc16 data = foldl crc_byte 0xFFFF data"

text \<open>Evaluation of the shift loop on closed terms.\<close>

lemma funpow_8: "(f ^^ 8) x = f (f (f (f (f (f (f (f x)))))))"
  by (simp add: eval_nat_numeral)

lemmas crc_eval = crc16_def crc_byte_def funpow_8 crc_bit_def

section \<open>Words and bytes\<close>

definition u16_from_be :: "u8 \<Rightarrow> u8 \<Rightarrow> u16" where
  "u16_from_be a b = push_bit 8 (ucast a) OR ucast b"

definition u16_from_le :: "u8 \<Rightarrow> u8 \<Rightarrow> u16" where
  "u16_from_le a b = u16_from_be b a"

definition be_hi :: "u16 \<Rightarrow> u8" where
  "be_hi w = ucast (drop_bit 8 w)"

definition be_lo :: "u16 \<Rightarrow> u8" where
  "be_lo w = ucast w"

definition to_be_bytes :: "u16 \<Rightarrow> u8 list" where
  "to_be_bytes w = [be_hi w, be_lo w]"

definition to_le_bytes :: "u16 \<Rightarrow> u8 list" where
  "to_le_bytes w = [be_lo w, be_hi w]"

text \<open>\<open>chunks_exact(2)\<close>: pairs of bytes, an odd last byte left out.\<close>

fun be_pairs :: "u8 list \<Rightarrow> u16 list" where
  "be_pairs (a # b # bs) = u16_from_be a b # be_pairs bs"
| "be_pairs _ = []"

section \<open>The parsers\<close>

definition parse_response :: "(string \<Rightarrow> 'h + u8 list) \<Rightarrow> string \<Rightarrow> 'h decode_error + u16 list" where
  "parse_response hexd hex_str = (case hexd hex_str of
     Inl e \<Rightarrow> Inl (BadHex e)
   | Inr raw \<Rightarrow>
       if length raw < 5 then Inl (TooShort (length raw))
       else if raw ! 0 \<noteq> BMS_ADDRESS then Inl (BadAddress (raw ! 0))
       else if raw ! 1 \<noteq> FUNC_READ_HOLDING then Inl (BadFunction (raw ! 1))
       else let nbytes = unat (raw ! 2) in
         if length raw \<noteq> 3 + nbytes + 2 then Inl (BadByteCount nbytes (length raw - 5))
         else let crc_pos = 3 + nbytes;
                  expected = u16_from_le (raw ! crc_pos) (raw ! (crc_pos + 1));
                  got = crc16 (take crc_pos raw) in
           if expected \<noteq> got then Inl (CrcMismatch expected got)
           else Inr (be_pairs (drop 3 (take crc_pos raw))))"

definition request_start_register :: "(string \<Rightarrow> 'h + u8 list) \<Rightarrow> string \<Rightarrow> 'h decode_error + u16" where
  "request_start_register hexd command_hex = (case hexd command_hex of
     Inl e \<Rightarrow> Inl (BadHex e)
   | Inr raw \<Rightarrow>
       if length raw < 6 then Inl (TooShort (length raw))
       else Inr (u16_from_be (raw ! 2) (raw ! 3)))"

text \<open>The device's side of the framing, as the repository's tests build it.\<close>

definition build_body :: "u16 list \<Rightarrow> u8 list" where
  "build_body regs = [0xD2, 0x03, word_of_nat (length regs * 2)] @ concat (map to_be_bytes regs)"

definition build_frame :: "u16 list \<Rightarrow> u8 list" where
  "build_frame regs = build_body regs @ to_le_bytes (crc16 (build_body regs))"

section \<open>The hex codec\<close>

locale hex_codec =
  fixes hexd :: "string \<Rightarrow> 'h + u8 list" and hexe :: "u8 list \<Rightarrow> string"
  assumes decode_encode: "hexd (hexe bs) = Inr bs"

text \<open>A codec with the documented behaviour of the \<open>hex\<close> crate, for concrete inputs: two
  digits per byte, either case on input, lower case on output.\<close>

datatype hex_error = OddLength | InvalidHexCharacter char

definition hex_digit :: "char \<Rightarrow> nat option" where
  "hex_digit c = (let n = of_char c :: nat in
     if 48 \<le> n \<and> n \<le> 57 then Some (n - 48)
     else if 97 \<le> n \<and> n \<le> 102 then Some (n - 87)
     else if 65 \<le> n \<and> n \<le> 70 then Some (n - 55)
     else None)"

definition digit_hex :: "nat \<Rightarrow> char" where
  "digit_hex n = (if n < 10 then char_of (n + 48) else char_of (n + 87))"

fun hex_decode_ref :: "string \<Rightarrow> hex_error + u8 list" where
  "hex_decode_ref [] = Inr []"
| "hex_decode_ref [c] = Inl OddLength"
| "hex_decode_ref (c # d # cs) = (case hex_digit c of
     None \<Rightarrow> Inl (InvalidHexCharacter c)
   | Some h \<Rightarrow> (case hex_digit d of
       None \<Rightarrow> Inl (InvalidHexCharacter d)
     | Some l \<Rightarrow> (case hex_decode_ref cs of
         Inl e \<Rightarrow> Inl e | Inr bs \<Rightarrow> Inr (word_of_nat (16 * h + l) # bs))))"

definition hex_encode_ref :: "u8 list \<Rightarrow> string" where
  "hex_encode_ref bs = concat (map (\<lambda>b. [digit_hex (unat b div 16), digit_hex (unat b mod 16)]) bs)"

lemma hex_digit_inverse: "n < 16 \<Longrightarrow> hex_digit (digit_hex n) = Some n"
  by (auto simp: hex_digit_def digit_hex_def Let_def of_char_of)

lemma unat_u8_less: "unat (b :: u8) < 256"
proof -
  have "unat b < 2 ^ LENGTH(8)" by (rule unsigned_less)
  then show ?thesis by simp
qed

lemma hex_ref_inverse: "hex_decode_ref (hex_encode_ref bs) = Inr bs"
proof (induction bs)
  case Nil
  then show ?case by (simp add: hex_encode_ref_def)
next
  case (Cons b bs)
  have "unat b div 16 < 16" using unat_u8_less [of b] by simp
  moreover have "word_of_nat (16 * (unat b div 16) + unat b mod 16) = b" by simp
  ultimately show ?case using Cons
    by (simp add: hex_encode_ref_def hex_digit_inverse del: mult_div_mod_eq)
qed

interpretation hexref: hex_codec hex_decode_ref hex_encode_ref
  by unfold_locales (rule hex_ref_inverse)

section \<open>Byte order\<close>

lemma bit_u16_from_be:
  "bit (u16_from_be a b) n \<longleftrightarrow> (if n < 8 then bit b n else n < 16 \<and> bit a (n - 8))"
proof -
  have "bit a (n - 8) \<Longrightarrow> n - 8 < 8" "bit b n \<Longrightarrow> n < 8"
    using bit_imp_le_length [of a "n - 8"] bit_imp_le_length [of b n] by simp_all
  then show ?thesis
    by (auto simp: u16_from_be_def bit_simps)
qed

lemma be_hi_from_be [simp]: "be_hi (u16_from_be a b) = a"
  by (rule bit_word_eqI) (auto simp: be_hi_def bit_simps bit_u16_from_be)

lemma be_lo_from_be [simp]: "be_lo (u16_from_be a b) = b"
  by (rule bit_word_eqI) (auto simp: be_lo_def bit_simps bit_u16_from_be)

lemma from_be_to_be [simp]: "u16_from_be (be_hi w) (be_lo w) = w"
  by (rule bit_word_eqI) (auto simp: be_hi_def be_lo_def bit_simps bit_u16_from_be)

lemma be_pairs_to_be: "be_pairs (concat (map to_be_bytes regs)) = regs"
  by (induction regs) (simp_all add: to_be_bytes_def)

lemma length_be_pairs: "length (be_pairs bs) = length bs div 2"
  by (induction bs rule: be_pairs.induct) simp_all

lemma length_concat_be: "length (concat (map to_be_bytes regs)) = 2 * length regs"
  by (induction regs) (simp_all add: to_be_bytes_def)

section \<open>The CRC detects every burst of up to 16 bits\<close>

text \<open>
  One shift step is linear over XOR and injective (the feedback polynomial has its top bit set,
  so bit 15 of the result tells which branch ran). A block of at most 16 bits is XORed into the
  state before the shift steps that consume it, so the state after it determines the block; the
  bits that follow act injectively on the state.
\<close>

lemma crc_bit_bit:
  "n < 16 \<Longrightarrow> bit (crc_bit c) n \<longleftrightarrow> (bit c (Suc n) \<noteq> (odd c \<and> bit (0xA001 :: u16) n))"
proof -
  have "c AND 1 \<noteq> 0 \<longleftrightarrow> odd c" by (simp add: and_one_eq odd_iff_mod_2_eq_one)
  then show "n < 16 \<Longrightarrow> ?thesis" by (auto simp: crc_bit_def bit_simps)
qed

lemma odd_xor_u16: "odd (x XOR y :: u16) \<longleftrightarrow> odd x \<noteq> odd y"
  by (simp flip: bit_0 add: bit_xor_iff)

lemma crc_bit_xor: "crc_bit (x XOR y) = crc_bit x XOR crc_bit y"
  by (rule bit_word_eqI) (auto simp: crc_bit_bit bit_xor_iff odd_xor_u16)

lemma xor_left_cancel [simp]: "c XOR x = c XOR y \<longleftrightarrow> x = (y :: u16)"
proof
  assume "c XOR x = c XOR y"
  then have "c XOR (c XOR x) = c XOR (c XOR y)" by simp
  then show "x = y" by (simp flip: xor.assoc)
qed simp

lemma xor_right_cancel [simp]: "x XOR c = y XOR c \<longleftrightarrow> x = (y :: u16)"
  by (simp only: xor.commute [of _ c] xor_left_cancel)

lemma xor_eq_0 [simp]: "x XOR y = 0 \<longleftrightarrow> y = (x :: u16)"
  using xor_left_cancel [of x y x] by simp

lemma crc_bit_0 [simp]: "crc_bit 0 = 0"
  by (simp add: crc_bit_def)

lemma crc_bit_inj: "crc_bit x = crc_bit y \<Longrightarrow> x = y"
proof -
  assume eq: "crc_bit x = crc_bit y"
  have top: "bit (crc_bit c) 15 \<longleftrightarrow> odd c" for c
  proof -
    have "\<not> bit c 16" using bit_imp_le_length [of c 16] by auto
    then show ?thesis by (simp add: crc_bit_bit)
  qed
  with eq have odd: "odd x = odd y" by metis
  have "bit x (Suc n) = bit y (Suc n)" if "n < 16" for n
    using crc_bit_bit [OF that, of x] crc_bit_bit [OF that, of y] eq odd by auto
  then have "bit x n = bit y n" if "n < 16" for n
    using that odd by (cases n) (simp_all add: bit_0)
  then show "x = y" by (intro bit_word_eqI) simp
qed

lemma crc_bits_xor: "(crc_bit ^^ n) (x XOR y) = (crc_bit ^^ n) x XOR (crc_bit ^^ n) y"
  by (induction n) (simp_all add: crc_bit_xor)

lemma crc_bits_inj: "(crc_bit ^^ n) x = (crc_bit ^^ n) y \<Longrightarrow> x = y"
  by (induction n) (auto dest: crc_bit_inj)

lemma crc_bits_0 [simp]: "(crc_bit ^^ n) 0 = 0"
  by (induction n) simp_all

lemma crc_bits_shift:
  assumes "k + n < 16"
  shows "(crc_bit ^^ n) (push_bit (n + k) (of_bool b)) = push_bit k (of_bool b :: u16)"
  using assms
proof (induction n arbitrary: k)
  case (Suc n)
  have even: "crc_bit (push_bit (Suc k) (of_bool b)) = push_bit k (of_bool b :: u16)"
    using Suc.prems by (intro bit_word_eqI) (auto simp: crc_bit_bit bit_simps)
  have "(crc_bit ^^ n) (push_bit (n + Suc k) (of_bool b)) = push_bit (Suc k) (of_bool b :: u16)"
    using Suc.prems by (intro Suc.IH) simp
  then show ?case using even by simp
qed simp

text \<open>The same CRC one bit at a time, in the order of the wire: each byte from its lowest bit. A
  block of up to 16 bits acts as one word XORed into the state before as many shift steps.\<close>

definition crc_serial :: "u16 \<Rightarrow> bool \<Rightarrow> u16" where
  "crc_serial c b = crc_bit (c XOR of_bool b)"

abbreviation word_of_bits :: "bool list \<Rightarrow> u16" where
  "word_of_bits \<equiv> horner_sum of_bool 2"

lemma word_of_bits_snoc:
  "length m < 16 \<Longrightarrow> word_of_bits (m @ [b]) = word_of_bits m XOR push_bit (length m) (of_bool b)"
  by (rule bit_word_eqI) (auto simp: bit_horner_sum_bit_word_iff bit_simps nth_append less_Suc_eq)

lemma crc_serial_block:
  "length m \<le> 16 \<Longrightarrow> foldl crc_serial c m = (crc_bit ^^ length m) (c XOR word_of_bits m)"
proof (induction m rule: rev_induct)
  case (snoc b m)
  let ?n = "length m"
  have "foldl crc_serial c (m @ [b]) = crc_bit ((crc_bit ^^ ?n) (c XOR word_of_bits m) XOR of_bool b)"
    using snoc.IH snoc.prems by (simp add: crc_serial_def [of _ b])
  also have "of_bool b = (crc_bit ^^ ?n) (push_bit ?n (of_bool b))"
    using crc_bits_shift [of 0 ?n b] snoc.prems by simp
  finally show ?case
    using snoc.prems by (simp add: crc_bits_xor [symmetric] word_of_bits_snoc xor.assoc)
qed simp

definition wire_bits :: "u8 list \<Rightarrow> bool list" where
  "wire_bits bs = concat (map (\<lambda>b. map (bit b) [0..<8]) bs)"

lemma word_of_byte: "word_of_bits (map (bit b) [0..<8]) = ucast (b :: u8)"
proof (rule bit_word_eqI)
  fix n
  have "bit b n \<Longrightarrow> n < 8" using bit_imp_le_length [of b n] by simp
  then show "bit (word_of_bits (map (bit b) [0..<8])) n = bit (ucast b :: u16) n"
    by (auto simp: bit_horner_sum_bit_word_iff bit_simps)
qed

lemma crc_byte_serial: "crc_byte c b = foldl crc_serial c (map (bit b) [0..<8])"
  using crc_serial_block [of "map (bit b) [0..<8]" c] by (simp add: word_of_byte crc_byte_def del: upt_rec_numeral upt_conv_Cons)

lemma crc_bytes_serial: "foldl crc_byte c bs = foldl crc_serial c (wire_bits bs)"
  by (induction bs arbitrary: c) (simp_all add: wire_bits_def crc_byte_serial)

lemma crc_serial_state_inj: "foldl crc_serial c m = foldl crc_serial c' m \<Longrightarrow> c = c'"
  by (induction m arbitrary: c c') (force simp: crc_serial_def dest: crc_bit_inj)+

lemma word_of_bits_inj:
  "word_of_bits m = word_of_bits m' \<Longrightarrow> length m = length m' \<Longrightarrow> length m \<le> 16 \<Longrightarrow> m = m'"
proof (rule nth_equalityI)
  fix i
  assume eq: "word_of_bits m = word_of_bits m'" and "length m = length m'" "length m \<le> 16" "i < length m"
  then show "m ! i = m' ! i"
    using bit_horner_sum_bit_word_iff [of m i, where 'a = 16]
      bit_horner_sum_bit_word_iff [of m' i, where 'a = 16] by simp
qed

lemma crc_serial_burst:
  assumes "foldl crc_serial c (ps @ m @ qs) = foldl crc_serial c (ps @ m' @ qs)"
    and "length m = length m'" and "length m \<le> 16"
  shows "m = m'"
proof -
  let ?d = "foldl crc_serial c ps"
  have "foldl crc_serial ?d m = foldl crc_serial ?d m'"
    using assms(1) by (auto dest: crc_serial_state_inj)
  then have "word_of_bits m = word_of_bits m'"
    using assms(2,3) by (auto simp: crc_serial_block dest: crc_bits_inj)
  then show ?thesis using assms(2,3) by (rule word_of_bits_inj)
qed
lemma crc_two_bytes: "crc_byte (crc_byte c a) b = (crc_bit ^^ 16) (c XOR u16_from_le a b)"
proof -
  let ?m = "map (bit a) [0..<8] @ map (bit b) [0..<8]"
  have "word_of_bits ?m = u16_from_le a b"
    by (rule bit_word_eqI)
      (auto simp: bit_horner_sum_bit_word_iff u16_from_le_def bit_u16_from_be nth_append)
  moreover have "foldl crc_serial c ?m = crc_byte (crc_byte c a) b"
    by (simp only: crc_byte_serial foldl_append)
  ultimately show ?thesis
    using crc_serial_block [of ?m c] by (simp only: length_append length_map length_upt) simp
qed

text \<open>A frame carries its own CRC exactly when the CRC of the whole frame is zero.\<close>

lemma crc16_snoc2: "crc16 (body @ [a, b]) = (crc_bit ^^ 16) (crc16 body XOR u16_from_le a b)"
  by (simp add: crc16_def crc_two_bytes)

lemma crc_residue: "crc16 (body @ [a, b]) = 0 \<longleftrightarrow> u16_from_le a b = crc16 body"
proof
  assume "crc16 (body @ [a, b]) = 0"
  then have "(crc_bit ^^ 16) (crc16 body XOR u16_from_le a b) = (crc_bit ^^ 16) 0"
    by (simp add: crc16_snoc2)
  then have "crc16 body XOR u16_from_le a b = 0" by (rule crc_bits_inj)
  then show "u16_from_le a b = crc16 body" by simp
qed (simp add: crc16_snoc2)

section \<open>What the response parser accepts\<close>

text \<open>The layout of an accepted frame, as the parser's checks leave it.\<close>

definition response_adu :: "u8 list \<Rightarrow> u8 \<Rightarrow> u8 \<Rightarrow> u8 list" where
  "response_adu payload lo hi =
     [BMS_ADDRESS, FUNC_READ_HOLDING, word_of_nat (length payload)] @ payload @ [lo, hi]"

lemma list_split_frame:
  assumes "5 \<le> length raw" and "length raw = n + 5"
  shows "raw = [raw ! 0, raw ! 1, raw ! 2] @ drop 3 (take (3 + n) raw) @ [raw ! (3 + n), raw ! (4 + n)]"
proof -
  have "raw = take 3 raw @ drop 3 (take (3 + n) raw) @ drop (3 + n) raw"
    by (metis append.assoc append_take_drop_id le_add1 min.absorb1 take_take)
  moreover have "take 3 raw = [raw ! 0, raw ! 1, raw ! 2]"
    using assms by (auto simp: numeral_3_eq_3 numeral_2_eq_2 take_Suc_conv_app_nth)
  moreover have "drop (3 + n) raw = [raw ! (3 + n), raw ! (4 + n)]"
    using assms by (simp flip: Cons_nth_drop_Suc)
  ultimately show ?thesis by simp
qed

lemma parse_response_accepts_iff_core:
  "parse_response hexd s = Inr regs \<longleftrightarrow>
   (\<exists>payload lo hi. length payload < 256 \<and> hexd s = Inr (response_adu payload lo hi) \<and>
      u16_from_le lo hi = crc16 (take (3 + length payload) (response_adu payload lo hi)) \<and>
      regs = be_pairs payload)" (is "?lhs \<longleftrightarrow> ?rhs")
proof
  assume ?lhs
  then obtain raw where raw: "hexd s = Inr raw" "5 \<le> length raw" "raw ! 0 = BMS_ADDRESS"
      "raw ! 1 = FUNC_READ_HOLDING" "length raw = unat (raw ! 2) + 5"
      "u16_from_le (raw ! (3 + unat (raw ! 2))) (raw ! (4 + unat (raw ! 2))) =
         crc16 (take (3 + unat (raw ! 2)) raw)"
      "regs = be_pairs (drop 3 (take (3 + unat (raw ! 2)) raw))"
    by (auto simp: parse_response_def Let_def not_less split: sum.splits if_splits)
  define payload where "payload = drop 3 (take (3 + unat (raw ! 2)) raw)"
  have len: "length payload = unat (raw ! 2)" using raw(5) by (simp add: payload_def)
  have "raw = response_adu payload (raw ! (3 + unat (raw ! 2))) (raw ! (4 + unat (raw ! 2)))"
    using list_split_frame [OF raw(2,5)] raw(3,4) len
    by (simp add: response_adu_def payload_def [symmetric])
  then show ?rhs using raw len unat_u8_less [of "raw ! 2"] payload_def by metis
next
  assume ?rhs
  then obtain payload lo hi where p: "length payload < 256" "hexd s = Inr (response_adu payload lo hi)"
      "u16_from_le lo hi = crc16 (take (3 + length payload) (response_adu payload lo hi))"
      "regs = be_pairs payload" by blast
  have n: "unat (word_of_nat (length payload) :: u8) = length payload"
    using p(1) by (simp add: unat_of_nat)
  have "take (3 + length payload) (response_adu payload lo hi) =
      [BMS_ADDRESS, FUNC_READ_HOLDING, word_of_nat (length payload)] @ payload"
    by (simp add: response_adu_def numeral_3_eq_3)
  then show ?lhs using p n
    by (simp add: parse_response_def response_adu_def Let_def numeral_3_eq_3 nth_append numeral_2_eq_2)
qed

text \<open>C24: the response parser accepts a string exactly when its bytes are address 0xD2, function
  0x03, a byte count, that many payload bytes and the little-endian CRC-16 of everything before
  it; the result is then the payload read as big-endian registers.\<close>

theorem parse_response_accepts_iff:
  "parse_response hexd s = Inr regs \<longleftrightarrow>
   (\<exists>payload lo hi. length payload < 256 \<and> hexd s = Inr (response_adu payload lo hi) \<and>
      u16_from_le lo hi = crc16 (take (3 + length payload) (response_adu payload lo hi)) \<and>
      regs = be_pairs payload)"
  by (rule parse_response_accepts_iff_core)

lemma accepted_residue:
  "parse_response hexd s = Inr regs \<Longrightarrow> hexd s = Inr raw \<Longrightarrow> crc16 raw = 0"
proof -
  assume "parse_response hexd s = Inr regs" and raw: "hexd s = Inr raw"
  then obtain payload lo hi where p: "raw = response_adu payload lo hi"
      "u16_from_le lo hi = crc16 (take (3 + length payload) (response_adu payload lo hi))"
    unfolding parse_response_accepts_iff_core by auto
  have "response_adu payload lo hi =
      take (3 + length payload) (response_adu payload lo hi) @ [lo, hi]"
    by (simp add: response_adu_def numeral_3_eq_3)
  then show ?thesis using p crc_residue by metis
qed

text \<open>C25: When the parser accepts a frame, it rejects every frame that differs from it only
  within 16 consecutive bits of the transmission (bytes in order, each from its lowest bit),
  wherever the burst begins, at any bit of the header, the payload or the CRC itself, and whatever
  bits in it are wrong.\<close>

theorem burst_rejected:
  assumes "parse_response hexd s = Inr regs" and "hexd s = Inr raw" and "hexd s' = Inr raw'"
    and "wire_bits raw = ps @ m @ qs" and "wire_bits raw' = ps @ m' @ qs"
    and "length m' = length m" and "length m \<le> 16" and "m' \<noteq> m"
  shows "\<exists>e. parse_response hexd s' = Inl e"
proof (cases "parse_response hexd s'")
  case (Inr regs')
  have "crc16 raw = 0" "crc16 raw' = 0"
    using accepted_residue [OF assms(1,2)] accepted_residue [OF Inr assms(3)] .
  then have "foldl crc_serial 0xFFFF (ps @ m @ qs) = foldl crc_serial 0xFFFF (ps @ m' @ qs)"
    by (simp only: crc16_def crc_bytes_serial assms(4,5))
  then have "m = m'" using assms(6,7) by (intro crc_serial_burst) simp_all
  with assms(8) show ?thesis by simp
qed simp

text \<open>A burst of 16 bits over three bytes: two bits of the byte count, the payload's first byte
  and six bits of its second.\<close>

lemma burst_rejected_witness:
  "parse_response hex_decode_ref ''d203020001fc56'' = Inr [1] \<and>
   (\<exists>e. parse_response hex_decode_ref ''d20342803efc56'' = Inl e)"
proof -
  let ?raw = "[0xD2, 3, 2, 0, 1, 0xFC, 0x56] :: u8 list"
    and ?raw' = "[0xD2, 3, 0x42, 0x80, 0x3E, 0xFC, 0x56] :: u8 list"
  have s: "hex_decode_ref ''d203020001fc56'' = Inr ?raw"
    and s': "hex_decode_ref ''d20342803efc56'' = Inr ?raw'"
    by code_simp+
  have "crc16 [0xD2, 3, 2, 0, 1] = 0x56FC" by (simp add: crc_eval)
  then have ok: "parse_response hex_decode_ref ''d203020001fc56'' = Inr [1]"
    using s by (simp add: parse_response_def BMS_ADDRESS_def FUNC_READ_HOLDING_def
        u16_from_le_def u16_from_be_def)
  let ?m = "take 16 (drop 22 (wire_bits ?raw))" and ?m' = "take 16 (drop 22 (wire_bits ?raw'))"
  have bits: "wire_bits ?raw = take 22 (wire_bits ?raw) @ ?m @ drop 38 (wire_bits ?raw)"
      "wire_bits ?raw' = take 22 (wire_bits ?raw) @ ?m' @ drop 38 (wire_bits ?raw)"
      "length ?m' = length ?m" "length ?m \<le> 16" "?m' \<noteq> ?m"
    by code_simp+
  have "\<exists>e. parse_response hex_decode_ref ''d20342803efc56'' = Inl e"
    by (rule burst_rejected [OF ok s s' bits])
  with ok show ?thesis by blast
qed

lemma parse_build_frame:
  assumes "hex_codec hexd hexe" and "length regs \<le> 127"
  shows "parse_response hexd (hexe (build_frame regs)) = Inr regs"
proof -
  let ?p = "concat (map to_be_bytes regs)" and ?c = "crc16 (build_body regs)"
  have len: "length ?p = 2 * length regs" by (rule length_concat_be)
  have frame: "build_frame regs = response_adu ?p (be_lo ?c) (be_hi ?c)"
    by (simp add: build_frame_def build_body_def response_adu_def BMS_ADDRESS_def
        FUNC_READ_HOLDING_def to_le_bytes_def len mult.commute)
  have body: "take (3 + length ?p) (response_adu ?p lo hi) = build_body regs" for lo hi
    by (simp add: response_adu_def build_body_def BMS_ADDRESS_def FUNC_READ_HOLDING_def
        len mult.commute numeral_3_eq_3)
  have "length ?p < 256" using assms(2) len by simp
  moreover have "hexd (hexe (build_frame regs)) = Inr (response_adu ?p (be_lo ?c) (be_hi ?c))"
    unfolding frame by (rule hex_codec.decode_encode [OF assms(1)])
  moreover have "u16_from_le (be_lo ?c) (be_hi ?c) =
      crc16 (take (3 + length ?p) (response_adu ?p (be_lo ?c) (be_hi ?c)))"
    by (simp add: u16_from_le_def body)
  ultimately show ?thesis
    unfolding parse_response_accepts_iff_core
    by (intro exI conjI) (assumption | rule be_pairs_to_be [symmetric])+
qed

text \<open>C26: round trip. The frame a device builds from at most 127 registers (the byte count must
  fit one byte) parses back to exactly those registers, whatever hex codec carries it.\<close>

theorem parse_response_round_trip:
  assumes "hex_codec hexd hexe" and "length regs \<le> 127"
  shows "parse_response hexd (hexe (build_frame regs)) = Inr regs"
  using assms by (rule parse_build_frame)

lemma parse_response_round_trip_witness:
  "parse_response hex_decode_ref (hex_encode_ref (build_frame [0x010D, 0x7594])) =
   Inr [0x010D, 0x7594]"
  by (rule parse_response_round_trip [OF hexref.hex_codec_axioms]) simp

text \<open>The start register of a request is read big-endian from bytes 2 and 3, for every
  request of at least six bytes, and a shorter one is an error, never an out-of-range read.\<close>

lemma request_start_register_iff:
  "request_start_register hexd s = Inr start \<longleftrightarrow>
   (\<exists>addr func qh ql rest. hexd s = Inr ([addr, func, be_hi start, be_lo start, qh, ql] @ rest))"
proof
  assume "request_start_register hexd s = Inr start"
  then obtain raw where raw: "hexd s = Inr raw" "6 \<le> length raw"
      "start = u16_from_be (raw ! 2) (raw ! 3)"
    by (auto simp: request_start_register_def not_less split: sum.splits if_splits)
  obtain a b c d e f rest where "raw = [a, b, c, d, e, f] @ rest"
    using raw(2) by (auto simp: Suc_le_length_iff numeral_eq_Suc)
  then show "\<exists>addr func qh ql rest.
      hexd s = Inr ([addr, func, be_hi start, be_lo start, qh, ql] @ rest)"
    using raw by (auto simp: numeral_2_eq_2 numeral_3_eq_3)
next
  assume "\<exists>addr func qh ql rest.
      hexd s = Inr ([addr, func, be_hi start, be_lo start, qh, ql] @ rest)"
  then show "request_start_register hexd s = Inr start"
    by (auto simp: request_start_register_def numeral_2_eq_2 numeral_3_eq_3)
qed

end
