(* ===== verification/Decode.thy ===== *)
theory Decode
  imports F64 Modbus
begin

text \<open>
  \<open>src/decode.rs\<close>: the register maps, the dispatch of a register block, the encodings of the
  two blocks and the plausibility gate. \<open>from_utf8_lossy\<close>, \<open>char::is_control\<close> and
  \<open>char::is_whitespace\<close> are the standard library's, over code points; a decoded string is
  kept as its UTF-8 bytes.
\<close>

section \<open>Limits and register maps\<close>

definition MAX_CELLS :: u16 where "MAX_CELLS = 32"
definition MAX_TEMPS :: u16 where "MAX_TEMPS = 8"
definition CFG_BASE :: nat where "CFG_BASE = 0x80"

definition REG_CELL_BASE :: nat where "REG_CELL_BASE = 0x00"
definition REG_TEMP_BASE :: nat where "REG_TEMP_BASE = 0x20"
definition REG_PACK_VOLTAGE :: nat where "REG_PACK_VOLTAGE = 0x28"
definition REG_CURRENT :: nat where "REG_CURRENT = 0x29"
definition REG_SOC :: nat where "REG_SOC = 0x2A"
definition REG_CELL_MAX_V :: nat where "REG_CELL_MAX_V = 0x2B"
definition REG_CELL_MIN_V :: nat where "REG_CELL_MIN_V = 0x2C"
definition REG_TEMP_MAX :: nat where "REG_TEMP_MAX = 0x2D"
definition REG_TEMP_MIN :: nat where "REG_TEMP_MIN = 0x2E"
definition REG_REMAINING_CAPACITY :: nat where "REG_REMAINING_CAPACITY = 0x30"
definition REG_CELL_COUNT :: nat where "REG_CELL_COUNT = 0x31"
definition REG_TEMP_COUNT :: nat where "REG_TEMP_COUNT = 0x32"
definition REG_CYCLES :: nat where "REG_CYCLES = 0x33"
definition REG_BALANCER_ACTIVE :: nat where "REG_BALANCER_ACTIVE = 0x34"
definition REG_CHARGE_MOS :: nat where "REG_CHARGE_MOS = 0x35"
definition REG_DISCHARGE_MOS :: nat where "REG_DISCHARGE_MOS = 0x36"
definition REG_CELL_AVG_V :: nat where "REG_CELL_AVG_V = 0x37"
definition REG_CELL_DELTA_V :: nat where "REG_CELL_DELTA_V = 0x38"
definition REG_ALARM_BITS :: nat where "REG_ALARM_BITS = 0x3B"
definition REG_BALANCE_CURRENT_RT :: nat where "REG_BALANCE_CURRENT_RT = 0x40"
definition REG_BALANCING_CELLS :: nat where "REG_BALANCING_CELLS = 0x41"
definition REG_MOS_TEMP :: nat where "REG_MOS_TEMP = 0x42"
definition REG_SERIAL_START :: nat where "REG_SERIAL_START = 0x57"
definition REG_SERIAL_END :: nat where "REG_SERIAL_END = 0x5D"

definition REG_RATED_CAPACITY :: nat where "REG_RATED_CAPACITY = 0x80"
definition REG_CELL_REFERENCE :: nat where "REG_CELL_REFERENCE = 0x81"
definition REG_CELL_HIGH_WARN :: nat where "REG_CELL_HIGH_WARN = 0x8B"
definition REG_CELL_HIGH_PROT :: nat where "REG_CELL_HIGH_PROT = 0x8C"
definition REG_CELL_LOW_WARN :: nat where "REG_CELL_LOW_WARN = 0x8D"
definition REG_CELL_LOW_PROT :: nat where "REG_CELL_LOW_PROT = 0x8E"
definition REG_PACK_HIGH_WARN :: nat where "REG_PACK_HIGH_WARN = 0x8F"
definition REG_PACK_HIGH_PROT :: nat where "REG_PACK_HIGH_PROT = 0x90"
definition REG_PACK_LOW_WARN :: nat where "REG_PACK_LOW_WARN = 0x91"
definition REG_PACK_LOW_PROT :: nat where "REG_PACK_LOW_PROT = 0x92"
definition REG_DISCHARGE_OC_WARN :: nat where "REG_DISCHARGE_OC_WARN = 0x93"
definition REG_DISCHARGE_OC_PROT :: nat where "REG_DISCHARGE_OC_PROT = 0x94"
definition REG_CHARGE_OC_WARN :: nat where "REG_CHARGE_OC_WARN = 0x95"
definition REG_CHARGE_OC_PROT :: nat where "REG_CHARGE_OC_PROT = 0x96"
definition REG_CHARGE_TEMP_HIGH_WARN :: nat where "REG_CHARGE_TEMP_HIGH_WARN = 0x97"
definition REG_CHARGE_TEMP_HIGH_PROT :: nat where "REG_CHARGE_TEMP_HIGH_PROT = 0x98"
definition REG_CHARGE_TEMP_LOW_WARN :: nat where "REG_CHARGE_TEMP_LOW_WARN = 0x99"
definition REG_CHARGE_TEMP_LOW_PROT :: nat where "REG_CHARGE_TEMP_LOW_PROT = 0x9A"
definition REG_DISCHARGE_TEMP_HIGH_WARN :: nat where "REG_DISCHARGE_TEMP_HIGH_WARN = 0x9B"
definition REG_DISCHARGE_TEMP_HIGH_PROT :: nat where "REG_DISCHARGE_TEMP_HIGH_PROT = 0x9C"
definition REG_DIFF_TEMP :: nat where "REG_DIFF_TEMP = 0x9D"
definition REG_BALANCE_CURRENT_CFG :: nat where "REG_BALANCE_CURRENT_CFG = 0xA2"
definition REG_FAN_ON_TEMP :: nat where "REG_FAN_ON_TEMP = 0xA8"
definition REG_SW_VERSION_START :: nat where "REG_SW_VERSION_START = 0xA9"
definition REG_SW_VERSION_END :: nat where "REG_SW_VERSION_END = 0xAF"
definition REG_HW_VERSION_START :: nat where "REG_HW_VERSION_START = 0xB1"
definition REG_HW_VERSION_END :: nat where "REG_HW_VERSION_END = 0xB7"
definition REG_MACHINE_CODE_START :: nat where "REG_MACHINE_CODE_START = 0xB9"
definition REG_MACHINE_CODE_END :: nat where "REG_MACHINE_CODE_END = 0xC0"
definition REG_BALANCE_ENABLE :: nat where "REG_BALANCE_ENABLE = 0xCF"

lemmas realtime_registers =
  REG_CELL_BASE_def REG_TEMP_BASE_def REG_PACK_VOLTAGE_def REG_CURRENT_def REG_SOC_def
  REG_CELL_MAX_V_def REG_CELL_MIN_V_def REG_TEMP_MAX_def REG_TEMP_MIN_def
  REG_REMAINING_CAPACITY_def REG_CELL_COUNT_def REG_TEMP_COUNT_def REG_CYCLES_def
  REG_BALANCER_ACTIVE_def REG_CHARGE_MOS_def REG_DISCHARGE_MOS_def REG_CELL_AVG_V_def
  REG_CELL_DELTA_V_def REG_ALARM_BITS_def REG_BALANCE_CURRENT_RT_def REG_BALANCING_CELLS_def
  REG_MOS_TEMP_def REG_SERIAL_START_def REG_SERIAL_END_def

lemmas config_registers =
  CFG_BASE_def REG_RATED_CAPACITY_def REG_CELL_REFERENCE_def REG_CELL_HIGH_WARN_def
  REG_CELL_HIGH_PROT_def REG_CELL_LOW_WARN_def REG_CELL_LOW_PROT_def REG_PACK_HIGH_WARN_def
  REG_PACK_HIGH_PROT_def REG_PACK_LOW_WARN_def REG_PACK_LOW_PROT_def
  REG_DISCHARGE_OC_WARN_def REG_DISCHARGE_OC_PROT_def REG_CHARGE_OC_WARN_def
  REG_CHARGE_OC_PROT_def REG_CHARGE_TEMP_HIGH_WARN_def REG_CHARGE_TEMP_HIGH_PROT_def
  REG_CHARGE_TEMP_LOW_WARN_def REG_CHARGE_TEMP_LOW_PROT_def REG_DISCHARGE_TEMP_HIGH_WARN_def
  REG_DISCHARGE_TEMP_HIGH_PROT_def REG_DIFF_TEMP_def REG_BALANCE_CURRENT_CFG_def
  REG_FAN_ON_TEMP_def REG_SW_VERSION_START_def REG_SW_VERSION_END_def REG_HW_VERSION_START_def
  REG_HW_VERSION_END_def REG_MACHINE_CODE_START_def REG_MACHINE_CODE_END_def
  REG_BALANCE_ENABLE_def

section \<open>Block dispatch\<close>

datatype block = Realtime | Config

definition from_start_register :: "u16 \<Rightarrow> 'h decode_error + block" where
  "from_start_register start =
     (if start = 0x0000 then Inr Realtime
      else if start = 0x0080 then Inr Config
      else Inl (UnknownBlock start))"

section \<open>Encodings\<close>

definition amps :: "u16 \<Rightarrow> f64" where
  "amps raw = f64_of_int (uint raw - 30000) * flit (1 / 10)"

definition celsius :: "u16 \<Rightarrow> f64" where
  "celsius raw = f64_of_int (uint raw - 40)"

definition celsius_delta :: "u16 \<Rightarrow> f64" where
  "celsius_delta raw = f64_of_u16 raw"

definition deci :: "u16 \<Rightarrow> f64" where
  "deci raw = f64_of_u16 raw * flit (1 / 10)"

definition cell_volts :: "u16 \<Rightarrow> f64" where
  "cell_volts mv = f64_of_u16 mv / flit 1000"

section \<open>Strings\<close>

text \<open>\<open>String::from_utf8_lossy\<close>: maximal well-formed prefixes of a sequence; each ill-formed one
  becomes one U+FFFD.\<close>

definition utf8_width :: "int \<Rightarrow> int" where
  "utf8_width b = (if 0xC2 \<le> b \<and> b \<le> 0xDF then 2 else if 0xE0 \<le> b \<and> b \<le> 0xEF then 3
     else if 0xF0 \<le> b \<and> b \<le> 0xF4 then 4 else 0)"

definition utf8_cont :: "int \<Rightarrow> bool" where
  "utf8_cont b \<longleftrightarrow> 0x80 \<le> b \<and> b \<le> 0xBF"

definition utf8_second :: "int \<Rightarrow> int \<Rightarrow> bool" where
  "utf8_second lead b \<longleftrightarrow>
     (if lead = 0xE0 then 0xA0 \<le> b \<and> b \<le> 0xBF
      else if lead = 0xED then 0x80 \<le> b \<and> b \<le> 0x9F
      else if lead = 0xF0 then 0x90 \<le> b \<and> b \<le> 0xBF
      else if lead = 0xF4 then 0x80 \<le> b \<and> b \<le> 0x8F
      else utf8_cont b)"

definition utf8_point2 :: "int \<Rightarrow> int \<Rightarrow> int" where
  "utf8_point2 b c = (b - 0xC0) * 64 + (c - 0x80)"

definition utf8_point3 :: "int \<Rightarrow> int \<Rightarrow> int \<Rightarrow> int" where
  "utf8_point3 b c d = (b - 0xE0) * 4096 + (c - 0x80) * 64 + (d - 0x80)"

definition utf8_point4 :: "int \<Rightarrow> int \<Rightarrow> int \<Rightarrow> int \<Rightarrow> int" where
  "utf8_point4 b c d e =
     (b - 0xF0) * 262144 + (c - 0x80) * 4096 + (d - 0x80) * 64 + (e - 0x80)"

fun utf8_lossy :: "int list \<Rightarrow> int list" where
  "utf8_lossy [] = []"
| "utf8_lossy (b # r) =
    (if b < 0x80 then b # utf8_lossy r
     else if utf8_width b = 0 then 0xFFFD # utf8_lossy r
     else case r of [] \<Rightarrow> [0xFFFD]
     | c # r1 \<Rightarrow>
       if \<not> utf8_second b c then 0xFFFD # utf8_lossy r
       else if utf8_width b = 2 then utf8_point2 b c # utf8_lossy r1
       else case r1 of [] \<Rightarrow> [0xFFFD]
       | d # r2 \<Rightarrow>
         if \<not> utf8_cont d then 0xFFFD # utf8_lossy r1
         else if utf8_width b = 3 then utf8_point3 b c d # utf8_lossy r2
         else case r2 of [] \<Rightarrow> [0xFFFD]
         | e # r3 \<Rightarrow>
           if \<not> utf8_cont e then 0xFFFD # utf8_lossy r2
           else utf8_point4 b c d e # utf8_lossy r3)"

declare utf8_lossy.simps(2) [simp del]

definition is_control :: "int \<Rightarrow> bool" where
  "is_control c \<longleftrightarrow> c \<le> 0x1F \<or> 0x7F \<le> c \<and> c \<le> 0x9F"

definition is_whitespace :: "int \<Rightarrow> bool" where
  "is_whitespace c \<longleftrightarrow> 9 \<le> c \<and> c \<le> 13 \<or> c = 0x20 \<or> c = 0x85 \<or> c = 0xA0 \<or> c = 0x1680
     \<or> 0x2000 \<le> c \<and> c \<le> 0x200A \<or> c = 0x2028 \<or> c = 0x2029 \<or> c = 0x202F \<or> c = 0x205F
     \<or> c = 0x3000"

definition utf8_char :: "int \<Rightarrow> int list" where
  "utf8_char c =
     (if c < 0x80 then [c]
      else if c < 0x800 then [0xC0 + c div 64, 0x80 + c mod 64]
      else if c < 0x10000 then [0xE0 + c div 4096, 0x80 + c div 64 mod 64, 0x80 + c mod 64]
      else [0xF0 + c div 262144, 0x80 + c div 4096 mod 64, 0x80 + c div 64 mod 64, 0x80 + c mod 64])"

definition utf8_encode :: "int list \<Rightarrow> string" where
  "utf8_encode cs = map char_of (concat (map utf8_char cs))"

definition trim_matches :: "(int \<Rightarrow> bool) \<Rightarrow> int list \<Rightarrow> int list" where
  "trim_matches p cs = rev (dropWhile p (rev (dropWhile p cs)))"

text \<open>The bytes of registers \<open>start ..= end\<close>, decoded, stripped of control characters and
  trimmed.\<close>

definition ascii_chars :: "u16 list \<Rightarrow> nat \<Rightarrow> nat \<Rightarrow> int list" where
  "ascii_chars regs start stop =
     (let end' = min stop (length regs - 1);
          bytes = concat (map to_be_bytes (drop start (take (end' + 1) regs)));
          cleaned = filter (\<lambda>c. \<not> is_control c) (utf8_lossy (map uint bytes))
      in trim_matches (\<lambda>c. c = 0 \<or> is_whitespace c) cleaned)"

definition ascii :: "u16 list \<Rightarrow> nat \<Rightarrow> nat \<Rightarrow> string option" where
  "ascii regs start stop =
     (if length regs \<le> start then None
      else let trimmed = ascii_chars regs start stop in
        if trimmed = [] then None else Some (utf8_encode trimmed))"

section \<open>Realtime data\<close>

record limits =
  warning :: "f64 option"
  protection :: "f64 option"

record realtime_data =
  cells_v :: "(nat \<times> f64) list"
  temps_c :: "(nat \<times> f64) list"
  pack_v :: "f64 option"
  current_a :: "f64 option"
  soc_pct :: "f64 option"
  cell_max_v :: "f64 option"
  cell_min_v :: "f64 option"
  temp_max_c :: "f64 option"
  temp_min_c :: "f64 option"
  remaining_ah :: "f64 option"
  cycles :: "u16 option"
  charge_mos :: "bool option"
  discharge_mos :: "bool option"
  cell_avg_v :: "f64 option"
  cell_delta_v :: "f64 option"
  balancer_active :: "bool option"
  balance_current_a :: "f64 option"
  balancing_cells :: "u16 option"
  mos_temp_c :: "f64 option"
  alarm_bits :: "u16 option"
  serial :: "string option"

text \<open>\<open>regs.get(addr).copied()\<close>, and the loop over the slots of an indexed family: a slot that is
  absent or zero is skipped, a present one is numbered from 1.\<close>

definition reg_at :: "u16 list \<Rightarrow> nat \<Rightarrow> u16 option" where
  "reg_at regs addr = (if addr < length regs then Some (regs ! addr) else None)"

definition clamped_count :: "u16 option \<Rightarrow> u16 \<Rightarrow> nat" where
  "clamped_count c bound = unat (min (case c of None \<Rightarrow> 0 | Some n \<Rightarrow> n) bound)"

definition indexed_slots :: "u16 list \<Rightarrow> nat \<Rightarrow> (u16 \<Rightarrow> f64) \<Rightarrow> nat \<Rightarrow> (nat \<times> f64) list" where
  "indexed_slots regs base conv count =
     List.map_filter (\<lambda>slot. case reg_at regs (base + slot) of
         None \<Rightarrow> None
       | Some raw \<Rightarrow> if raw \<noteq> 0 then Some (slot + 1, conv raw) else None) [0..<count]"

definition realtime_from_registers :: "u16 list \<Rightarrow> realtime_data" where
  "realtime_from_registers regs =
     (let reg = reg_at regs;
          cell_count = clamped_count (reg REG_CELL_COUNT) MAX_CELLS;
          temp_count = clamped_count (reg REG_TEMP_COUNT) MAX_TEMPS
      in \<lparr> cells_v = indexed_slots regs REG_CELL_BASE cell_volts cell_count,
           temps_c = indexed_slots regs REG_TEMP_BASE celsius temp_count,
           pack_v = map_option deci (reg REG_PACK_VOLTAGE),
           current_a = map_option amps (reg REG_CURRENT),
           soc_pct = map_option deci (reg REG_SOC),
           cell_max_v = map_option cell_volts (reg REG_CELL_MAX_V),
           cell_min_v = map_option cell_volts (reg REG_CELL_MIN_V),
           temp_max_c = map_option celsius (reg REG_TEMP_MAX),
           temp_min_c = map_option celsius (reg REG_TEMP_MIN),
           remaining_ah = map_option deci (reg REG_REMAINING_CAPACITY),
           cycles = reg REG_CYCLES,
           charge_mos = map_option (\<lambda>v. v \<noteq> 0) (reg REG_CHARGE_MOS),
           discharge_mos = map_option (\<lambda>v. v \<noteq> 0) (reg REG_DISCHARGE_MOS),
           cell_avg_v = map_option cell_volts (reg REG_CELL_AVG_V),
           cell_delta_v = map_option cell_volts (reg REG_CELL_DELTA_V),
           balancer_active = map_option (\<lambda>v. v \<noteq> 0) (reg REG_BALANCER_ACTIVE),
           balance_current_a = map_option amps (reg REG_BALANCE_CURRENT_RT),
           balancing_cells = reg REG_BALANCING_CELLS,
           mos_temp_c = map_option celsius (reg REG_MOS_TEMP),
           alarm_bits = reg REG_ALARM_BITS,
           serial = ascii regs REG_SERIAL_START REG_SERIAL_END \<rparr>)"

section \<open>The plausibility gate\<close>

record plausibility_limits =
  max_current_a :: f64
  pack_volts :: "f64 \<times> f64"

definition DROP_IMPLAUSIBLE_CURRENT :: string where
  "DROP_IMPLAUSIBLE_CURRENT = ''implausible_current''"

definition DROP_IMPLAUSIBLE_VOLTAGE :: string where
  "DROP_IMPLAUSIBLE_VOLTAGE = ''implausible_voltage''"

definition implausibility :: "realtime_data \<Rightarrow> plausibility_limits \<Rightarrow> string option" where
  "implausibility d limits =
     (if (case current_a d of None \<Rightarrow> False
          | Some i \<Rightarrow> \<not> is_finite i \<or> max_current_a limits < \<bar>i\<bar>)
      then Some DROP_IMPLAUSIBLE_CURRENT
      else case pack_volts limits of (min_v, max_v) \<Rightarrow>
        if (case pack_v d of None \<Rightarrow> False
            | Some v \<Rightarrow> \<not> is_finite v \<or> v < min_v \<or> max_v < v)
        then Some DROP_IMPLAUSIBLE_VOLTAGE
        else None)"

section \<open>Configuration data\<close>

record config_data =
  rated_capacity_ah :: "f64 option"
  cell_reference_v :: "f64 option"
  cell_high_v :: limits
  cell_low_v :: limits
  pack_high_v :: limits
  pack_low_v :: limits
  discharge_overcurrent_a :: limits
  charge_overcurrent_a :: limits
  charge_temp_high_c :: limits
  charge_temp_low_c :: limits
  discharge_temp_high_c :: limits
  diff_temp_c :: "f64 option"
  fan_on_temp_c :: "f64 option"
  balance_enable :: "bool option"
  cfg_balance_current_a :: "f64 option"
  machine_code :: "string option"
  sw_version :: "string option"
  hw_version :: "string option"

text \<open>\<open>addr.checked_sub(CFG_BASE).and_then(..)\<close>.\<close>

definition cfg_reg_at :: "u16 list \<Rightarrow> nat \<Rightarrow> u16 option" where
  "cfg_reg_at regs addr = (if addr < CFG_BASE then None else reg_at regs (addr - CFG_BASE))"

definition limits_of :: "(nat \<Rightarrow> u16 option) \<Rightarrow> (u16 \<Rightarrow> f64) \<Rightarrow> nat \<Rightarrow> nat \<Rightarrow> limits" where
  "limits_of reg conv warn prot =
     \<lparr> warning = map_option conv (reg warn), protection = map_option conv (reg prot) \<rparr>"

definition config_from_registers :: "u16 list \<Rightarrow> config_data" where
  "config_from_registers regs =
     (let reg = cfg_reg_at regs; rel_idx = (\<lambda>addr. addr - CFG_BASE)
      in \<lparr> rated_capacity_ah = map_option deci (reg REG_RATED_CAPACITY),
           cell_reference_v = map_option cell_volts (reg REG_CELL_REFERENCE),
           cell_high_v = limits_of reg cell_volts REG_CELL_HIGH_WARN REG_CELL_HIGH_PROT,
           cell_low_v = limits_of reg cell_volts REG_CELL_LOW_WARN REG_CELL_LOW_PROT,
           pack_high_v = limits_of reg deci REG_PACK_HIGH_WARN REG_PACK_HIGH_PROT,
           pack_low_v = limits_of reg deci REG_PACK_LOW_WARN REG_PACK_LOW_PROT,
           discharge_overcurrent_a =
             limits_of reg amps REG_DISCHARGE_OC_WARN REG_DISCHARGE_OC_PROT,
           charge_overcurrent_a = limits_of reg amps REG_CHARGE_OC_WARN REG_CHARGE_OC_PROT,
           charge_temp_high_c =
             limits_of reg celsius REG_CHARGE_TEMP_HIGH_WARN REG_CHARGE_TEMP_HIGH_PROT,
           charge_temp_low_c =
             limits_of reg celsius REG_CHARGE_TEMP_LOW_WARN REG_CHARGE_TEMP_LOW_PROT,
           discharge_temp_high_c =
             limits_of reg celsius REG_DISCHARGE_TEMP_HIGH_WARN REG_DISCHARGE_TEMP_HIGH_PROT,
           diff_temp_c = map_option celsius_delta (reg REG_DIFF_TEMP),
           fan_on_temp_c = map_option celsius (reg REG_FAN_ON_TEMP),
           balance_enable = map_option (\<lambda>v. v \<noteq> 0) (reg REG_BALANCE_ENABLE),
           cfg_balance_current_a = map_option deci (reg REG_BALANCE_CURRENT_CFG),
           machine_code =
             ascii regs (rel_idx REG_MACHINE_CODE_START) (rel_idx REG_MACHINE_CODE_END),
           sw_version = ascii regs (rel_idx REG_SW_VERSION_START) (rel_idx REG_SW_VERSION_END),
           hw_version = ascii regs (rel_idx REG_HW_VERSION_START) (rel_idx REG_HW_VERSION_END) \<rparr>)"

end
