(* ===== verification/Metrics_State.thy ===== *)
theory Metrics_State
  imports Calibration Decode
begin

text \<open>
  The data behind the coulomb mutex of \<open>src/metrics.rs\<close> and the pure functions on it: the
  directional split and its clamp, the pending deltas, the per-device record, the persisted
  entries, the trapezoid and the one-ulp bump.

  The \<open>HashMap\<close> of devices is an ordered map here. The program iterates over it only to build
  the rows of a \<open>BTreeMap\<close> and to add to counters of distinct devices, so the order of the
  iteration is not observable. An \<open>Instant\<close> is an integer number of nanoseconds.
\<close>

section \<open>Constants\<close>

definition DROP_REASONS :: "string list" where
  "DROP_REASONS =
     [''bad_json'', ''serial_rejected'', ''device_limit'', ''bad_command'', ''unknown_block'',
      ''bad_hex'', ''too_short'', ''bad_frame'', ''crc'', DROP_IMPLAUSIBLE_CURRENT,
      DROP_IMPLAUSIBLE_VOLTAGE]"

definition REJECT_CLAMPED_DELTA :: string where
  "REJECT_CLAMPED_DELTA = ''clamped_delta''"

definition ALARM_FLAGS :: "(u16 \<times> string) list" where
  "ALARM_FLAGS = [(0x0100, ''diff_volt_l1''), (0x0200, ''diff_volt_l2'')]"

section \<open>The persisted state\<close>

record coulomb_entry =
  e_charge_ah :: f64
  e_discharge_ah :: f64
  e_charge_wh :: f64
  e_discharge_wh :: f64
  e_cal_charge_ah :: f64
  e_cal_discharge_ah :: f64
  e_cal_charge_wh :: f64
  e_cal_discharge_wh :: f64
  e_balance_ah :: f64

record coulomb_state =
  cs_devices :: "coulomb_entry smap"
  cs_calibration :: cal_state

section \<open>Splits and pending deltas\<close>

record split =
  sp_charge :: f64
  sp_discharge :: f64

definition split_default :: split where
  "split_default = \<lparr> sp_charge = 0, sp_discharge = 0 \<rparr>"

record clamped =
  cl_value :: split
  cl_was_clamped :: bool

definition split_eq :: "split \<Rightarrow> split \<Rightarrow> bool" where
  "split_eq a b \<longleftrightarrow> feq (sp_charge a) (sp_charge b) \<and> feq (sp_discharge a) (sp_discharge b)"

definition split_clamped :: "f64 \<Rightarrow> split \<Rightarrow> clamped" where
  "split_clamped cap s =
     (let value = \<lparr> sp_charge = fmin (sp_charge s) cap, sp_discharge = fmin (sp_discharge s) cap \<rparr>
      in \<lparr> cl_value = value, cl_was_clamped = (\<not> split_eq value s) \<rparr>)"

definition split_add :: "split \<Rightarrow> split \<Rightarrow> split" where
  "split_add a b = \<lparr> sp_charge = sp_charge a + sp_charge b,
     sp_discharge = sp_discharge a + sp_discharge b \<rparr>"

record pending =
  pd_ah :: split
  pd_wh :: split
  pd_cal_ah :: split
  pd_cal_wh :: split
  pd_balance_ah :: f64

definition pending_default :: pending where
  "pending_default = \<lparr> pd_ah = split_default, pd_wh = split_default, pd_cal_ah = split_default,
     pd_cal_wh = split_default, pd_balance_ah = 0 \<rparr>"

definition pending_add :: "pending \<Rightarrow> pending \<Rightarrow> pending" where
  "pending_add a b = \<lparr> pd_ah = split_add (pd_ah a) (pd_ah b), pd_wh = split_add (pd_wh a) (pd_wh b),
     pd_cal_ah = split_add (pd_cal_ah a) (pd_cal_ah b),
     pd_cal_wh = split_add (pd_cal_wh a) (pd_cal_wh b),
     pd_balance_ah = pd_balance_ah a + pd_balance_ah b \<rparr>"

definition pending_eq :: "pending \<Rightarrow> pending \<Rightarrow> bool" where
  "pending_eq a b \<longleftrightarrow> split_eq (pd_ah a) (pd_ah b) \<and> split_eq (pd_wh a) (pd_wh b)
     \<and> split_eq (pd_cal_ah a) (pd_cal_ah b) \<and> split_eq (pd_cal_wh a) (pd_cal_wh b)
     \<and> feq (pd_balance_ah a) (pd_balance_ah b)"

section \<open>Per-device records\<close>

record last_series =
  ls_cells :: "nat list"
  ls_sensors :: "nat list"
  ls_last_coulomb_ts :: "f64 option"
  ls_last_current :: "f64 option"
  ls_last_pack_v :: "f64 option"
  ls_last_device_info :: "string list option"
  ls_realtime_serial :: "string option"
  ls_last_balance_a :: "f64 option"
  ls_last_offset :: "f64 option"
  ls_last_peers :: "string list"
  ls_pending :: pending

definition last_series_default :: last_series where
  "last_series_default =
     \<lparr> ls_cells = [], ls_sensors = [], ls_last_coulomb_ts = None, ls_last_current = None,
       ls_last_pack_v = None, ls_last_device_info = None, ls_realtime_serial = None,
       ls_last_balance_a = None, ls_last_offset = None, ls_last_peers = [],
       ls_pending = pending_default \<rparr>"

definition has_pending :: "last_series \<Rightarrow> bool" where
  "has_pending e \<longleftrightarrow> \<not> pending_eq (ls_pending e) pending_default"

record coulomb_shared =
  sh_devices :: "last_series smap"
  sh_calibrator :: calibrator
  sh_last_persist_at :: "int option"
  sh_writing :: bool

definition coulomb_shared_new :: "options \<Rightarrow> coulomb_shared" where
  "coulomb_shared_new opts = \<lparr> sh_devices = [], sh_calibrator = calibrator_new opts,
     sh_last_persist_at = None, sh_writing = False \<rparr>"

record metrics_options =
  mo_coulomb_max_gap_secs :: f64
  mo_max_devices :: nat
  mo_coulomb_state_path :: "string option"
  mo_state_min_interval :: int
  mo_max_frame_amp_hours :: f64
  mo_max_frame_watt_hours :: f64
  mo_calibration_enabled :: bool
  mo_calibration :: options

definition secs_to_nanos :: "int \<Rightarrow> int" where
  "secs_to_nanos s = s * 1000000000"

definition metrics_options_default :: metrics_options where
  "metrics_options_default =
     \<lparr> mo_coulomb_max_gap_secs = flit 900, mo_max_devices = 64, mo_coulomb_state_path = None,
       mo_state_min_interval = secs_to_nanos 5, mo_max_frame_amp_hours = flit 25,
       mo_max_frame_watt_hours = flit 900, mo_calibration_enabled = True,
       mo_calibration = options_default \<rparr>"

section \<open>Integration and rounding guard\<close>

definition trapezoid_hours :: "f64 \<Rightarrow> f64 \<Rightarrow> f64 \<Rightarrow> f64 \<Rightarrow> split" where
  "trapezoid_hours prev cur dt_secs max_gap =
     (if dt_secs \<le> 0 then split_default
      else let dt = fmin dt_secs max_gap;
               value = (prev + cur) / flit 2 * dt / flit 3600
        in if 0 \<le> value then \<lparr> sp_charge = value, sp_discharge = 0 \<rparr>
           else \<lparr> sp_charge = 0, sp_discharge = - value \<rparr>)"

definition bump_ulp :: "f64 \<Rightarrow> f64" where
  "bump_ulp v =
     (if is_finite v \<and> 0 < v then let up = next_up v in if is_finite up then up else v else v)"

section \<open>Taking and returning pending deltas\<close>

definition take_pending :: "coulomb_shared \<Rightarrow> (string \<times> pending) list \<times> coulomb_shared" where
  "take_pending sh =
     (List.map (\<lambda>(sn, e). (sn, ls_pending e)) (sh_devices sh),
      sh\<lparr> sh_devices := smapv (\<lambda>e. e\<lparr> ls_pending := pending_default \<rparr>) (sh_devices sh) \<rparr>)"

fun requeue_pending :: "(string \<times> pending) list \<Rightarrow> coulomb_shared \<Rightarrow> coulomb_shared" where
  "requeue_pending [] sh = sh"
| "requeue_pending ((sn, p) # snapshot) sh =
     requeue_pending snapshot
       (case sget (sh_devices sh) sn of None \<Rightarrow> sh
        | Some e \<Rightarrow> sh\<lparr> sh_devices := sput sn
            (e\<lparr> ls_pending := pending_add (ls_pending e) p \<rparr>) (sh_devices sh) \<rparr>)"

section \<open>Labels\<close>

text \<open>Decimal digits of a number, and the zero-padded index label \<open>{n:02}\<close>.\<close>

fun digits :: "nat \<Rightarrow> string" where
  "digits n = (if n < 10 then [char_of (48 + n)] else digits (n div 10) @ [char_of (48 + n mod 10)])"

declare digits.simps [simp del]

definition idx_label :: "nat \<Rightarrow> string" where
  "idx_label n = (let s = digits n in if length s < 2 then CHR ''0'' # s else s)"

end
