(* ===== verification/Registry.thy ===== *)
theory Registry
  imports Metrics_State "HOL-Library.AList"
begin

text \<open>
  The metric families of \<open>src/metrics.rs\<close> and their registration, and the interface to the
  \<open>prometheus\<close> crate. The crate is not part of the program: its registry is a state of an
  arbitrary type, its operations are the record \<open>prom_api\<close> passed to every definition that uses
  them, and the locale \<open>prometheus\<close> states what its documentation says about them. A family
  is named by the field of the struct \<open>Metrics\<close> that holds it. Values are the doubles of the
  text exposition, also for the integer gauges and counters.
\<close>

section \<open>The families\<close>

text \<open>The metric fields of the struct \<open>Metrics\<close>, in its order and by its groups.\<close>

datatype realtime_family =
    Pack_voltage | Current | Soc | Remaining_capacity | Cell_voltage | Cell_voltage_max
    | Cell_voltage_min | Cell_voltage_avg | Cell_voltage_delta | Temperature
    | Temperature_max | Temperature_min | Mos_temperature | Charge_cycles | Charge_mos
    | Discharge_mos | Balancer_active | Balance_current | Balancing_cell_count
    | Alarm_bits | Alarm

datatype config_family =
    Rated_capacity | Cell_reference_voltage | Cell_voltage_high_limit
    | Cell_voltage_low_limit | Pack_voltage_high_limit | Pack_voltage_low_limit
    | Charge_overcurrent_limit | Discharge_overcurrent_limit | Charge_temp_high_limit
    | Charge_temp_low_limit | Discharge_temp_high_limit | Diff_temp_limit
    | Fan_on_temperature | Balance_enable | Config_balance_current | Device_info

datatype counter_family =
    Charge_amp_hours | Discharge_amp_hours | Charge_watt_hours | Discharge_watt_hours
    | Cal_charge_amp_hours | Cal_discharge_amp_hours | Cal_charge_watt_hours
    | Cal_discharge_watt_hours | Balance_amp_hours

datatype calibration_family =
    Current_offset | Current_offset_estimate | Calibration_anchor_error
    | Calibration_span_hours | Calibration_fit_r2 | Calibration_hold
    | Calibration_peer_offset | Calibration_peer_slope | Calibration_peer_r2
    | Calibration_peer_disagreement

datatype exporter_family =
    Http_requests | Frames_decoded | Frames_dropped | Last_frame_timestamp
    | State_write_errors | State_last_write_timestamp | Coulomb_samples_rejected

datatype family = Rt realtime_family | Cf config_family | Ct counter_family | Cal calibration_family | Ex exporter_family

datatype metric_kind = Gauge_vec | Int_gauge_vec | Counter_vec | Int_counter_vec | Gauge

text \<open>What \<open>Metrics::new\<close> registers: family, kind, name and label names; the help texts are left out.\<close>

definition realtime_families :: "(family \<times> metric_kind \<times> string \<times> string list) list" where
  "realtime_families =
     [(Rt Pack_voltage, Gauge_vec, ''daly_bms_pack_voltage_volts'', [''sn'']),
      (Rt Current, Gauge_vec, ''daly_bms_current_amperes'', [''sn'']),
      (Rt Soc, Gauge_vec, ''daly_bms_soc_percent'', [''sn'']),
      (Rt Remaining_capacity, Gauge_vec, ''daly_bms_remaining_capacity_amp_hours'', [''sn'']),
      (Rt Cell_voltage, Gauge_vec, ''daly_bms_cell_voltage_volts'', [''sn'', ''cell'']),
      (Rt Cell_voltage_max, Gauge_vec, ''daly_bms_cell_voltage_max_volts'', [''sn'']),
      (Rt Cell_voltage_min, Gauge_vec, ''daly_bms_cell_voltage_min_volts'', [''sn'']),
      (Rt Cell_voltage_avg, Gauge_vec, ''daly_bms_cell_voltage_avg_volts'', [''sn'']),
      (Rt Cell_voltage_delta, Gauge_vec, ''daly_bms_cell_voltage_delta_volts'', [''sn'']),
      (Rt Temperature, Gauge_vec, ''daly_bms_temperature_celsius'', [''sn'', ''sensor'']),
      (Rt Temperature_max, Gauge_vec, ''daly_bms_temperature_max_celsius'', [''sn'']),
      (Rt Temperature_min, Gauge_vec, ''daly_bms_temperature_min_celsius'', [''sn'']),
      (Rt Mos_temperature, Gauge_vec, ''daly_bms_mos_temperature_celsius'', [''sn'']),
      (Rt Charge_cycles, Int_gauge_vec, ''daly_bms_charge_cycles'', [''sn'']),
      (Rt Charge_mos, Int_gauge_vec, ''daly_bms_charge_mos'', [''sn'']),
      (Rt Discharge_mos, Int_gauge_vec, ''daly_bms_discharge_mos'', [''sn'']),
      (Rt Balancer_active, Int_gauge_vec, ''daly_bms_balancer_active'', [''sn'']),
      (Rt Balance_current, Gauge_vec, ''daly_bms_balance_current_amperes'', [''sn'']),
      (Rt Balancing_cell_count, Int_gauge_vec, ''daly_bms_balancing_cell_count'', [''sn'']),
      (Rt Alarm_bits, Int_gauge_vec, ''daly_bms_alarm_bits'', [''sn'']),
      (Rt Alarm, Int_gauge_vec, ''daly_bms_alarm'', [''sn'', ''type''])]"

definition config_families :: "(family \<times> metric_kind \<times> string \<times> string list) list" where
  "config_families =
     [(Cf Rated_capacity, Gauge_vec, ''daly_bms_rated_capacity_amp_hours'', [''sn'']),
      (Cf Cell_reference_voltage, Gauge_vec, ''daly_bms_cell_reference_voltage_volts'', [''sn'']),
      (Cf Cell_voltage_high_limit, Gauge_vec, ''daly_bms_cell_voltage_high_limit_volts'', [''sn'', ''level'']),
      (Cf Cell_voltage_low_limit, Gauge_vec, ''daly_bms_cell_voltage_low_limit_volts'', [''sn'', ''level'']),
      (Cf Pack_voltage_high_limit, Gauge_vec, ''daly_bms_pack_voltage_high_limit_volts'', [''sn'', ''level'']),
      (Cf Pack_voltage_low_limit, Gauge_vec, ''daly_bms_pack_voltage_low_limit_volts'', [''sn'', ''level'']),
      (Cf Charge_overcurrent_limit, Gauge_vec, ''daly_bms_charge_overcurrent_limit_amperes'', [''sn'', ''level'']),
      (Cf Discharge_overcurrent_limit, Gauge_vec, ''daly_bms_discharge_overcurrent_limit_amperes'', [''sn'', ''level'']),
      (Cf Charge_temp_high_limit, Gauge_vec, ''daly_bms_charge_temp_high_limit_celsius'', [''sn'', ''level'']),
      (Cf Charge_temp_low_limit, Gauge_vec, ''daly_bms_charge_temp_low_limit_celsius'', [''sn'', ''level'']),
      (Cf Discharge_temp_high_limit, Gauge_vec, ''daly_bms_discharge_temp_high_limit_celsius'', [''sn'', ''level'']),
      (Cf Diff_temp_limit, Gauge_vec, ''daly_bms_diff_temp_limit_celsius'', [''sn'']),
      (Cf Fan_on_temperature, Gauge_vec, ''daly_bms_fan_on_temperature_celsius'', [''sn'']),
      (Cf Balance_enable, Int_gauge_vec, ''daly_bms_balance_enable'', [''sn'']),
      (Cf Config_balance_current, Gauge_vec, ''daly_bms_config_balance_current_amperes'', [''sn'']),
      (Cf Device_info, Int_gauge_vec, ''daly_bms_device_info'', [''sn'', ''serial'', ''machine_code'', ''sw_version'', ''hw_version''])]"

definition server_families :: "(family \<times> metric_kind \<times> string \<times> string list) list" where
  "server_families =
     [(Ex Http_requests, Int_counter_vec, ''daly_bms_http_requests_total'', [''endpoint'', ''status'']),
      (Ex Frames_decoded, Int_counter_vec, ''daly_bms_frames_decoded_total'', [''block'']),
      (Ex Frames_dropped, Int_counter_vec, ''daly_bms_frames_dropped_total'', [''reason'']),
      (Ex Last_frame_timestamp, Gauge_vec, ''daly_bms_last_frame_timestamp_seconds'', [''sn'']),
      (Ex Coulomb_samples_rejected, Int_counter_vec, ''daly_bms_coulomb_samples_rejected_total'', [''reason'']),
      (Ex State_write_errors, Int_counter_vec, ''daly_bms_state_write_errors_total'', [''stage'']),
      (Ex State_last_write_timestamp, Gauge, ''daly_bms_state_last_write_timestamp_seconds'', [])]"

definition counter_families :: "(family \<times> metric_kind \<times> string \<times> string list) list" where
  "counter_families =
     [(Ct Charge_amp_hours, Counter_vec, ''daly_bms_charge_amp_hours_total'', [''sn'']),
      (Ct Discharge_amp_hours, Counter_vec, ''daly_bms_discharge_amp_hours_total'', [''sn'']),
      (Ct Charge_watt_hours, Counter_vec, ''daly_bms_charge_watt_hours_total'', [''sn'']),
      (Ct Cal_charge_amp_hours, Counter_vec, ''daly_bms_calibrated_charge_amp_hours_total'', [''sn'']),
      (Ct Cal_discharge_amp_hours, Counter_vec, ''daly_bms_calibrated_discharge_amp_hours_total'', [''sn'']),
      (Ct Cal_charge_watt_hours, Counter_vec, ''daly_bms_calibrated_charge_watt_hours_total'', [''sn'']),
      (Ct Cal_discharge_watt_hours, Counter_vec, ''daly_bms_calibrated_discharge_watt_hours_total'', [''sn'']),
      (Ct Balance_amp_hours, Counter_vec, ''daly_bms_balance_amp_hours_total'', [''sn''])]"

definition calibration_families :: "(family \<times> metric_kind \<times> string \<times> string list) list" where
  "calibration_families =
     [(Cal Current_offset, Gauge_vec, ''daly_bms_current_offset_amperes'', [''sn'']),
      (Cal Current_offset_estimate, Gauge_vec, ''daly_bms_current_offset_estimate_amperes'', [''sn'']),
      (Cal Calibration_anchor_error, Gauge_vec, ''daly_bms_calibration_anchor_error_amperes'', [''sn'']),
      (Cal Calibration_span_hours, Gauge_vec, ''daly_bms_calibration_span_hours'', [''sn'']),
      (Cal Calibration_fit_r2, Gauge_vec, ''daly_bms_calibration_fit_r2'', [''sn'']),
      (Cal Calibration_hold, Gauge_vec, ''daly_bms_calibration_hold'', [''sn'']),
      (Cal Calibration_peer_offset, Gauge_vec, ''daly_bms_calibration_peer_offset_amperes'', [''sn'', ''peer'']),
      (Cal Calibration_peer_slope, Gauge_vec, ''daly_bms_calibration_peer_slope'', [''sn'', ''peer'']),
      (Cal Calibration_peer_r2, Gauge_vec, ''daly_bms_calibration_peer_r2'', [''sn'', ''peer'']),
      (Cal Calibration_peer_disagreement, Gauge_vec, ''daly_bms_calibration_peer_disagreement_amperes'', [''sn'', ''peer'']),
      (Ct Discharge_watt_hours, Counter_vec, ''daly_bms_discharge_watt_hours_total'', [''sn''])]"

definition all_families :: "(family \<times> metric_kind \<times> string \<times> string list) list" where
  "all_families = realtime_families @ config_families @ server_families @ counter_families
     @ calibration_families"

text \<open>
  \<open>register_*\<close>: \<open>Opts::new\<close> with an invalid name or label and a second registration of a name
  panic, which is \<open>None\<close>. Which names the crate accepts is the argument \<open>valid\<close>.
\<close>

definition register :: "(string \<Rightarrow> string list \<Rightarrow> bool) \<Rightarrow> string \<Rightarrow> string list \<Rightarrow> string list \<Rightarrow> string list option" where
  "register valid name labels reg =
     (if valid name labels \<and> name \<notin> set reg then Some (name # reg) else None)"

fun register_all ::
  "(string \<Rightarrow> string list \<Rightarrow> bool) \<Rightarrow> (family \<times> metric_kind \<times> string \<times> string list) list \<Rightarrow>
   string list \<Rightarrow> string list option" where
  "register_all valid [] reg = Some reg"
| "register_all valid ((f, k, name, labels) # rest) reg =
     Option.bind (register valid name labels reg) (register_all valid rest)"

section \<open>The registry\<close>

record 's prom_api =
  pm_new :: 's
  pm_touch :: "family \<Rightarrow> string list \<Rightarrow> 's \<Rightarrow> 's"
  pm_get :: "family \<Rightarrow> string list \<Rightarrow> 's \<Rightarrow> f64"
  pm_set :: "family \<Rightarrow> string list \<Rightarrow> f64 \<Rightarrow> 's \<Rightarrow> 's"
  pm_inc :: "family \<Rightarrow> string list \<Rightarrow> f64 \<Rightarrow> 's \<Rightarrow> 's"
  pm_remove :: "family \<Rightarrow> string list \<Rightarrow> 's \<Rightarrow> 's"
  pm_sample :: "'s \<Rightarrow> family \<Rightarrow> string list \<Rightarrow> f64 option"

text \<open>
  \<open>pm_touch\<close> is \<open>with_label_values\<close> alone, which creates the series at zero; \<open>pm_get\<close>, \<open>pm_set\<close>
  and \<open>pm_inc\<close> are \<open>get\<close>, \<open>set\<close> and \<open>inc_by\<close> on the series it returns; \<open>pm_sample\<close> is the
  value \<open>gather\<close> reports for a series, if it exists.
\<close>

locale prometheus =
  fixes P :: "'s prom_api"
  assumes sample_new: "f \<noteq> Ex State_last_write_timestamp \<Longrightarrow> pm_sample P (pm_new P) f ls = None"
    and sample_touch: "pm_sample P (pm_touch P f ls s) g ms =
      (if g = f \<and> ms = ls then Some (case pm_sample P s f ls of None \<Rightarrow> 0 | Some v \<Rightarrow> v)
       else pm_sample P s g ms)"
    and get_sample: "pm_get P f ls s = (case pm_sample P s f ls of None \<Rightarrow> 0 | Some v \<Rightarrow> v)"
    and sample_set: "pm_sample P (pm_set P f ls v s) g ms =
      (if g = f \<and> ms = ls then Some v else pm_sample P s g ms)"
    and sample_inc: "pm_sample P (pm_inc P f ls v s) g ms =
      (if g = f \<and> ms = ls then Some ((case pm_sample P s f ls of None \<Rightarrow> 0 | Some u \<Rightarrow> u) + v)
       else pm_sample P s g ms)"
    and sample_remove: "pm_sample P (pm_remove P f ls s) g ms =
      (if g = f \<and> ms = ls then None else pm_sample P s g ms)"

section \<open>Setters\<close>

definition set_gauge :: "'s prom_api \<Rightarrow> family \<Rightarrow> string \<Rightarrow> f64 option \<Rightarrow> 's \<Rightarrow> 's" where
  "set_gauge P f sn v s = (case v of None \<Rightarrow> s | Some v \<Rightarrow> pm_set P f [sn] v s)"

definition set_int_gauge :: "'s prom_api \<Rightarrow> family \<Rightarrow> string \<Rightarrow> int option \<Rightarrow> 's \<Rightarrow> 's" where
  "set_int_gauge P f sn v s = (case v of None \<Rightarrow> s | Some v \<Rightarrow> pm_set P f [sn] (f64_of_int v) s)"

definition set_limit :: "'s prom_api \<Rightarrow> family \<Rightarrow> string \<Rightarrow> limits \<Rightarrow> 's \<Rightarrow> 's" where
  "set_limit P f sn l s =
     (let s = (case warning l of None \<Rightarrow> s | Some w \<Rightarrow> pm_set P f [sn, ''warning''] w s)
      in case protection l of None \<Rightarrow> s | Some p \<Rightarrow> pm_set P f [sn, ''protection''] p s)"

definition inc_if_positive :: "'s prom_api \<Rightarrow> family \<Rightarrow> string \<Rightarrow> f64 \<Rightarrow> 's \<Rightarrow> 's" where
  "inc_if_positive P f sn v s = (if 0 < v then pm_inc P f [sn] v s else s)"

definition add_split :: "'s prom_api \<Rightarrow> family \<Rightarrow> family \<Rightarrow> string \<Rightarrow> split \<Rightarrow> 's \<Rightarrow> 's" where
  "add_split P charge discharge sn sp s =
     inc_if_positive P discharge sn (sp_discharge sp) (inc_if_positive P charge sn (sp_charge sp) s)"

text \<open>\<open>sync_indexed\<close>: remove the series of indices that are gone, set the current ones.\<close>

definition sync_indexed ::
  "'s prom_api \<Rightarrow> family \<Rightarrow> string \<Rightarrow> nat list \<Rightarrow> (nat \<times> f64) list \<Rightarrow> 's \<Rightarrow> nat list \<times> 's" where
  "sync_indexed P f sn prev cur s =
     (let cur_idx = List.map fst cur;
          s = fold (\<lambda>i s. if i \<in> set cur_idx then s else pm_remove P f [sn, idx_label i] s) prev s;
          s = fold (\<lambda>(n, v) s. pm_set P f [sn, idx_label n] v s) cur s
      in (cur_idx, s))"

section \<open>A registry as a finite map\<close>

text \<open>The least registry with these operations: the list of the series that exist.\<close>

type_synonym series = "((family \<times> string list) \<times> f64) list"

definition map_registry :: "series prom_api" where
  "map_registry =
     \<lparr> pm_new = [((Ex State_last_write_timestamp, []), 0)],
       pm_touch = (\<lambda>f ls s. case map_of s (f, ls) of None \<Rightarrow> ((f, ls), 0) # s | Some _ \<Rightarrow> s),
       pm_get = (\<lambda>f ls s. case map_of s (f, ls) of None \<Rightarrow> 0 | Some v \<Rightarrow> v),
       pm_set = (\<lambda>f ls v s. AList.update (f, ls) v s),
       pm_inc = (\<lambda>f ls v s. AList.update (f, ls)
         ((case map_of s (f, ls) of None \<Rightarrow> 0 | Some u \<Rightarrow> u) + v) s),
       pm_remove = (\<lambda>f ls s. AList.delete (f, ls) s),
       pm_sample = (\<lambda>s f ls. map_of s (f, ls)) \<rparr>"

interpretation map_registry: prometheus map_registry
  by unfold_locales
    (auto simp: map_registry_def update_conv' delete_conv' split: option.splits)

lemma map_registry_laws: "prometheus map_registry"
  by (rule map_registry.prometheus_axioms)

end
