(* ===== verification/Metrics.thy ===== *)
theory Metrics
  imports Registry
begin

text \<open>
  The operations of the struct \<open>Metrics\<close> (\<open>src/metrics.rs\<close>) on the state behind its mutex and on
  the registry: admission under the device cap, the update of the gauges from realtime and
  configuration frames, the identity series, the integration of a frame into pending deltas
  and the publication of the calibration. Each operation runs under the lock and is one step;
  the flush, which releases it, is in \<open>Flush\<close>. The clock is an argument.
\<close>

section \<open>State\<close>

record 's metrics =
  m_opts :: metrics_options
  m_shared :: coulomb_shared
  m_store :: 's

definition metrics_new :: "'s prom_api \<Rightarrow> metrics_options \<Rightarrow> 's metrics" where
  "metrics_new P opts =
     \<lparr> m_opts = opts, m_shared = coulomb_shared_new (mo_calibration opts),
       m_store = pm_touch P (Ex Coulomb_samples_rejected) [REJECT_CLAMPED_DELTA]
         (fold (\<lambda>reason. pm_touch P (Ex Frames_dropped) [reason]) DROP_REASONS (pm_new P)) \<rparr>"

abbreviation m_devices :: "'s metrics \<Rightarrow> last_series smap" where
  "m_devices m \<equiv> sh_devices (m_shared m)"

definition set_device :: "string \<Rightarrow> last_series \<Rightarrow> coulomb_shared \<Rightarrow> coulomb_shared" where
  "set_device sn e sh = sh\<lparr> sh_devices := sput sn e (sh_devices sh) \<rparr>"

section \<open>Admission\<close>

definition admit :: "string \<Rightarrow> 's metrics \<Rightarrow> bool \<times> 's metrics" where
  "admit sn m =
     (if mo_max_devices (m_opts m) = 0 then (True, m)
      else if sget (m_devices m) sn \<noteq> None then (True, m)
      else if length (m_devices m) < mo_max_devices (m_opts m)
      then (True, m\<lparr> m_shared := set_device sn last_series_default (m_shared m) \<rparr>)
      else (False, m))"

text \<open>The block at the head of every update: \<open>None\<close> is its early return at the cap, otherwise
  the guard with the device's entry in place, and the entry.\<close>

definition track :: "nat \<Rightarrow> string \<Rightarrow> coulomb_shared \<Rightarrow> (last_series \<times> coulomb_shared) option" where
  "track max_devices sn sh =
     (case sget (sh_devices sh) sn of Some e \<Rightarrow> Some (e, sh)
      | None \<Rightarrow>
        if max_devices \<noteq> 0 \<and> max_devices \<le> length (sh_devices sh) then None
        else Some (last_series_default, set_device sn last_series_default sh))"

section \<open>Realtime frames\<close>

definition bool_int :: "bool \<Rightarrow> int" where
  "bool_int b = (if b then 1 else 0)"

definition realtime_gauges :: "'s prom_api \<Rightarrow> string \<Rightarrow> realtime_data \<Rightarrow> 's \<Rightarrow> 's" where
  "realtime_gauges P sn d s =
     (let s = set_gauge P (Rt Pack_voltage) sn (pack_v d) s;
          s = set_gauge P (Rt Current) sn (current_a d) s;
          s = set_gauge P (Rt Soc) sn (soc_pct d) s;
          s = set_gauge P (Rt Remaining_capacity) sn (remaining_ah d) s;
          s = set_gauge P (Rt Cell_voltage_max) sn (cell_max_v d) s;
          s = set_gauge P (Rt Cell_voltage_min) sn (cell_min_v d) s;
          s = set_gauge P (Rt Cell_voltage_avg) sn (cell_avg_v d) s;
          s = set_gauge P (Rt Cell_voltage_delta) sn (cell_delta_v d) s;
          s = set_gauge P (Rt Temperature_max) sn (temp_max_c d) s;
          s = set_gauge P (Rt Temperature_min) sn (temp_min_c d) s;
          s = set_gauge P (Rt Mos_temperature) sn (mos_temp_c d) s;
          s = set_gauge P (Rt Balance_current) sn (balance_current_a d) s;
          s = set_int_gauge P (Rt Charge_cycles) sn (map_option uint (cycles d)) s;
          s = set_int_gauge P (Rt Balancing_cell_count) sn (map_option uint (balancing_cells d)) s;
          s = set_int_gauge P (Rt Charge_mos) sn (map_option bool_int (charge_mos d)) s;
          s = set_int_gauge P (Rt Discharge_mos) sn (map_option bool_int (discharge_mos d)) s
      in set_int_gauge P (Rt Balancer_active) sn (map_option bool_int (balancer_active d)) s)"

definition alarm_gauges :: "'s prom_api \<Rightarrow> string \<Rightarrow> u16 option \<Rightarrow> 's \<Rightarrow> 's" where
  "alarm_gauges P sn bits s =
     (case bits of None \<Rightarrow> s
      | Some bits \<Rightarrow>
        fold (\<lambda>(mask, name). pm_set P (Rt Alarm) [sn, name] (f64_of_int (bool_int (and bits mask \<noteq> 0))))
          ALARM_FLAGS (pm_set P (Rt Alarm_bits) [sn] (f64_of_int (uint bits)) s))"

definition update_realtime :: "'s prom_api \<Rightarrow> string \<Rightarrow> realtime_data \<Rightarrow> 's metrics \<Rightarrow> 's metrics" where
  "update_realtime P sn d m =
     (case track (mo_max_devices (m_opts m)) sn (m_shared m) of None \<Rightarrow> m
      | Some (e, sh) \<Rightarrow>
        let (cells, s) = sync_indexed P (Rt Cell_voltage) sn (ls_cells e) (cells_v d) (m_store m);
            (sensors, s) = sync_indexed P (Rt Temperature) sn (ls_sensors e) (temps_c d) s;
            e = e\<lparr> ls_realtime_serial := serial d, ls_cells := cells, ls_sensors := sensors \<rparr>
        in m\<lparr> m_shared := set_device sn e sh,
              m_store := alarm_gauges P sn (alarm_bits d) (realtime_gauges P sn d s) \<rparr>)"

section \<open>Configuration frames\<close>

definition config_gauges :: "'s prom_api \<Rightarrow> string \<Rightarrow> config_data \<Rightarrow> 's \<Rightarrow> 's" where
  "config_gauges P sn c s =
     (let s = set_gauge P (Cf Rated_capacity) sn (rated_capacity_ah c) s;
          s = set_gauge P (Cf Cell_reference_voltage) sn (cell_reference_v c) s;
          s = set_limit P (Cf Cell_voltage_high_limit) sn (cell_high_v c) s;
          s = set_limit P (Cf Cell_voltage_low_limit) sn (cell_low_v c) s;
          s = set_limit P (Cf Pack_voltage_high_limit) sn (pack_high_v c) s;
          s = set_limit P (Cf Pack_voltage_low_limit) sn (pack_low_v c) s;
          s = set_limit P (Cf Charge_overcurrent_limit) sn (charge_overcurrent_a c) s;
          s = set_limit P (Cf Discharge_overcurrent_limit) sn (discharge_overcurrent_a c) s;
          s = set_limit P (Cf Charge_temp_high_limit) sn (charge_temp_high_c c) s;
          s = set_limit P (Cf Charge_temp_low_limit) sn (charge_temp_low_c c) s;
          s = set_limit P (Cf Discharge_temp_high_limit) sn (discharge_temp_high_c c) s;
          s = set_gauge P (Cf Diff_temp_limit) sn (diff_temp_c c) s;
          s = set_gauge P (Cf Fan_on_temperature) sn (fan_on_temp_c c) s;
          s = set_int_gauge P (Cf Balance_enable) sn (map_option bool_int (balance_enable c)) s
      in set_gauge P (Cf Config_balance_current) sn (cfg_balance_current_a c) s)"

definition set_device_info ::
  "'s prom_api \<Rightarrow> last_series \<Rightarrow> string list \<Rightarrow> 's \<Rightarrow> last_series \<times> 's" where
  "set_device_info P e labels s =
     (let s = (case ls_last_device_info e of None \<Rightarrow> s
               | Some old \<Rightarrow> if old \<noteq> labels then pm_remove P (Cf Device_info) old s else s)
      in (e\<lparr> ls_last_device_info := Some labels \<rparr>, pm_set P (Cf Device_info) labels 1 s))"

definition unwrap_or_empty :: "string option \<Rightarrow> string" where
  "unwrap_or_empty s = (case s of None \<Rightarrow> [] | Some s \<Rightarrow> s)"

definition update_config :: "'s prom_api \<Rightarrow> string \<Rightarrow> config_data \<Rightarrow> 's metrics \<Rightarrow> 's metrics" where
  "update_config P sn c m =
     (let m = m\<lparr> m_store := config_gauges P sn c (m_store m) \<rparr>
      in case track (mo_max_devices (m_opts m)) sn (m_shared m) of None \<Rightarrow> m
      | Some (e, sh) \<Rightarrow>
        let serial = (case ls_realtime_serial e of None \<Rightarrow> sn | Some s \<Rightarrow> s);
            labels = [sn, serial, unwrap_or_empty (machine_code c), unwrap_or_empty (sw_version c),
                      unwrap_or_empty (hw_version c)];
            (e, s) = set_device_info P e labels (m_store m)
        in m\<lparr> m_shared := set_device sn e sh, m_store := s \<rparr>)"

definition mark_seen :: "'s prom_api \<Rightarrow> string \<Rightarrow> f64 \<Rightarrow> 's metrics \<Rightarrow> 's metrics" where
  "mark_seen P sn now_secs m =
     m\<lparr> m_store := pm_set P (Ex Last_frame_timestamp) [sn] now_secs (m_store m) \<rparr>"

section \<open>Integration of a frame\<close>

text \<open>The block of \<open>accumulate_coulombs\<close> that works on the device's entry: the new entry, with its
  deltas added to the pending ones, and whether any of them was clamped.\<close>

definition integrate_deltas ::
  "metrics_options \<Rightarrow> f64 \<Rightarrow> realtime_data \<Rightarrow> f64 \<Rightarrow> f64 \<Rightarrow> last_series \<Rightarrow> (pending \<times> bool) option" where
  "integrate_deltas opts offset d cur now_secs e =
     (case (ls_last_coulomb_ts e, ls_last_current e) of
        (Some last_ts, Some last_cur) \<Rightarrow>
          let gap = mo_coulomb_max_gap_secs opts;
              max_ah = mo_max_frame_amp_hours opts;
              max_wh = mo_max_frame_watt_hours opts;
              dt = now_secs - last_ts;
              ah = split_clamped max_ah (trapezoid_hours last_cur cur dt gap);
              cal_prev = last_cur - (case ls_last_offset e of None \<Rightarrow> 0 | Some off \<Rightarrow> off);
              cal_cur = cur - offset;
              cal_ah = split_clamped max_ah (trapezoid_hours cal_prev cal_cur dt gap);
              (wh, cal_wh) = (case (ls_last_pack_v e, pack_v d) of
                  (Some last_pv, Some pv) \<Rightarrow>
                    (split_clamped max_wh (trapezoid_hours (last_cur * last_pv) (cur * pv) dt gap),
                     split_clamped max_wh (trapezoid_hours (cal_prev * last_pv) (cal_cur * pv) dt gap))
                | _ \<Rightarrow> (\<lparr> cl_value = split_default, cl_was_clamped = False \<rparr>,
                        \<lparr> cl_value = split_default, cl_was_clamped = False \<rparr>));
              bleed = (case (ls_last_balance_a e, balance_current_a d) of
                  (Some last_bal, Some bal) \<Rightarrow>
                    split_clamped max_ah (trapezoid_hours (fmax last_bal 0) (fmax bal 0) dt gap)
                | _ \<Rightarrow> \<lparr> cl_value = split_default, cl_was_clamped = False \<rparr>)
          in Some (\<lparr> pd_ah = cl_value ah, pd_wh = cl_value wh, pd_cal_ah = cl_value cal_ah,
                     pd_cal_wh = cl_value cal_wh, pd_balance_ah = sp_charge (cl_value bleed) \<rparr>,
                   cl_was_clamped ah \<or> cl_was_clamped cal_ah \<or> cl_was_clamped wh
                   \<or> cl_was_clamped cal_wh \<or> cl_was_clamped bleed)
      | _ \<Rightarrow> None)"

definition integrate_entry ::
  "metrics_options \<Rightarrow> f64 \<Rightarrow> realtime_data \<Rightarrow> f64 \<Rightarrow> f64 \<Rightarrow> last_series \<Rightarrow> bool \<times> last_series" where
  "integrate_entry opts offset d cur now_secs e =
     (let (clamped, e) = (case integrate_deltas opts offset d cur now_secs e of
            None \<Rightarrow> (False, e)
          | Some (delta, clamped) \<Rightarrow>
              (clamped, e\<lparr> ls_pending := pending_add (ls_pending e) delta \<rparr>))
      in (clamped, e\<lparr> ls_last_coulomb_ts := Some now_secs, ls_last_current := Some cur,
            ls_last_pack_v := pack_v d, ls_last_balance_a := balance_current_a d,
            ls_last_offset := Some offset \<rparr>))"

definition rated_capacity_hint :: "'s prom_api \<Rightarrow> string \<Rightarrow> 's \<Rightarrow> f64 option \<times> 's" where
  "rated_capacity_hint P sn s =
     (let s = pm_touch P (Cf Rated_capacity) [sn] s;
          v = pm_get P (Cf Rated_capacity) [sn] s
      in (if 0 < v then Some v else None, s))"

definition peer_families :: "family list" where
  "peer_families = [Cal Calibration_peer_offset, Cal Calibration_peer_slope,
     Cal Calibration_peer_r2, Cal Calibration_peer_disagreement]"

definition publish_calibration ::
  "'s prom_api \<Rightarrow> string \<Rightarrow> report \<Rightarrow> string list \<Rightarrow> 's \<Rightarrow> 's" where
  "publish_calibration P sn r stale_peers s =
     (let s = pm_set P (Cal Current_offset) [sn] (r_applied r) s;
          s = pm_set P (Cal Calibration_hold) [sn] (hold_code (r_hold r)) s;
          s = pm_set P (Cal Calibration_span_hours) [sn] (r_span_hours r) s;
          s = pm_set P (Cal Calibration_anchor_error) [sn] (r_anchor_error r) s;
          s = set_gauge P (Cal Current_offset_estimate) sn (r_estimate r) s;
          s = set_gauge P (Cal Calibration_fit_r2) sn (r_r2 r) s;
          s = fold (\<lambda>stale s.
                if stale \<in> p_peer_sn ` set (r_peers r) then s
                else fold (\<lambda>f. pm_remove P f [sn, stale]) peer_families s) stale_peers s
      in fold (\<lambda>p s.
           let labels = [sn, p_peer_sn p];
               s = pm_set P (Cal Calibration_peer_offset) labels (p_relative_offset p) s;
               s = pm_set P (Cal Calibration_peer_slope) labels (p_slope p) s;
               s = pm_set P (Cal Calibration_peer_r2) labels (p_r2 p) s
           in pm_set P (Cal Calibration_peer_disagreement) labels (p_disagreement p) s)
         (r_peers r) s)"

definition record_sample_rejected :: "'s prom_api \<Rightarrow> string \<Rightarrow> 's metrics \<Rightarrow> 's metrics" where
  "record_sample_rejected P reason m =
     m\<lparr> m_store := pm_inc P (Ex Coulomb_samples_rejected) [reason] 1 (m_store m) \<rparr>"

text \<open>The calibration step of a frame: the offset, the report and the state after it.\<close>

definition calibrate ::
  "'s prom_api \<Rightarrow> (f64 \<Rightarrow> f64) \<Rightarrow> bool \<Rightarrow> string \<Rightarrow> realtime_data \<Rightarrow> f64 \<Rightarrow> f64 \<Rightarrow> calibrator \<times> 's \<Rightarrow>
   (f64 \<times> report option) \<times> (calibrator \<times> 's)" where
  "calibrate P ex enabled sn d cur now_secs = (\<lambda>(cal, s).
     if enabled
     then let (capacity, s) = rated_capacity_hint P sn s;
              (offset, cal) = observe ex sn
                \<lparr> s_current_a = cur, s_balance_a = balance_current_a d,
                  s_remaining_ah = remaining_ah d, s_capacity_ah = capacity,
                  s_now_secs = now_secs \<rparr> cal
          in ((offset, cal_report sn cal), (cal, s))
     else ((0, None), (cal, s)))"

text \<open>\<open>accumulate_coulombs\<close> up to the flush it ends with: \<open>None\<close> is an early return, which skips
  the flush too.\<close>

definition accumulate_coulombs ::
  "'s prom_api \<Rightarrow> (f64 \<Rightarrow> f64) \<Rightarrow> string \<Rightarrow> realtime_data \<Rightarrow> f64 \<Rightarrow> 's metrics \<Rightarrow> 's metrics option" where
  "accumulate_coulombs P ex sn d now_secs m =
     (case current_a d of None \<Rightarrow> None
      | Some cur \<Rightarrow>
        case track (mo_max_devices (m_opts m)) sn (m_shared m) of None \<Rightarrow> None
      | Some (e, sh) \<Rightarrow>
        let ((offset, report), (cal, s)) =
              calibrate P ex (mo_calibration_enabled (m_opts m)) sn d cur now_secs
                (sh_calibrator sh, m_store m);
            (clamped, e) = integrate_entry (m_opts m) offset d cur now_secs e;
            (e, s) = (case report of None \<Rightarrow> (e, s)
              | Some r \<Rightarrow> (e\<lparr> ls_last_peers := List.map p_peer_sn (r_peers r) \<rparr>,
                           publish_calibration P sn r (ls_last_peers e) s));
            m = m\<lparr> m_shared := set_device sn e (sh\<lparr> sh_calibrator := cal \<rparr>), m_store := s \<rparr>
        in Some (if clamped then record_sample_rejected P REJECT_CLAMPED_DELTA m else m))"

section \<open>Counters of the exporter itself\<close>

definition record_request :: "'s prom_api \<Rightarrow> string \<Rightarrow> nat \<Rightarrow> 's metrics \<Rightarrow> 's metrics" where
  "record_request P endpoint status m =
     m\<lparr> m_store := pm_inc P (Ex Http_requests) [endpoint, digits status] 1 (m_store m) \<rparr>"

definition record_decoded :: "'s prom_api \<Rightarrow> string \<Rightarrow> 's metrics \<Rightarrow> 's metrics" where
  "record_decoded P block_name m =
     m\<lparr> m_store := pm_inc P (Ex Frames_decoded) [block_name] 1 (m_store m) \<rparr>"

definition record_dropped :: "'s prom_api \<Rightarrow> string \<Rightarrow> 's metrics \<Rightarrow> 's metrics" where
  "record_dropped P reason m =
     m\<lparr> m_store := pm_inc P (Ex Frames_dropped) [reason] 1 (m_store m) \<rparr>"

end
