(* ===== verification/Durable_Write.thy ===== *)
theory Durable_Write
  imports Prelude
begin

text \<open>
  \<open>write_file_durable\<close> (\<open>src/metrics.rs\<close>) over a model of the file system calls it makes. A
  directory entry has the content the running system sees and, until the directory is synced,
  the contents it may still show after a power loss. The outcome of every call is an input, and
  the function returns the disk after each call, so that a crash can be placed anywhere.
\<close>

section \<open>Disk\<close>

text \<open>A file holds the bytes written to it, or is truncated or torn; torn bytes do not parse.\<close>

datatype 'b content = Data 'b | Torn

record 'b disk =
  dk_live :: "string \<Rightarrow> 'b content option"
  dk_stale :: "string \<Rightarrow> 'b content option list"

definition disk_possible :: "'b disk \<Rightarrow> string \<Rightarrow> 'b content option list" where
  "disk_possible d p = dk_live d p # dk_stale d p"

definition disk_create :: "string \<Rightarrow> 'b disk \<Rightarrow> 'b disk" where
  "disk_create p d =
     d\<lparr> dk_live := (dk_live d)(p := Some Torn), dk_stale := (dk_stale d)(p := disk_possible d p) \<rparr>"

definition disk_write :: "string \<Rightarrow> 'b \<Rightarrow> 'b disk \<Rightarrow> 'b disk" where
  "disk_write p b d =
     d\<lparr> dk_live := (dk_live d)(p := Some (Data b)), dk_stale := (dk_stale d)(p := disk_possible d p) \<rparr>"

definition disk_sync :: "string \<Rightarrow> 'b disk \<Rightarrow> 'b disk" where
  "disk_sync p d = d\<lparr> dk_stale := (dk_stale d)(p := []) \<rparr>"

definition disk_rename :: "string \<Rightarrow> string \<Rightarrow> 'b disk \<Rightarrow> 'b disk" where
  "disk_rename src dst d =
     d\<lparr> dk_live := (dk_live d)(src := None, dst := dk_live d src),
        dk_stale := (dk_stale d)(dst := disk_possible d dst) \<rparr>"

definition disk_remove :: "string \<Rightarrow> 'b disk \<Rightarrow> 'b disk" where
  "disk_remove p d =
     d\<lparr> dk_live := (dk_live d)(p := None), dk_stale := (dk_stale d)(p := disk_possible d p) \<rparr>"

definition disk_sync_dir :: "string \<Rightarrow> 'b disk \<Rightarrow> 'b disk" where
  "disk_sync_dir p d = d\<lparr> dk_stale := (dk_stale d)(p := []) \<rparr>"

section \<open>Paths\<close>

text \<open>\<open>Path::parent\<close> filtered for a non-empty one, and \<open>Path::with_extension\<close>, on a path whose
  last component is a file name.\<close>

definition file_name :: "string \<Rightarrow> string" where
  "file_name p = rev (takeWhile (\<lambda>c. c \<noteq> CHR ''/'') (rev p))"

definition dir_part :: "string \<Rightarrow> string" where
  "dir_part p = rev (dropWhile (\<lambda>c. c \<noteq> CHR ''/'') (rev p))"

text \<open>The parent of \<open>/x\<close> is \<open>/\<close>, of \<open>a/x\<close> it is \<open>a\<close>, of \<open>x\<close> it is empty, which the code filters out.\<close>

definition path_parent :: "string \<Rightarrow> string option" where
  "path_parent p =
     (let d = dir_part p in if d = [] then None else if d = ''/'' then Some ''/'' else Some (butlast d))"

definition file_stem :: "string \<Rightarrow> string" where
  "file_stem n =
     (let r = dropWhile (\<lambda>c. c \<noteq> CHR ''.'') (rev n) in if length r \<le> 1 then n else rev (tl r))"

definition with_extension :: "string \<Rightarrow> string \<Rightarrow> string" where
  "with_extension p ext = dir_part p @ file_stem (file_name p) @ ''.'' @ ext"

section \<open>The write\<close>

datatype write_stage = Serialize | CreateDir | Create | Write | Sync | Rename | DirSync

fun stage_as_str :: "write_stage \<Rightarrow> string" where
  "stage_as_str Serialize = ''serialize''"
| "stage_as_str CreateDir = ''create_dir''"
| "stage_as_str Create = ''create''"
| "stage_as_str Write = ''write''"
| "stage_as_str Sync = ''sync''"
| "stage_as_str Rename = ''rename''"
| "stage_as_str DirSync = ''dirsync''"

datatype io_kind = NotFound | InvalidInput | Unsupported | OtherKind

text \<open>The outcome of each call: \<open>None\<close> is success. The open of the directory and its sync are one.\<close>

record io_results =
  io_create_dir :: "io_kind option"
  io_create :: "io_kind option"
  io_write :: "io_kind option"
  io_sync :: "io_kind option"
  io_rename :: "io_kind option"
  io_remove :: "io_kind option"
  io_dirsync :: "io_kind option"

definition io_ok :: io_results where
  "io_ok = \<lparr> io_create_dir = None, io_create = None, io_write = None, io_sync = None,
     io_rename = None, io_remove = None, io_dirsync = None \<rparr>"

text \<open>The closure that writes the temporary file and renames it over the target: the disk after
  each call, oldest first, and the error.\<close>

definition write_and_rename ::
  "string \<Rightarrow> string \<Rightarrow> 'b \<Rightarrow> io_results \<Rightarrow> 'b disk \<Rightarrow> 'b disk list \<times> (write_stage \<times> io_kind) option" where
  "write_and_rename tmp path bytes io d =
     (case io_create io of Some e \<Rightarrow> ([d], Some (Create, e))
      | None \<Rightarrow> let d1 = disk_create tmp d in
        case io_write io of Some e \<Rightarrow> ([d, d1], Some (Write, e))
      | None \<Rightarrow> let d2 = disk_write tmp bytes d1 in
        case io_sync io of Some e \<Rightarrow> ([d, d1, d2], Some (Sync, e))
      | None \<Rightarrow> let d3 = disk_sync tmp d2 in
        case io_rename io of Some e \<Rightarrow> ([d, d1, d2, d3], Some (Rename, e))
      | None \<Rightarrow> ([d, d1, d2, d3, disk_rename tmp path d3], None))"

definition write_file_durable ::
  "string \<Rightarrow> 'b \<Rightarrow> io_results \<Rightarrow> 'b disk \<Rightarrow> 'b disk list \<times> (write_stage \<times> io_kind) option" where
  "write_file_durable path bytes io d =
     (let parent = path_parent path in
      case (if parent = None then None else io_create_dir io) of
        Some e \<Rightarrow> ([d], Some (CreateDir, e))
      | None \<Rightarrow>
        let tmp = with_extension path ''tmp'';
            (trace, write) = write_and_rename tmp path bytes io d
        in case write of
             Some err \<Rightarrow>
               (trace @ (if io_remove io = None then [disk_remove tmp (last trace)] else []), Some err)
           | None \<Rightarrow>
             if parent = None then (trace, None)
             else case io_dirsync io of
               None \<Rightarrow> (trace @ [disk_sync_dir path (last trace)], None)
             | Some e \<Rightarrow>
               if e = InvalidInput \<or> e = Unsupported then (trace, None)
               else (trace, Some (DirSync, e)))"

text \<open>What the state file may hold after a crash during or after the write.\<close>

definition write_outcomes :: "string \<Rightarrow> 'b disk list \<Rightarrow> 'b content option set" where
  "write_outcomes path trace = (\<Union>d\<in>set trace. set (disk_possible d path))"

lemma disk_possible_other [simp]:
  "p \<noteq> q \<Longrightarrow> disk_possible (disk_create p d) q = disk_possible d q"
  "p \<noteq> q \<Longrightarrow> disk_possible (disk_write p b d) q = disk_possible d q"
  "p \<noteq> q \<Longrightarrow> disk_possible (disk_sync p d) q = disk_possible d q"
  "p \<noteq> q \<Longrightarrow> disk_possible (disk_remove p d) q = disk_possible d q"
  by (simp_all add: disk_possible_def disk_create_def disk_write_def disk_sync_def disk_remove_def)

lemma disk_possible_self [simp]:
  "disk_possible (disk_sync_dir p d) p = [dk_live d p]"
  "disk_possible (disk_rename src dst d) dst = dk_live d src # disk_possible d dst"
  by (simp_all add: disk_possible_def disk_sync_dir_def disk_rename_def)

lemma disk_live_simps [simp]:
  "dk_live (disk_sync p d) = dk_live d"
  "dk_live (disk_sync_dir p d) = dk_live d"
  "dk_live (disk_write p b d) p = Some (Data b)"
  "dk_live (disk_rename src dst d) dst = dk_live d src"
  by (simp_all add: disk_sync_def disk_sync_dir_def disk_write_def disk_rename_def)

lemma durable_write_core:
  assumes "with_extension path ''tmp'' \<noteq> path"
    and "write_file_durable path bytes io d = (trace, res)"
  shows "write_outcomes path trace \<subseteq> set (disk_possible d path) \<union> {Some (Data bytes)}
    \<and> (case res of
         Some (stage, _) \<Rightarrow>
           (if stage = DirSync then set (disk_possible (last trace) path)
              = set (disk_possible d path) \<union> {Some (Data bytes)}
            else disk_possible (last trace) path = disk_possible d path)
       | None \<Rightarrow>
           dk_live (last trace) path = Some (Data bytes)
           \<and> (path_parent path \<noteq> None \<and> io_dirsync io = None \<longrightarrow>
                disk_possible (last trace) path = [Some (Data bytes)]))
    \<and> trace \<noteq> []"
  using assms
  by (auto simp: write_file_durable_def write_and_rename_def Let_def write_outcomes_def
      split: option.splits if_splits prod.splits)

lemma durable_write_synced:
  assumes "write_file_durable path bytes io d = (trace, None)" and "path_parent path \<noteq> None"
    and "io_dirsync io \<noteq> Some InvalidInput" "io_dirsync io \<noteq> Some Unsupported"
  shows "io_dirsync io = None"
  using assms by (auto simp: write_file_durable_def Let_def split: option.splits prod.splits if_splits)



text \<open>C38: With a bare file name for the state file the write reports success although the
  directory was never synced: the content from before the write may come back after a power
  loss.\<close>

theorem bare_name_not_durable:
  assumes "path_parent path = None" and "with_extension path ''tmp'' \<noteq> path"
    and "io_create io = None" "io_write io = None" "io_sync io = None" "io_rename io = None"
  shows "snd (write_file_durable path bytes io d) = None
    \<and> dk_live d path \<in> set (disk_possible (last (fst (write_file_durable path bytes io d))) path)"
  using assms by (simp add: write_file_durable_def write_and_rename_def Let_def disk_possible_def
      disk_rename_def disk_sync_def disk_write_def disk_create_def)

lemma bare_name_not_durable_witness:
  "None \<in> set (disk_possible (last (fst (write_file_durable ''coulombs.json'' (7::int) io_ok
     \<lparr> dk_live = (\<lambda>_. None), dk_stale = (\<lambda>_. []) \<rparr>))) ''coulombs.json'')"
proof -
  have p: "path_parent ''coulombs.json'' = None"
    "with_extension ''coulombs.json'' ''tmp'' \<noteq> ''coulombs.json''"
    by code_simp+
  from bare_name_not_durable [OF p, of io_ok "7::int" "\<lparr> dk_live = (\<lambda>_. None), dk_stale = (\<lambda>_. []) \<rparr>"]
  show ?thesis by (simp add: io_ok_def)
qed

text \<open>C39: With a state file whose own extension is \<open>tmp\<close> the temporary file is the state file, and
  a power loss while it is being written leaves neither the old nor the new content.\<close>

theorem tmp_extension_torn:
  assumes "with_extension path ''tmp'' = path"
    and "io_create_dir io = None" "io_create io = None"
  shows "Some Torn \<in> write_outcomes path (fst (write_file_durable path bytes io d))"
  using assms
  by (auto simp: write_file_durable_def write_and_rename_def Let_def write_outcomes_def
      disk_possible_def disk_create_def split: option.splits)

lemma tmp_extension_torn_witness:
  "Some Torn \<in> write_outcomes ''/v/c.tmp'' (fst (write_file_durable ''/v/c.tmp'' (7::int) io_ok
     \<lparr> dk_live = (\<lambda>_. None), dk_stale = (\<lambda>_. []) \<rparr>))"
proof -
  have "with_extension ''/v/c.tmp'' ''tmp'' = ''/v/c.tmp''" by code_simp
  from tmp_extension_torn [OF this, of io_ok "7::int" "\<lparr> dk_live = (\<lambda>_. None), dk_stale = (\<lambda>_. []) \<rparr>"]
  show ?thesis by (simp add: io_ok_def)
qed

end
