(* ===== verification/Flush.thy ===== *)
theory Flush
  imports Metrics Durable_Write
begin

text \<open>
  The write-ahead of the counters (\<open>flush_coulomb_state\<close>, \<open>apply_pending\<close>, \<open>restore_coulombs\<close> of
  \<open>src/metrics.rs\<close>), one definition per phase, since the lock is released between them. The
  serializer \<open>ser\<close> and the parser \<open>de\<close> of the state file are \<open>serde_json\<close>'s and are arguments; the
  wall clock \<open>now_secs\<close> and the monotonic clock \<open>now\<close> are too.
\<close>

section \<open>Counters\<close>

text \<open>The nine persisted counters and the pending delta and persisted field of each.\<close>

fun pending_of :: "counter_family \<Rightarrow> pending \<Rightarrow> f64" where
  "pending_of Charge_amp_hours p = sp_charge (pd_ah p)"
| "pending_of Discharge_amp_hours p = sp_discharge (pd_ah p)"
| "pending_of Charge_watt_hours p = sp_charge (pd_wh p)"
| "pending_of Discharge_watt_hours p = sp_discharge (pd_wh p)"
| "pending_of Cal_charge_amp_hours p = sp_charge (pd_cal_ah p)"
| "pending_of Cal_discharge_amp_hours p = sp_discharge (pd_cal_ah p)"
| "pending_of Cal_charge_watt_hours p = sp_charge (pd_cal_wh p)"
| "pending_of Cal_discharge_watt_hours p = sp_discharge (pd_cal_wh p)"
| "pending_of Balance_amp_hours p = pd_balance_ah p"

fun entry_of :: "counter_family \<Rightarrow> coulomb_entry \<Rightarrow> f64" where
  "entry_of Charge_amp_hours e = e_charge_ah e"
| "entry_of Discharge_amp_hours e = e_discharge_ah e"
| "entry_of Charge_watt_hours e = e_charge_wh e"
| "entry_of Discharge_watt_hours e = e_discharge_wh e"
| "entry_of Cal_charge_amp_hours e = e_cal_charge_ah e"
| "entry_of Cal_discharge_amp_hours e = e_cal_discharge_ah e"
| "entry_of Cal_charge_watt_hours e = e_cal_charge_wh e"
| "entry_of Cal_discharge_watt_hours e = e_cal_discharge_wh e"
| "entry_of Balance_amp_hours e = e_balance_ah e"

definition counter_order :: "counter_family list" where
  "counter_order = [Charge_amp_hours, Discharge_amp_hours, Charge_watt_hours, Discharge_watt_hours,
     Cal_charge_amp_hours, Cal_discharge_amp_hours, Cal_charge_watt_hours,
     Cal_discharge_watt_hours, Balance_amp_hours]"

definition apply_device :: "'s prom_api \<Rightarrow> string \<times> pending \<Rightarrow> 's \<Rightarrow> 's" where
  "apply_device P = (\<lambda>(sn, p) s.
     let s = add_split P (Ct Charge_amp_hours) (Ct Discharge_amp_hours) sn (pd_ah p) s;
         s = add_split P (Ct Charge_watt_hours) (Ct Discharge_watt_hours) sn (pd_wh p) s;
         s = add_split P (Ct Cal_charge_amp_hours) (Ct Cal_discharge_amp_hours) sn (pd_cal_ah p) s;
         s = add_split P (Ct Cal_charge_watt_hours) (Ct Cal_discharge_watt_hours) sn (pd_cal_wh p) s
     in inc_if_positive P (Ct Balance_amp_hours) sn (pd_balance_ah p) s)"

definition apply_pending :: "'s prom_api \<Rightarrow> (string \<times> pending) list \<Rightarrow> 's \<Rightarrow> 's" where
  "apply_pending P snapshot s = fold (apply_device P) snapshot s"

section \<open>Phase 1: the payload\<close>

text \<open>\<open>with_label_values(..).get()\<close> of a counter plus its delta, nudged up by one ulp.\<close>

definition next_total :: "'s prom_api \<Rightarrow> string \<Rightarrow> pending \<Rightarrow> 's \<Rightarrow> counter_family \<Rightarrow> f64" where
  "next_total P sn p s f = bump_ulp (pm_get P (Ct f) [sn] s + pending_of f p)"

definition flush_row :: "'s prom_api \<Rightarrow> string \<Rightarrow> pending \<Rightarrow> 's \<Rightarrow> coulomb_entry" where
  "flush_row P sn p s =
     \<lparr> e_charge_ah = next_total P sn p s Charge_amp_hours,
       e_discharge_ah = next_total P sn p s Discharge_amp_hours,
       e_charge_wh = next_total P sn p s Charge_watt_hours,
       e_discharge_wh = next_total P sn p s Discharge_watt_hours,
       e_cal_charge_ah = next_total P sn p s Cal_charge_amp_hours,
       e_cal_discharge_ah = next_total P sn p s Cal_discharge_amp_hours,
       e_cal_charge_wh = next_total P sn p s Cal_charge_watt_hours,
       e_cal_discharge_wh = next_total P sn p s Cal_discharge_watt_hours,
       e_balance_ah = next_total P sn p s Balance_amp_hours \<rparr>"

definition touch_counters :: "'s prom_api \<Rightarrow> string \<Rightarrow> 's \<Rightarrow> 's" where
  "touch_counters P sn s = fold (\<lambda>f. pm_touch P (Ct f) [sn]) counter_order s"

fun flush_rows :: "'s prom_api \<Rightarrow> (string \<times> pending) list \<Rightarrow> coulomb_entry smap \<times> 's \<Rightarrow>
    coulomb_entry smap \<times> 's" where
  "flush_rows P [] (rows, s) = (rows, s)"
| "flush_rows P ((sn, p) # snapshot) (rows, s) =
     (let s = touch_counters P sn s
      in flush_rows P snapshot (sput sn (flush_row P sn p s) rows, s))"

definition record_write_error :: "'s prom_api \<Rightarrow> write_stage \<Rightarrow> 's metrics \<Rightarrow> 's metrics" where
  "record_write_error P stage m =
     m\<lparr> m_store := pm_inc P (Ex State_write_errors) [stage_as_str stage] 1 (m_store m) \<rparr>"

definition stamp_written :: "'s prom_api \<Rightarrow> f64 \<Rightarrow> 's metrics \<Rightarrow> 's metrics" where
  "stamp_written P now_secs m =
     m\<lparr> m_store := pm_set P (Ex State_last_write_timestamp) [] now_secs (m_store m) \<rparr>"

definition throttled :: "int \<Rightarrow> 's metrics \<Rightarrow> bool" where
  "throttled now m = (case sh_last_persist_at (m_shared m) of None \<Rightarrow> False
     | Some prev \<Rightarrow> max 0 (now - prev) < mo_state_min_interval (m_opts m))"

text \<open>The file's content for the snapshot taken: rows for every tracked device, and the
  calibrator's state.\<close>

definition flush_state :: "'s prom_api \<Rightarrow> 's metrics \<Rightarrow> coulomb_state \<times> 's" where
  "flush_state P m =
     (let (rows, s) = flush_rows P (fst (take_pending (m_shared m))) ([], m_store m)
      in (\<lparr> cs_devices = rows, cs_calibration = cal_snapshot (sh_calibrator (m_shared m)) \<rparr>, s))"

definition flush_phase1 ::
  "'s prom_api \<Rightarrow> (coulomb_state \<Rightarrow> 'b option) \<Rightarrow> bool \<Rightarrow> f64 \<Rightarrow> int \<Rightarrow> 's metrics \<Rightarrow>
   ('b \<times> (string \<times> pending) list) option \<times> 's metrics" where
  "flush_phase1 P ser force now_secs now m =
     (if sh_writing (m_shared m) then (None, m)
      else if \<not> force \<and> \<not> list_ex (\<lambda>(sn, e). has_pending e) (m_devices m)
      then (None, stamp_written P now_secs m)
      else if \<not> force \<and> throttled now m then (None, m)
      else let (snapshot, sh) = take_pending (m_shared m);
               (state, s) = flush_state P m
        in case ser state of
             Some bytes \<Rightarrow>
               (Some (bytes, snapshot), m\<lparr> m_shared := sh\<lparr> sh_writing := True \<rparr>, m_store := s \<rparr>)
           | None \<Rightarrow>
               (None, record_write_error P Serialize
                  (m\<lparr> m_shared := requeue_pending snapshot sh, m_store := s \<rparr>)))"

section \<open>Phase 3: the counters\<close>

definition flush_phase3 ::
  "'s prom_api \<Rightarrow> bool \<Rightarrow> (string \<times> pending) list \<Rightarrow> f64 \<Rightarrow> int \<Rightarrow> 's metrics \<Rightarrow> 's metrics" where
  "flush_phase3 P written snapshot now_secs now m =
     (let m = m\<lparr> m_shared := (m_shared m)\<lparr> sh_last_persist_at := Some now \<rparr> \<rparr>;
          m = (if written
               then stamp_written P now_secs (m\<lparr> m_store := apply_pending P snapshot (m_store m) \<rparr>)
               else m\<lparr> m_shared := requeue_pending snapshot (m_shared m) \<rparr>)
      in m\<lparr> m_shared := (m_shared m)\<lparr> sh_writing := False \<rparr> \<rparr>)"

section \<open>The whole flush\<close>

definition flush_unpersisted :: "'s prom_api \<Rightarrow> 's metrics \<Rightarrow> 's metrics" where
  "flush_unpersisted P m =
     (let (snapshot, sh) = take_pending (m_shared m)
      in m\<lparr> m_shared := sh, m_store := apply_pending P snapshot (m_store m) \<rparr>)"

text \<open>Phase 2, the write with the lock released: the outcome of the write and its trace on disk.\<close>

definition flush_phase2 ::
  "'s prom_api \<Rightarrow> string \<Rightarrow> 'b \<Rightarrow> io_results \<Rightarrow> 'b disk \<Rightarrow> 's metrics \<Rightarrow> bool \<times> 'b disk list \<times> 's metrics" where
  "flush_phase2 P path bytes io d m =
     (case write_file_durable path bytes io d of
        (trace, None) \<Rightarrow> (True, trace, m)
      | (trace, Some (stage, e)) \<Rightarrow> (False, trace, record_write_error P stage m))"

definition flush_coulomb_state ::
  "'s prom_api \<Rightarrow> (coulomb_state \<Rightarrow> 'b option) \<Rightarrow> bool \<Rightarrow> f64 \<Rightarrow> int \<Rightarrow> io_results \<Rightarrow> 's metrics \<times> 'b disk \<Rightarrow>
   's metrics \<times> 'b disk" where
  "flush_coulomb_state P ser force now_secs now io = (\<lambda>(m, d).
     case mo_coulomb_state_path (m_opts m) of None \<Rightarrow> (flush_unpersisted P m, d)
     | Some path \<Rightarrow>
       case flush_phase1 P ser force now_secs now m of
         (None, m) \<Rightarrow> (m, d)
       | (Some (bytes, snapshot), m) \<Rightarrow>
         case flush_phase2 P path bytes io d m of
           (written, trace, m) \<Rightarrow>
             (flush_phase3 P written snapshot now_secs now m, last trace))"

definition persist_coulombs ::
  "'s prom_api \<Rightarrow> (coulomb_state \<Rightarrow> 'b option) \<Rightarrow> f64 \<Rightarrow> int \<Rightarrow> io_results \<Rightarrow> 's metrics \<times> 'b disk \<Rightarrow>
   's metrics \<times> 'b disk" where
  "persist_coulombs P ser = flush_coulomb_state P ser True"

section \<open>Restore\<close>

definition parse_content :: "('b \<Rightarrow> coulomb_state option) \<Rightarrow> 'b content option \<Rightarrow> coulomb_state option" where
  "parse_content de c = (case c of Some (Data b) \<Rightarrow> de b | _ \<Rightarrow> None)"

definition restore_entry :: "'s prom_api \<Rightarrow> string \<Rightarrow> coulomb_entry \<Rightarrow> 's \<Rightarrow> 's" where
  "restore_entry P sn e s = fold (\<lambda>f. inc_if_positive P (Ct f) sn (entry_of f e)) counter_order s"

fun restore_devices ::
  "'s prom_api \<Rightarrow> nat \<Rightarrow> coulomb_entry smap \<Rightarrow> last_series smap \<times> 's \<Rightarrow> last_series smap \<times> 's" where
  "restore_devices P max_devices [] ds = ds"
| "restore_devices P max_devices ((sn, e) # rows) (devs, s) =
     restore_devices P max_devices rows
       (if max_devices \<noteq> 0 \<and> max_devices \<le> length devs then (devs, s)
        else (sput sn (sentry last_series_default sn devs) devs, restore_entry P sn e s))"

text \<open>\<open>restore_coulombs\<close>: the content read from the file is an argument, \<open>None\<close> for a missing or
  unreadable file; the freshness gauge is stamped first.\<close>

definition restore_coulombs ::
  "'s prom_api \<Rightarrow> ('b \<Rightarrow> coulomb_state option) \<Rightarrow> f64 \<Rightarrow> 'b content option \<Rightarrow> 's metrics \<Rightarrow> 's metrics" where
  "restore_coulombs P de now_secs file m =
     (if mo_coulomb_state_path (m_opts m) = None then m
      else let m = stamp_written P now_secs m
        in case parse_content de file of None \<Rightarrow> m
        | Some state \<Rightarrow>
          let (devs, s) = restore_devices P (mo_max_devices (m_opts m)) (cs_devices state)
                (m_devices m, m_store m);
              admitted = (\<lambda>sn. sn \<in> set (skeys devs))
          in m\<lparr> m_shared := (m_shared m)\<lparr> sh_devices := devs,
                 sh_calibrator := cal_restore (cs_calibration state) admitted
                   (sh_calibrator (m_shared m)) \<rparr>,
               m_store := s \<rparr>)"

end
