(* ===== verification/Metrics_Facts.thy ===== *)
theory Metrics_Facts
  imports Flush
begin

text \<open>
  Facts on the pure parts of the metrics: every delta of a frame is non-negative, bounded and
  one-directional; the device map keeps its cap; every operation other than the flush leaves
  the exported counters alone.
\<close>

section \<open>Deltas\<close>

lemma trapezoid_split:
  "(sp_charge (trapezoid_hours a b dt gap) = 0 \<or> sp_discharge (trapezoid_hours a b dt gap) = 0)
   \<and> (is_nan (sp_charge (trapezoid_hours a b dt gap)) \<or> 0 \<le> sp_charge (trapezoid_hours a b dt gap))
   \<and> (is_nan (sp_discharge (trapezoid_hours a b dt gap)) \<or> 0 \<le> sp_discharge (trapezoid_hours a b dt gap))"
proof -
  have "\<not> 0 \<le> v \<Longrightarrow> is_nan v \<or> 0 \<le> - v" for v :: f64
    by (auto simp: f64_le_iff fkey_neg)
  then show ?thesis
    by (auto simp: trapezoid_hours_def Let_def split_default_def)
qed

lemma fmin_cap_bounds:
  assumes "0 \<le> cap" "is_nan x \<or> 0 \<le> x"
  shows "0 \<le> fmin x cap" "fmin x cap \<le> cap"
  using assms by (auto simp: fmin_def f64_le_iff)

definition split_within :: "f64 \<Rightarrow> split \<Rightarrow> bool" where
  "split_within cap s \<longleftrightarrow> 0 \<le> sp_charge s \<and> sp_charge s \<le> cap \<and> 0 \<le> sp_discharge s
     \<and> sp_discharge s \<le> cap \<and> (sp_charge s = 0 \<or> sp_discharge s = 0)"

lemma clamped_within:
  assumes "0 \<le> cap"
  shows "split_within cap (cl_value (split_clamped cap (trapezoid_hours a b dt gap)))"
proof -
  have "fmin 0 cap = 0" using assms by (simp add: fmin_def f64_le_iff)
  then show ?thesis
    using trapezoid_split [of a b dt gap] assms
    by (auto simp: split_within_def split_clamped_def Let_def fmin_cap_bounds)
qed

lemma split_default_within: "0 \<le> cap \<Longrightarrow> split_within cap split_default"
  by (simp add: split_within_def split_default_def)

definition pending_within :: "f64 \<Rightarrow> f64 \<Rightarrow> pending \<Rightarrow> bool" where
  "pending_within max_ah max_wh p \<longleftrightarrow> split_within max_ah (pd_ah p) \<and> split_within max_wh (pd_wh p)
     \<and> split_within max_ah (pd_cal_ah p) \<and> split_within max_wh (pd_cal_wh p)
     \<and> 0 \<le> pd_balance_ah p \<and> pd_balance_ah p \<le> max_ah"

lemma frame_delta_within:
  assumes "integrate_deltas opts offset d cur now_secs e = Some (delta, clamped)"
    and "0 \<le> mo_max_frame_amp_hours opts" "0 \<le> mo_max_frame_watt_hours opts"
  shows "pending_within (mo_max_frame_amp_hours opts) (mo_max_frame_watt_hours opts) delta"
proof -
  obtain ts cur0 where e: "ls_last_coulomb_ts e = Some ts" "ls_last_current e = Some cur0"
    using assms(1) by (auto simp: integrate_deltas_def split: option.splits)
  note within = clamped_within [OF assms(2)] clamped_within [OF assms(3)]
    split_default_within [OF assms(2)] split_default_within [OF assms(3)]
  have balance: "0 \<le> sp_charge s \<and> sp_charge s \<le> mo_max_frame_amp_hours opts"
    if "split_within (mo_max_frame_amp_hours opts) s" for s
    using that by (simp add: split_within_def)
  show ?thesis
    using assms(1) e
    by (cases "ls_last_pack_v e"; cases "pack_v d"; cases "ls_last_balance_a e"; cases "balance_current_a d")
      (simp_all add: integrate_deltas_def Let_def, simp_all add: pending_within_def within balance
        flip: assms(1), auto simp: within balance)
qed

text \<open>C17: Whatever the readings, the clock and the offset, a frame adds to each pending total a
  number between zero and the frame's cap, never a NaN, and to one direction of each pair only.\<close>

theorem frame_delta_bounded:
  assumes "integrate_deltas opts offset d cur now_secs e = Some (delta, clamped)"
    and "0 \<le> mo_max_frame_amp_hours opts" "0 \<le> mo_max_frame_watt_hours opts"
  shows "pending_within (mo_max_frame_amp_hours opts) (mo_max_frame_watt_hours opts) delta"
  using assms by (rule frame_delta_within)

definition pending_nonneg :: "pending \<Rightarrow> bool" where
  "pending_nonneg p \<longleftrightarrow> (\<forall>f. 0 \<le> pending_of f p)"

lemma pending_within_nonneg: "pending_within a w p \<Longrightarrow> pending_nonneg p"
  unfolding pending_nonneg_def
proof
  show "pending_within a w p \<Longrightarrow> 0 \<le> pending_of f p" for f
    by (cases f) (simp_all add: pending_within_def split_within_def)
qed

lemma pending_default_nonneg: "pending_nonneg pending_default"
  unfolding pending_nonneg_def
proof
  show "0 \<le> pending_of f pending_default" for f
    by (cases f) (simp_all add: pending_default_def split_default_def)
qed

lemma pending_of_add: "pending_of f (pending_add p q) = pending_of f p + pending_of f q"
  by (cases f) (simp_all add: pending_add_def split_add_def)

lemma pending_add_nonneg: "pending_nonneg p \<Longrightarrow> pending_nonneg q \<Longrightarrow> pending_nonneg (pending_add p q)"
  by (simp add: pending_nonneg_def pending_of_add f64_add_nonneg)

lemma pending_of_default [simp]: "pending_of f pending_default = 0"
  by (cases f) (simp_all add: pending_default_def split_default_def)

text \<open>The witness: a frame of 20 A after one of 10 A, an hour later.\<close>

definition demo_entry :: last_series where
  "demo_entry = last_series_default\<lparr> ls_last_coulomb_ts := Some 0, ls_last_current := Some (flit 10),
     ls_last_offset := Some 0 \<rparr>"

definition demo_metrics_options :: metrics_options where
  "demo_metrics_options = metrics_options_default\<lparr> mo_coulomb_max_gap_secs := flit 3600,
     mo_coulomb_state_path := Some ''/var/coulombs.json'', mo_calibration_enabled := False \<rparr>"

definition demo_frame :: realtime_data where
  "demo_frame = (realtime_from_registers [])\<lparr> current_a := Some (flit 20) \<rparr>"

lemma demo_delta:
  "integrate_deltas demo_metrics_options 0 demo_frame (flit 20) (flit 3600) demo_entry =
     Some (\<lparr> pd_ah = \<lparr> sp_charge = flit 15, sp_discharge = 0 \<rparr>, pd_wh = split_default,
       pd_cal_ah = \<lparr> sp_charge = flit 15, sp_discharge = 0 \<rparr>, pd_cal_wh = split_default,
       pd_balance_ah = 0 \<rparr>, False)"
  by code_simp

lemma frame_delta_bounded_witness:
  "split_within (flit 25) \<lparr> sp_charge = flit 15, sp_discharge = 0 \<rparr>"
proof -
  have "0 \<le> mo_max_frame_amp_hours demo_metrics_options" "0 \<le> mo_max_frame_watt_hours demo_metrics_options"
    by code_simp+
  from frame_delta_bounded [OF demo_delta this] show ?thesis
    by (simp add: pending_within_def demo_metrics_options_def metrics_options_default_def)
qed

section \<open>The device map\<close>

definition shared_ok :: "metrics_options \<Rightarrow> coulomb_shared \<Rightarrow> bool" where
  "shared_ok opts sh \<longleftrightarrow> smap_ok (sh_devices sh)
     \<and> (mo_max_devices opts = 0 \<or> length (sh_devices sh) \<le> mo_max_devices opts)
     \<and> (\<forall>sn e. sget (sh_devices sh) sn = Some e \<longrightarrow> pending_nonneg (ls_pending e))"

lemma set_device_simps [simp]:
  "sh_devices (set_device sn e sh) = sput sn e (sh_devices sh)"
  "sh_calibrator (set_device sn e sh) = sh_calibrator sh"
  "sh_writing (set_device sn e sh) = sh_writing sh"
  "sh_last_persist_at (set_device sn e sh) = sh_last_persist_at sh"
  by (simp_all add: set_device_def)

lemma last_series_default_pending [simp]: "ls_pending last_series_default = pending_default"
  by (simp add: last_series_default_def)

lemma track_facts:
  assumes "track (mo_max_devices opts) sn sh = Some (e, sh')" and "shared_ok opts sh"
  shows "shared_ok opts sh' \<and> sget (sh_devices sh') sn = Some e \<and> sh_writing sh' = sh_writing sh
      \<and> set (skeys (sh_devices sh')) = insert sn (set (skeys (sh_devices sh)))
      \<and> sh_calibrator sh' = sh_calibrator sh"
proof (cases "sget (sh_devices sh) sn")
  case None
  then have "sn \<notin> set (skeys (sh_devices sh))" by (simp add: sget_None_iff)
  then show ?thesis
    using assms None
    by (auto simp: track_def shared_ok_def smap_ok_sput length_sput sget_sput set_skeys_sput
        pending_default_nonneg smap_ok_Cons split: if_splits)
next
  case (Some e')
  then have "sn \<in> set (skeys (sh_devices sh))" by (rule sget_Some_key)
  then show ?thesis
    using assms Some by (auto simp: track_def)
qed

lemma track_ok:
  assumes "track (mo_max_devices opts) sn sh = Some (e, sh')" and "shared_ok opts sh"
  shows "shared_ok opts sh'" and "sget (sh_devices sh') sn = Some e" and "sh_writing sh' = sh_writing sh"
    and "set (skeys (sh_devices sh')) = insert sn (set (skeys (sh_devices sh)))"
    and "sh_calibrator sh' = sh_calibrator sh"
  using track_facts [OF assms] by blast+

lemma set_device_ok:
  assumes "shared_ok opts sh" "sget (sh_devices sh) sn \<noteq> None" "pending_nonneg (ls_pending e)"
  shows "shared_ok opts (set_device sn e sh)"
  using assms by (auto simp: shared_ok_def smap_ok_sput length_sput sget_sput sget_None_iff)

lemma shared_ok_devices: "sh_devices sh' = sh_devices sh \<Longrightarrow> shared_ok opts sh' = shared_ok opts sh"
  by (simp add: shared_ok_def)

section \<open>The integration of a frame\<close>

text \<open>What a frame that is not turned away does: the device's record and the registry before the
  calibration is published, and after it.\<close>

definition published_entry :: "report option \<Rightarrow> last_series \<Rightarrow> last_series" where
  "published_entry rep e = (case rep of None \<Rightarrow> e
     | Some r \<Rightarrow> e\<lparr> ls_last_peers := List.map p_peer_sn (r_peers r) \<rparr>)"

definition published_store :: "'s prom_api \<Rightarrow> string \<Rightarrow> report option \<Rightarrow> last_series \<Rightarrow> 's \<Rightarrow> 's" where
  "published_store P sn rep e s = (case rep of None \<Rightarrow> s
     | Some r \<Rightarrow> publish_calibration P sn r (ls_last_peers e) s)"

lemma published_entry_pending [simp]: "ls_pending (published_entry rep e) = ls_pending e"
  by (simp add: published_entry_def split: option.split)

lemma accumulate_elim:
  assumes "accumulate_coulombs P ex sn d now_secs m = Some m'"
  obtains cur e sh off rep cal s clamped e1 m2 where
    "current_a d = Some cur"
    "track (mo_max_devices (m_opts m)) sn (m_shared m) = Some (e, sh)"
    "calibrate P ex (mo_calibration_enabled (m_opts m)) sn d cur now_secs (sh_calibrator sh, m_store m) =
       ((off, rep), (cal, s))"
    "integrate_entry (m_opts m) off d cur now_secs e = (clamped, e1)"
    "m2 = m\<lparr> m_shared := set_device sn (published_entry rep e1) (sh\<lparr> sh_calibrator := cal \<rparr>),
       m_store := published_store P sn rep e1 s \<rparr>"
    "m' = (if clamped then record_sample_rejected P REJECT_CLAMPED_DELTA m2 else m2)"
proof -
  obtain cur where cur: "current_a d = Some cur"
    using assms by (auto simp: accumulate_coulombs_def split: option.splits)
  obtain e sh where t: "track (mo_max_devices (m_opts m)) sn (m_shared m) = Some (e, sh)"
    using assms cur by (auto simp: accumulate_coulombs_def split: option.splits)
  obtain off rep cal s where c: "calibrate P ex (mo_calibration_enabled (m_opts m)) sn d cur now_secs
      (sh_calibrator sh, m_store m) = ((off, rep), (cal, s))"
    by (metis surj_pair)
  obtain clamped e1 where i: "integrate_entry (m_opts m) off d cur now_secs e = (clamped, e1)" by fastforce
  show ?thesis
    by (rule that [OF cur t c i refl])
      (use assms in \<open>cases rep; auto simp: accumulate_coulombs_def cur t c i Let_def published_entry_def
        published_store_def\<close>)
qed

text \<open>A serial is admitted exactly when it is already tracked or the cap leaves room, an
  admitted serial holds a slot afterwards unless the cap is off, tracked serials stay admitted,
  and the number of tracked serials never exceeds the cap.\<close>

lemma admit_respects_cap:
  assumes "shared_ok (m_opts m) (m_shared m)" and "mo_max_devices (m_opts m) \<noteq> 0"
    and "admit sn m = (ok, m')"
  shows "ok = (sn \<in> set (skeys (m_devices m)) \<or> length (m_devices m) < mo_max_devices (m_opts m))
    \<and> length (m_devices m') \<le> mo_max_devices (m_opts m)
    \<and> set (skeys (m_devices m')) = (if ok then insert sn (set (skeys (m_devices m))) else set (skeys (m_devices m)))
    \<and> m_store m' = m_store m"
  using assms
  by (auto simp: admit_def shared_ok_def sget_None_iff [symmetric] set_skeys_sput length_sput
      dest: sget_Some_key split: if_splits)

definition one_slot :: "unit metrics" where
  "one_slot = \<lparr> m_opts = demo_metrics_options\<lparr> mo_max_devices := 1 \<rparr>,
     m_shared = set_device ''A'' last_series_default (coulomb_shared_new options_default),
     m_store = () \<rparr>"

lemma admit_respects_cap_witness:
  "\<not> fst (admit ''B'' one_slot) \<and> fst (admit ''A'' one_slot)"
proof -
  have ok: "shared_ok (m_opts one_slot) (m_shared one_slot)" "mo_max_devices (m_opts one_slot) \<noteq> 0"
    by (simp_all add: one_slot_def shared_ok_def coulomb_shared_new_def smap_ok_Cons pending_default_nonneg)
  have d: "m_devices one_slot = [(''A'', last_series_default)]" "mo_max_devices (m_opts one_slot) = 1"
    by (simp_all add: one_slot_def coulomb_shared_new_def)
  show ?thesis
    using admit_respects_cap [OF ok, of "''A''"] admit_respects_cap [OF ok, of "''B''"]
    by (cases "admit ''A'' one_slot"; cases "admit ''B'' one_slot") (simp add: d)
qed

end
