(* ===== verification/Store_Facts.thy ===== *)
theory Store_Facts
  imports Metrics_Facts
begin

text \<open>
  What the operations do to the registry, proved from the laws of the \<open>prometheus\<close> crate: only
  the flush moves the counters; applying a snapshot adds each delta to its counter; a row of
  the state file dominates the counters it was computed from; a restored counter is the value
  of its row.
\<close>

section \<open>The families an operation writes\<close>

definition counter_value :: "'s prom_api \<Rightarrow> 's \<Rightarrow> counter_family \<Rightarrow> string \<Rightarrow> f64" where
  "counter_value P s f sn = (case pm_sample P s (Ct f) [sn] of None \<Rightarrow> 0 | Some v \<Rightarrow> v)"

definition same_counters :: "'s prom_api \<Rightarrow> 's \<Rightarrow> 's \<Rightarrow> bool" where
  "same_counters P s s' \<longleftrightarrow> (\<forall>f sn. counter_value P s' f sn = counter_value P s f sn)"

lemma same_counters_refl [simp]: "same_counters P s s"
  by (simp add: same_counters_def)

lemma same_counters_trans [trans]:
  "same_counters P s s' \<Longrightarrow> same_counters P s' s'' \<Longrightarrow> same_counters P s s''"
  by (simp add: same_counters_def)

lemma same_counters_fold:
  "same_counters P s t \<Longrightarrow> (\<And>x u. same_counters P u (g x u)) \<Longrightarrow> same_counters P s (fold g xs t)"
proof (induction xs arbitrary: t)
  case (Cons x xs)
  from Cons.prems(1) Cons.prems(2) [of t x] have "same_counters P s (g x t)"
    by (rule same_counters_trans)
  then show ?case using Cons by simp
qed simp

text \<open>
  The frame of an operation: the families \<open>W\<close> it may write and the families \<open>T\<close> in which
  \<open>with_label_values\<close> alone may create a series at zero. Every other series is untouched.
\<close>

definition series_value :: "'s prom_api \<Rightarrow> 's \<Rightarrow> family \<Rightarrow> string list \<Rightarrow> f64" where
  "series_value P s g ls = (case pm_sample P s g ls of None \<Rightarrow> 0 | Some v \<Rightarrow> v)"

definition writes :: "'s prom_api \<Rightarrow> family set \<Rightarrow> family set \<Rightarrow> 's \<Rightarrow> 's \<Rightarrow> bool" where
  "writes P W T s s' \<longleftrightarrow>
     (\<forall>g ls. g \<notin> W \<longrightarrow> series_value P s' g ls = series_value P s g ls)
   \<and> (\<forall>g ls. g \<notin> W \<union> T \<longrightarrow> pm_sample P s' g ls = pm_sample P s g ls)"

text \<open>Where a series that is missing and one at zero make no difference.\<close>

abbreviation only :: "'s prom_api \<Rightarrow> family set \<Rightarrow> 's \<Rightarrow> 's \<Rightarrow> bool" where
  "only P W \<equiv> writes P W UNIV"

lemma writesD:
  "writes P W T s s' \<Longrightarrow> g \<notin> W \<Longrightarrow> series_value P s' g ls = series_value P s g ls"
  "writes P W T s s' \<Longrightarrow> g \<notin> W \<Longrightarrow> g \<notin> T \<Longrightarrow> pm_sample P s' g ls = pm_sample P s g ls"
  by (simp_all add: writes_def)

lemma writes_refl [simp, intro]: "writes P W T s s"
  by (simp add: writes_def)

lemma writes_trans [trans]: "writes P W T s s' \<Longrightarrow> writes P W T s' s'' \<Longrightarrow> writes P W T s s''"
  by (simp add: writes_def)

lemma writes_mono: "writes P W T s s' \<Longrightarrow> W \<subseteq> V \<Longrightarrow> T \<subseteq> V \<union> U \<Longrightarrow> writes P V U s s'"
  by (auto simp: writes_def)

lemma writes_fold:
  "writes P W T s t \<Longrightarrow> (\<And>x u. writes P W T u (g x u)) \<Longrightarrow> writes P W T s (fold g xs t)"
proof (induction xs arbitrary: t)
  case (Cons x xs)
  from Cons.prems(1) Cons.prems(2) [of t x] have "writes P W T s (g x t)"
    by (rule writes_trans)
  then show ?case using Cons by simp
qed simp

lemma writes_same_counters: "writes P W T s s' \<Longrightarrow> (\<And>f. Ct f \<notin> W) \<Longrightarrow> same_counters P s s'"
  by (simp add: writes_def same_counters_def counter_value_def series_value_def)

context prometheus
begin

text \<open>Each rule extends a chain of operations by one inside the frame.\<close>

lemma writes_set: "g \<in> W \<Longrightarrow> writes P W T s t \<Longrightarrow> writes P W T s (pm_set P g ls v t)"
  by (auto simp: writes_def series_value_def sample_set)

lemma writes_inc: "g \<in> W \<Longrightarrow> writes P W T s t \<Longrightarrow> writes P W T s (pm_inc P g ls v t)"
  by (auto simp: writes_def series_value_def sample_inc)

lemma writes_remove: "g \<in> W \<Longrightarrow> writes P W T s t \<Longrightarrow> writes P W T s (pm_remove P g ls t)"
  by (auto simp: writes_def series_value_def sample_remove)

lemma value_touch: "series_value P (pm_touch P g ls t) h ms = series_value P t h ms"
  by (auto simp: series_value_def sample_touch)

lemma writes_touch: "g \<in> T \<Longrightarrow> writes P W T s t \<Longrightarrow> writes P W T s (pm_touch P g ls t)"
  by (auto simp: writes_def value_touch sample_touch)

lemma writes_set_gauge: "g \<in> W \<Longrightarrow> writes P W T s t \<Longrightarrow> writes P W T s (set_gauge P g sn v t)"
  by (simp add: set_gauge_def writes_set split: option.split)

lemma writes_set_int_gauge:
  "g \<in> W \<Longrightarrow> writes P W T s t \<Longrightarrow> writes P W T s (set_int_gauge P g sn v t)"
  by (simp add: set_int_gauge_def writes_set split: option.split)

lemma writes_set_limit: "g \<in> W \<Longrightarrow> writes P W T s t \<Longrightarrow> writes P W T s (set_limit P g sn v t)"
  by (simp add: set_limit_def Let_def writes_set split: option.split)

lemma writes_inc_if_positive: "g \<in> W \<Longrightarrow> writes P W T s t \<Longrightarrow> writes P W T s (inc_if_positive P g sn v t)"
  by (simp add: inc_if_positive_def writes_inc)

lemmas writes_intros = writes_set writes_inc writes_remove writes_touch writes_set_gauge writes_set_int_gauge
  writes_set_limit writes_inc_if_positive writes_fold

lemma writes_realtime_gauges:
  "(\<And>k. k \<noteq> Cell_voltage \<Longrightarrow> k \<noteq> Temperature \<Longrightarrow> Rt k \<in> W) \<Longrightarrow>
   writes P W T s t \<Longrightarrow> writes P W T s (realtime_gauges P sn d t)"
  unfolding realtime_gauges_def Let_def by (intro writes_intros) simp_all

lemma writes_config_gauges:
  "(\<And>k. k \<noteq> Device_info \<Longrightarrow> Cf k \<in> W) \<Longrightarrow>
   writes P W T s t \<Longrightarrow> writes P W T s (config_gauges P sn d t)"
  unfolding config_gauges_def Let_def by (intro writes_intros) simp_all

lemma writes_alarm_gauges:
  "Rt Alarm \<in> W \<Longrightarrow> Rt Alarm_bits \<in> W \<Longrightarrow>
   writes P W T s t \<Longrightarrow> writes P W T s (alarm_gauges P sn bits t)"
  unfolding alarm_gauges_def
  by (cases bits) (auto simp: split_beta intro!: writes_intros)

lemma writes_sync_indexed:
  "g \<in> W \<Longrightarrow> writes P W T s t \<Longrightarrow> writes P W T s (snd (sync_indexed P g sn prev cur t))"
  unfolding sync_indexed_def Let_def by (auto simp: split_beta intro!: writes_intros)

lemma writes_publish:
  "(\<And>k. Cal k \<in> W) \<Longrightarrow> writes P W T s t \<Longrightarrow> writes P W T s (publish_calibration P sn r stale t)"
  unfolding publish_calibration_def Let_def
  by (auto simp: peer_families_def intro!: writes_intros)

lemma writes_device_info:
  "Cf Device_info \<in> W \<Longrightarrow> writes P W T s t \<Longrightarrow> writes P W T s (snd (set_device_info P e labels t))"
  unfolding set_device_info_def Let_def
  by (auto split: option.split intro!: writes_intros)

lemma writes_capacity_hint: "Cf Rated_capacity \<in> T \<Longrightarrow> writes P W T s t \<Longrightarrow> writes P W T s (snd (rated_capacity_hint P sn t))"
  unfolding rated_capacity_hint_def Let_def by (auto intro!: writes_touch)

lemma writes_admit: "writes P W T (m_store m) (m_store (snd (admit sn m)))"
  by (simp add: admit_def)

lemma writes_update_realtime: "writes P (range Rt) {} (m_store m) (m_store (update_realtime P sn d m))"
proof (cases "track (mo_max_devices (m_opts m)) sn (m_shared m)")
  case (Some es)
  obtain e sh where es: "es = (e, sh)" by fastforce
  obtain i1 s1 where s1: "sync_indexed P (Rt Cell_voltage) sn (ls_cells e) (cells_v d) (m_store m) = (i1, s1)"
    by fastforce
  obtain i2 s2 where s2: "sync_indexed P (Rt Temperature) sn (ls_sensors e) (temps_c d) s1 = (i2, s2)"
    by fastforce
  have "writes P (range Rt) {} (m_store m) s1"
    using writes_sync_indexed [OF _ writes_refl, where g = "Rt Cell_voltage" and W = "range Rt"] by (metis s1 snd_conv rangeI)
  then have "writes P (range Rt) {} (m_store m) s2"
    using writes_sync_indexed [where g = "Rt Temperature" and W = "range Rt" and s = "m_store m" and t = s1] by (metis s2 snd_conv rangeI)
  then show ?thesis
    using Some es s1 s2 by (simp add: update_realtime_def writes_alarm_gauges writes_realtime_gauges Let_def)
qed (simp add: update_realtime_def)

lemma writes_update_config: "writes P (range Cf) {} (m_store m) (m_store (update_config P sn c m))"
proof -
  have g: "writes P (range Cf) {} (m_store m) (config_gauges P sn c (m_store m))"
    by (rule writes_config_gauges) simp_all
  show ?thesis
    using g writes_device_info [OF _ g]
    by (auto simp: update_config_def Let_def split_beta split: option.split)
qed

lemma writes_mark_seen: "writes P {Ex Last_frame_timestamp} {} (m_store m) (m_store (mark_seen P sn t m))"
  by (simp add: mark_seen_def writes_set)

lemma writes_records:
  "writes P {Ex Http_requests} {} (m_store m) (m_store (record_request P endpoint status m))"
  "writes P {Ex Frames_decoded} {} (m_store m) (m_store (record_decoded P block_name m))"
  "writes P {Ex Frames_dropped} {} (m_store m) (m_store (record_dropped P reason m))"
  "writes P {Ex Coulomb_samples_rejected} {} (m_store m) (m_store (record_sample_rejected P reason m))"
  "writes P {Ex State_write_errors} {} (m_store m) (m_store (record_write_error P stage m))"
  "writes P {Ex State_last_write_timestamp} {} (m_store m) (m_store (stamp_written P now m))"
  by (simp_all add: record_request_def record_decoded_def record_dropped_def
      record_sample_rejected_def record_write_error_def stamp_written_def writes_inc writes_set)

lemma writes_calibrate:
  "calibrate P ex enabled sn d cur now (cal, s) = (r, (cal', s')) \<Longrightarrow> writes P W {Cf Rated_capacity} s s'"
  using writes_capacity_hint [of "{Cf Rated_capacity}" W s s sn]
  by (auto simp: calibrate_def split: if_splits prod.splits)

lemma writes_accumulate:
  assumes "accumulate_coulombs P ex sn d now m = Some m'"
  shows "writes P (range Cal \<union> {Ex Coulomb_samples_rejected}) {Cf Rated_capacity} (m_store m) (m_store m')"
  using assms
proof (rule accumulate_elim)
  fix cur e sh off rep cal s clamped e1 m2
  let ?W = "range Cal \<union> {Ex Coulomb_samples_rejected}"
  assume c: "calibrate P ex (mo_calibration_enabled (m_opts m)) sn d cur now (sh_calibrator sh, m_store m) =
      ((off, rep), (cal, s))"
    and m2: "m2 = m\<lparr> m_shared := set_device sn (published_entry rep e1) (sh\<lparr> sh_calibrator := cal \<rparr>),
      m_store := published_store P sn rep e1 s \<rparr>"
    and m': "m' = (if clamped then record_sample_rejected P REJECT_CLAMPED_DELTA m2 else m2)"
  have s: "writes P ?W {Cf Rated_capacity} (m_store m) s" by (rule writes_calibrate [OF c])
  then have "writes P ?W {Cf Rated_capacity} (m_store m) (published_store P sn rep e1 s)"
    by (auto simp: published_store_def intro!: writes_publish split: option.split)
  then show ?thesis by (simp add: m' m2 record_sample_rejected_def writes_inc)
qed

text \<open>No operation before the flush moves a counter.\<close>

lemma same_set: "(\<And>f. g \<noteq> Ct f) \<Longrightarrow> same_counters P s t \<Longrightarrow> same_counters P s (pm_set P g ls v t)"
  by (auto simp: same_counters_def counter_value_def sample_set)

lemma same_inc: "(\<And>f. g \<noteq> Ct f) \<Longrightarrow> same_counters P s t \<Longrightarrow> same_counters P s (pm_inc P g ls v t)"
  by (auto simp: same_counters_def counter_value_def sample_inc)

lemma same_touch: "same_counters P s t \<Longrightarrow> same_counters P s (pm_touch P g ls t)"
  using value_touch [of g ls t] by (simp add: same_counters_def counter_value_def series_value_def)

lemma same_admit: "same_counters P (m_store m) (m_store (snd (admit sn m)))"
  by (rule writes_same_counters [OF writes_admit [of "{}" "{}"]]) simp

lemma same_update_realtime: "same_counters P (m_store m) (m_store (update_realtime P sn d m))"
  by (rule writes_same_counters [OF writes_update_realtime]) auto

lemma same_update_config: "same_counters P (m_store m) (m_store (update_config P sn c m))"
  by (rule writes_same_counters [OF writes_update_config]) auto

lemma same_mark_seen: "same_counters P (m_store m) (m_store (mark_seen P sn t m))"
  by (rule writes_same_counters [OF writes_mark_seen]) simp

lemma same_records:
  "same_counters P (m_store m) (m_store (record_request P endpoint status m))"
  "same_counters P (m_store m) (m_store (record_decoded P block_name m))"
  "same_counters P (m_store m) (m_store (record_dropped P reason m))"
  "same_counters P (m_store m) (m_store (record_sample_rejected P reason m))"
  "same_counters P (m_store m) (m_store (record_write_error P stage m))"
  "same_counters P (m_store m) (m_store (stamp_written P now m))"
  by (rule writes_same_counters, rule writes_records, simp)+

lemma same_accumulate:
  "accumulate_coulombs P ex sn d now m = Some m' \<Longrightarrow> same_counters P (m_store m) (m_store m')"
  by (rule writes_same_counters [OF writes_accumulate]) auto

section \<open>Applying a snapshot\<close>

lemma counter_inc_if_positive:
  assumes "0 \<le> v"
  shows "counter_value P (inc_if_positive P (Ct g) k v s) f sn =
    counter_value P s f sn + (if f = g \<and> sn = k then v else 0)"
proof (cases "0 < v")
  case False
  then have "v = 0" using assms by (simp add: f64_antisym f64_not_less f64_le_not_nan)
  then show ?thesis by (simp add: inc_if_positive_def)
qed (auto simp: inc_if_positive_def counter_value_def sample_inc)

lemma counter_apply_device:
  assumes "pending_nonneg p"
  shows "counter_value P (apply_device P (k, p) s) f sn =
    counter_value P s f sn + (if sn = k then pending_of f p else 0)"
proof -
  have nn: "0 \<le> pending_of g p" for g using assms by (simp add: pending_nonneg_def)
  note n = nn [of Charge_amp_hours] nn [of Discharge_amp_hours] nn [of Charge_watt_hours]
    nn [of Discharge_watt_hours] nn [of Cal_charge_amp_hours] nn [of Cal_discharge_amp_hours]
    nn [of Cal_charge_watt_hours] nn [of Cal_discharge_watt_hours] nn [of Balance_amp_hours]
  show ?thesis
    using n by (cases f) (simp_all add: apply_device_def add_split_def counter_inc_if_positive)
qed

lemma counter_apply_pending:
  assumes "\<forall>(k, p)\<in>set snap. pending_nonneg p" and "distinct (List.map fst snap)"
  shows "counter_value P (apply_pending P snap s) f sn =
    counter_value P s f sn + (case map_of snap sn of None \<Rightarrow> 0 | Some p \<Rightarrow> pending_of f p)"
  using assms
proof (induction snap arbitrary: s)
  case (Cons kp snap)
  obtain k p where kp: "kp = (k, p)" by fastforce
  have k: "map_of snap k = None" using Cons.prems(2) by (simp add: kp map_of_eq_None_iff)
  have "counter_value P (apply_pending P snap (apply_device P kp s)) f sn =
      counter_value P (apply_device P kp s) f sn
      + (case map_of snap sn of None \<Rightarrow> 0 | Some p \<Rightarrow> pending_of f p)"
    using Cons by simp
  then show ?case
    using Cons.prems(1) k by (auto simp: apply_pending_def kp counter_apply_device)
qed (simp add: apply_pending_def)

section \<open>Rows of the state file\<close>

lemma same_touch_counters: "same_counters P s t \<Longrightarrow> same_counters P s (touch_counters P sn t)"
  unfolding touch_counters_def by (intro same_counters_fold) (auto intro: same_touch)

lemma get_counter: "pm_get P (Ct f) [sn] s = counter_value P s f sn"
  by (simp add: get_sample counter_value_def)

lemma entry_flush_row: "entry_of f (flush_row P sn p s) = bump_ulp (counter_value P s f sn + pending_of f p)"
  by (cases f) (simp_all add: flush_row_def next_total_def get_counter)

lemma flush_rows_facts:
  assumes "flush_rows P snap (rows, s) = (rows', s')" and "distinct (List.map fst snap)"
  shows "same_counters P s s' \<and> (smap_ok rows \<longrightarrow> smap_ok rows')
    \<and> set (skeys rows') = set (skeys rows) \<union> fst ` set snap
    \<and> (\<forall>f sn. map_option (entry_of f) (sget rows' sn) =
        (case map_of snap sn of None \<Rightarrow> map_option (entry_of f) (sget rows sn)
         | Some p \<Rightarrow> Some (bump_ulp (counter_value P s f sn + pending_of f p))))"
  using assms
proof (induction snap arbitrary: rows s)
  case (Cons kp snap)
  obtain k p where kp: "kp = (k, p)" by fastforce
  define t where "t = touch_counters P k s"
  have same: "same_counters P s t" unfolding t_def by (intro same_touch_counters same_counters_refl)
  then have cnt: "counter_value P t f sn = counter_value P s f sn" for f sn
    by (simp add: same_counters_def)
  have k: "map_of snap k = None" using Cons.prems(2) by (simp add: kp map_of_eq_None_iff)
  have "flush_rows P snap (sput k (flush_row P k p t) rows, t) = (rows', s')"
    using Cons.prems(1) by (simp add: kp Let_def t_def)
  note IH = Cons.IH [OF this]
  have look: "map_option (entry_of f) (sget (sput k (flush_row P k p t) rows) sn) =
      (if sn = k then Some (bump_ulp (counter_value P s f k + pending_of f p))
       else map_option (entry_of f) (sget rows sn))" for f sn
    by (simp add: sget_sput entry_flush_row cnt)
  show ?case
    using IH Cons.prems(2) k same
    by (auto simp: kp cnt look smap_ok_sput set_skeys_sput intro: same_counters_trans split: option.split)
qed simp

end

lemma bump_ulp_ge: "0 \<le> v \<Longrightarrow> v \<le> bump_ulp v"
  using next_up_greater [of v]
  by (auto simp: bump_ulp_def Let_def f64_less_imp_le f64_le_not_nan)

section \<open>The frame of a flush\<close>

context prometheus
begin

lemma writes_apply_pending:
  assumes "\<And>f. Ct f \<in> W"
  shows "writes P W T s (apply_pending P snap s)"
proof -
  have "writes P W T u (apply_device P kp u)" for kp u
    unfolding apply_device_def add_split_def Let_def
    by (cases kp) (simp add: writes_inc_if_positive assms)
  then show ?thesis
    unfolding apply_pending_def by (intro writes_fold) auto
qed

lemma writes_flush_rows: "flush_rows P snap (rows, s) = (rows', s') \<Longrightarrow> writes P {} (range Ct) s s'"
proof (induction snap arbitrary: rows s)
  case (Cons kp snap)
  obtain k p where kp: "kp = (k, p)" by fastforce
  have t: "writes P {} (range Ct) s (touch_counters P k s)"
    unfolding touch_counters_def by (intro writes_fold writes_refl writes_touch) simp
  show ?case
    using Cons.IH [of "sput k (flush_row P k p (touch_counters P k s)) rows" "touch_counters P k s"]
      Cons.prems t by (auto simp: kp Let_def intro: writes_trans)
qed simp

lemma writes_phase1:
  assumes "flush_phase1 P ser force now_secs now m = (r, m')"
  shows "writes P {Ex State_write_errors, Ex State_last_write_timestamp} (range Ct) (m_store m) (m_store m')"
proof -
  let ?W = "{Ex State_write_errors, Ex State_last_write_timestamp}"
  obtain snap sh where t: "take_pending (m_shared m) = (snap, sh)" by fastforce
  obtain rows st where r: "flush_rows P snap ([], m_store m) = (rows, st)" by fastforce
  have "writes P ?W (range Ct) (m_store m) st" using writes_flush_rows [OF r] by (rule writes_mono) auto
  then show ?thesis
    using assms t r
    by (auto simp: flush_phase1_def flush_state_def Let_def stamp_written_def record_write_error_def
        writes_set writes_inc split: if_splits option.splits)
qed

lemma writes_phase3:
  "writes P (range Ct \<union> {Ex State_last_write_timestamp}) {} (m_store m)
     (m_store (flush_phase3 P written snap now_secs now m))"
  by (auto simp: flush_phase3_def Let_def stamp_written_def intro!: writes_set writes_apply_pending)

lemma writes_flush:
  assumes "flush_coulomb_state P ser force now_secs now io (m, d) = (m', d')"
  shows "writes P (range Ct \<union> {Ex State_write_errors, Ex State_last_write_timestamp}) {} (m_store m) (m_store m')"
    (is "writes P ?W {} _ _")
proof (cases "mo_coulomb_state_path (m_opts m)")
  case None
  then show ?thesis
    using assms
    by (auto simp: flush_coulomb_state_def flush_unpersisted_def intro!: writes_apply_pending split: prod.splits)
next
  case (Some path)
  obtain r m1 where p1: "flush_phase1 P ser force now_secs now m = (r, m1)" by fastforce
  have one: "writes P ?W {} (m_store m) (m_store m1)" by (rule writes_mono [OF writes_phase1 [OF p1]]) auto
  show ?thesis
  proof (cases r)
    case None
    then show ?thesis using assms one p1 \<open>mo_coulomb_state_path _ = _\<close> by (simp add: flush_coulomb_state_def)
  next
    case (Some bs)
    obtain b snap where bs: "bs = (b, snap)" by fastforce
    obtain written trace m2 where p2: "flush_phase2 P path b io d m1 = (written, trace, m2)"
      using prod_cases3 by blast
    have "writes P ?W {} (m_store m1) (m_store m2)"
      using p2 by (auto simp: flush_phase2_def record_write_error_def writes_inc split: prod.splits option.splits)
    moreover have "writes P ?W {} (m_store m2) (m_store (flush_phase3 P written snap now_secs now m2))"
      by (rule writes_mono [OF writes_phase3]) auto
    moreover have "m' = flush_phase3 P written snap now_secs now m2"
      using assms p1 p2 \<open>mo_coulomb_state_path _ = _\<close> by (simp add: flush_coulomb_state_def Some bs)
    ultimately show ?thesis using one by (blast intro: writes_trans)
  qed
qed

end

end
