(* ===== verification/Persistence.thy ===== *)
theory Persistence
  imports Store_Facts
begin

text \<open>
  The exporter as a transition system over its registry, the state behind the mutex and the
  disk. Frames, admissions and requests interleave with the three phases of a flush, every call
  of the write may fail, and the power may be lost at any point, also inside the write; the
  next process restores its counters from whatever the state file then shows. The invariant is
  the one the code is written for: no counter is ever ahead of any content the file may have.
\<close>

section \<open>The system\<close>

type_synonym snapshot = "(string \<times> pending) list"

text \<open>A flush is idle, has its payload and waits for the write, or has the outcome of the write.\<close>

datatype 'b flight = Idle | Writing 'b snapshot | Written bool snapshot

record ('s, 'b) system =
  sy_metrics :: "'s metrics"
  sy_flight :: "'b flight"
  sy_disk :: "'b disk"

text \<open>What the serializer can carry: all numbers finite.\<close>

definition fit_finite :: "f64 ew_fit \<Rightarrow> bool" where
  "fit_finite f \<longleftrightarrow> is_finite (ew_n f) \<and> is_finite (ew_sx f) \<and> is_finite (ew_sy f)
     \<and> is_finite (ew_sxx f) \<and> is_finite (ew_sxy f) \<and> is_finite (ew_syy f)"

definition device_finite :: "device_state \<Rightarrow> bool" where
  "device_finite d \<longleftrightarrow> fit_finite (ds_fit d) \<and> is_finite (ds_x d) \<and> is_finite (ds_span_hours d)
     \<and> is_finite (ds_cum_net_ah d) \<and> is_finite (ds_cum_bal_ah d) \<and> is_finite (ds_applied d)
     \<and> is_finite (ds_capacity_ah d)"

definition entry_finite :: "coulomb_entry \<Rightarrow> bool" where
  "entry_finite e \<longleftrightarrow> (\<forall>f\<in>set counter_order. is_finite (entry_of f e))"

definition state_finite :: "coulomb_state \<Rightarrow> bool" where
  "state_finite st \<longleftrightarrow> list_all (\<lambda>(sn, e). entry_finite e) (cs_devices st)
     \<and> list_all (\<lambda>(sn, d). device_finite d) (st_devices (cs_calibration st))
     \<and> list_all (\<lambda>(key, f). fit_finite f) (st_pairs (cs_calibration st))"

text \<open>The round trip of \<open>serde_json\<close> with the feature \<open>float_roundtrip\<close>, on finite numbers.\<close>

definition json_roundtrip :: "(coulomb_state \<Rightarrow> 'b option) \<Rightarrow> ('b \<Rightarrow> coulomb_state option) \<Rightarrow> bool" where
  "json_roundtrip ser de \<longleftrightarrow> (\<forall>st b. ser st = Some b \<longrightarrow> state_finite st \<longrightarrow> de b = Some st)"

definition boot ::
  "'s prom_api \<Rightarrow> ('b \<Rightarrow> coulomb_state option) \<Rightarrow> metrics_options \<Rightarrow> f64 \<Rightarrow> 'b content option \<Rightarrow> 's metrics" where
  "boot P de opts now_secs file = restore_coulombs P de now_secs file (metrics_new P opts)"

text \<open>After a power loss the file shows one of its possible contents, and that one is on disk.\<close>

definition settled :: "string \<Rightarrow> 'b content option \<Rightarrow> 'b disk \<Rightarrow> 'b disk" where
  "settled path c d = d\<lparr> dk_live := (dk_live d)(path := c), dk_stale := (dk_stale d)(path := []) \<rparr>"

text \<open>A file system on which a directory sync is not silently excused.\<close>

definition syncs_directories :: "io_results \<Rightarrow> bool" where
  "syncs_directories io \<longleftrightarrow> io_dirsync io \<noteq> Some InvalidInput \<and> io_dirsync io \<noteq> Some Unsupported"

inductive sys_step ::
  "'s prom_api \<Rightarrow> (f64 \<Rightarrow> f64) \<Rightarrow> (coulomb_state \<Rightarrow> 'b option) \<Rightarrow> ('b \<Rightarrow> coulomb_state option) \<Rightarrow>
   metrics_options \<Rightarrow> string \<Rightarrow> ('s, 'b) system \<Rightarrow> ('s, 'b) system \<Rightarrow> bool"
  for P ex ser de opts path where
  sys_admit: "sys_step P ex ser de opts path s (s\<lparr> sy_metrics := snd (admit sn (sy_metrics s)) \<rparr>)"
| sys_realtime: "sys_step P ex ser de opts path s
    (s\<lparr> sy_metrics := update_realtime P sn d (sy_metrics s) \<rparr>)"
| sys_config: "sys_step P ex ser de opts path s
    (s\<lparr> sy_metrics := update_config P sn c (sy_metrics s) \<rparr>)"
| sys_accumulate: "accumulate_coulombs P ex sn d now_secs (sy_metrics s) = Some m \<Longrightarrow>
    sys_step P ex ser de opts path s (s\<lparr> sy_metrics := m \<rparr>)"
| sys_seen: "sys_step P ex ser de opts path s
    (s\<lparr> sy_metrics := mark_seen P sn now_secs (sy_metrics s) \<rparr>)"
| sys_request: "sys_step P ex ser de opts path s
    (s\<lparr> sy_metrics := record_request P endpoint status (sy_metrics s) \<rparr>)"
| sys_decoded: "sys_step P ex ser de opts path s
    (s\<lparr> sy_metrics := record_decoded P block_name (sy_metrics s) \<rparr>)"
| sys_dropped: "sys_step P ex ser de opts path s
    (s\<lparr> sy_metrics := record_dropped P reason (sy_metrics s) \<rparr>)"
| sys_no_flush: "flush_phase1 P ser force now_secs now (sy_metrics s) = (None, m) \<Longrightarrow>
    sys_step P ex ser de opts path s (s\<lparr> sy_metrics := m \<rparr>)"
| sys_begin: "flush_phase1 P ser force now_secs now (sy_metrics s) = (Some (b, snap), m) \<Longrightarrow>
    state_finite (fst (flush_state P (sy_metrics s))) \<Longrightarrow>
    sys_step P ex ser de opts path s (s\<lparr> sy_metrics := m, sy_flight := Writing b snap \<rparr>)"
| sys_write: "sy_flight s = Writing b snap \<Longrightarrow> syncs_directories io \<Longrightarrow>
    flush_phase2 P path b io (sy_disk s) (sy_metrics s) = (written, trace, m) \<Longrightarrow>
    sys_step P ex ser de opts path s
      \<lparr> sy_metrics = m, sy_flight = Written written snap, sy_disk = last trace \<rparr>"
| sys_finish: "sy_flight s = Written written snap \<Longrightarrow>
    sys_step P ex ser de opts path s
      (s\<lparr> sy_metrics := flush_phase3 P written snap now_secs now (sy_metrics s), sy_flight := Idle \<rparr>)"
| sys_crash: "c \<in> set (disk_possible (sy_disk s) path) \<Longrightarrow>
    sys_step P ex ser de opts path s
      \<lparr> sy_metrics = boot P de opts now_secs c, sy_flight = Idle,
        sy_disk = settled path c (sy_disk s) \<rparr>"
| sys_crash_writing: "sy_flight s = Writing b snap \<Longrightarrow>
    write_file_durable path b io (sy_disk s) = (trace, res) \<Longrightarrow> d \<in> set trace \<Longrightarrow>
    c \<in> set (disk_possible d path) \<Longrightarrow>
    sys_step P ex ser de opts path s
      \<lparr> sy_metrics = boot P de opts now_secs c, sy_flight = Idle, sy_disk = settled path c d \<rparr>"

definition sys_initial :: "'s prom_api \<Rightarrow> ('b \<Rightarrow> coulomb_state option) \<Rightarrow> metrics_options \<Rightarrow> f64 \<Rightarrow> ('s, 'b) system" where
  "sys_initial P de opts now_secs =
     \<lparr> sy_metrics = boot P de opts now_secs None, sy_flight = Idle,
       sy_disk = \<lparr> dk_live = (\<lambda>_. None), dk_stale = (\<lambda>_. []) \<rparr> \<rparr>"

inductive sys_reach ::
  "'s prom_api \<Rightarrow> (f64 \<Rightarrow> f64) \<Rightarrow> (coulomb_state \<Rightarrow> 'b option) \<Rightarrow> ('b \<Rightarrow> coulomb_state option) \<Rightarrow>
   metrics_options \<Rightarrow> string \<Rightarrow> ('s, 'b) system \<Rightarrow> bool"
  for P ex ser de opts path where
  sys_reach_init: "sys_reach P ex ser de opts path (sys_initial P de opts now_secs)"
| sys_reach_step: "sys_reach P ex ser de opts path s \<Longrightarrow> sys_step P ex ser de opts path s s' \<Longrightarrow>
    sys_reach P ex ser de opts path s'"

section \<open>The invariant\<close>

text \<open>The total a content of the file gives a counter when it is restored.\<close>

definition file_total :: "('b \<Rightarrow> coulomb_state option) \<Rightarrow> 'b content option \<Rightarrow> counter_family \<Rightarrow> string \<Rightarrow> f64" where
  "file_total de c f sn = (case parse_content de c of None \<Rightarrow> 0
     | Some st \<Rightarrow> (case sget (cs_devices st) sn of None \<Rightarrow> 0 | Some e \<Rightarrow> entry_of f e))"

definition file_ok :: "('b \<Rightarrow> coulomb_state option) \<Rightarrow> metrics_options \<Rightarrow> 'b content option \<Rightarrow> bool" where
  "file_ok de opts c \<longleftrightarrow> (case parse_content de c of None \<Rightarrow> True
     | Some st \<Rightarrow> smap_ok (cs_devices st)
         \<and> (mo_max_devices opts = 0 \<or> length (cs_devices st) \<le> mo_max_devices opts)
         \<and> (\<forall>sn e. sget (cs_devices st) sn = Some e \<longrightarrow> (\<forall>f. 0 \<le> entry_of f e)))"

definition delta_of :: "snapshot \<Rightarrow> counter_family \<Rightarrow> string \<Rightarrow> f64" where
  "delta_of snap f sn = (case map_of snap sn of None \<Rightarrow> 0 | Some p \<Rightarrow> pending_of f p)"

definition snapshot_ok :: "snapshot \<Rightarrow> bool" where
  "snapshot_ok snap \<longleftrightarrow> (\<forall>(sn, p)\<in>set snap. pending_nonneg p) \<and> distinct (List.map fst snap)"

text \<open>Content \<open>c\<close> is not behind the counters advanced by \<open>extra\<close>.\<close>

definition covers ::
  "('b \<Rightarrow> coulomb_state option) \<Rightarrow> metrics_options \<Rightarrow> (counter_family \<Rightarrow> string \<Rightarrow> f64) \<Rightarrow> 'b content option \<Rightarrow> bool" where
  "covers de opts v c \<longleftrightarrow> file_ok de opts c \<and> (\<forall>f sn. v f sn \<le> file_total de c f sn)"

definition counters :: "'s prom_api \<Rightarrow> ('s, 'b) system \<Rightarrow> counter_family \<Rightarrow> string \<Rightarrow> f64" where
  "counters P s f sn = counter_value P (m_store (sy_metrics s)) f sn"

definition flight_ok ::
  "'s prom_api \<Rightarrow> ('b \<Rightarrow> coulomb_state option) \<Rightarrow> metrics_options \<Rightarrow> string \<Rightarrow> ('s, 'b) system \<Rightarrow> bool" where
  "flight_ok P de opts path s \<longleftrightarrow> (case sy_flight s of
       Idle \<Rightarrow> True
     | Writing b snap \<Rightarrow> snapshot_ok snap \<and> fst ` set snap \<subseteq> set (skeys (m_devices (sy_metrics s)))
         \<and> covers de opts (\<lambda>f sn. counters P s f sn + delta_of snap f sn) (Some (Data b))
     | Written w snap \<Rightarrow> snapshot_ok snap \<and> fst ` set snap \<subseteq> set (skeys (m_devices (sy_metrics s)))
         \<and> (w \<longrightarrow> (\<forall>c\<in>set (disk_possible (sy_disk s) path).
              covers de opts (\<lambda>f sn. counters P s f sn + delta_of snap f sn) c)))"

definition sys_ok ::
  "'s prom_api \<Rightarrow> ('b \<Rightarrow> coulomb_state option) \<Rightarrow> metrics_options \<Rightarrow> string \<Rightarrow> ('s, 'b) system \<Rightarrow> bool" where
  "sys_ok P de opts path s \<longleftrightarrow> m_opts (sy_metrics s) = opts \<and> shared_ok opts (m_shared (sy_metrics s))
     \<and> sh_writing (m_shared (sy_metrics s)) = (sy_flight s \<noteq> Idle)
     \<and> (\<forall>f sn. 0 \<le> counters P s f sn)
     \<and> (\<forall>f sn. sn \<in> set (skeys (m_devices (sy_metrics s))) \<or> counters P s f sn = 0)
     \<and> (\<forall>c\<in>set (disk_possible (sy_disk s) path). covers de opts (counters P s) c)
     \<and> flight_ok P de opts path s"

end
