(* ===== verification/Registry_Facts.thy ===== *)
theory Registry_Facts
  imports Metrics
begin

text \<open>
  The registry in use: every family registers, no series of a cell or sensor outlives its place in
  the frame, and a device has one identity series at most.
\<close>

section \<open>Startup\<close>

lemma register_all_distinct:
  "register_all valid fams reg = Some reg' \<longleftrightarrow>
   list_all (\<lambda>(f, k, name, labels). valid name labels) fams
   \<and> distinct (List.map (\<lambda>(f, k, name, labels). name) fams)
   \<and> set (List.map (\<lambda>(f, k, name, labels). name) fams) \<inter> set reg = {}
   \<and> reg' = rev (List.map (\<lambda>(f, k, name, labels). name) fams) @ reg"
proof (induction valid fams reg rule: register_all.induct)
  case (2 valid f k name labels rest reg)
  then show ?case by (auto simp: register_def)
qed auto

lemma family_names_distinct: "distinct (List.map (\<lambda>(f, k, name, labels). name) all_families)"
  by (simp add: all_families_def realtime_families_def config_families_def server_families_def
      counter_families_def calibration_families_def)

lemma families_listed: "f \<in> fst ` set all_families"
proof (cases f)
  case (Rt r)
  then show ?thesis by (cases r) (simp_all add: all_families_def realtime_families_def)
next
  case (Cf c)
  then show ?thesis by (cases c) (simp_all add: all_families_def config_families_def)
next
  case (Ct c)
  then show ?thesis
    by (cases c) (simp_all add: all_families_def counter_families_def calibration_families_def)
next
  case (Cal c)
  then show ?thesis by (cases c) (simp_all add: all_families_def calibration_families_def)
next
  case (Ex e)
  then show ?thesis by (cases e) (simp_all add: all_families_def server_families_def)
qed

text \<open>C19: Startup never panics on a metric: if the crate accepts each name with its labels, every one
  of the registrations succeeds, no name is registered twice, and every family of the exporter is
  among them; conversely a single invalid name is enough to make \<open>Metrics::new\<close> panic.\<close>

theorem startup_registers_all:
  "register_all valid all_families [] =
     (if list_all (\<lambda>(f, k, name, labels). valid name labels) all_families
      then Some (rev (List.map (\<lambda>(f, k, name, labels). name) all_families)) else None)
   \<and> distinct (List.map (\<lambda>(f, k, name, labels). name) all_families)
   \<and> fst ` set all_families = UNIV"
proof (intro conjI)
  show "register_all valid all_families [] =
     (if list_all (\<lambda>(f, k, name, labels). valid name labels) all_families
      then Some (rev (List.map (\<lambda>(f, k, name, labels). name) all_families)) else None)"
    using register_all_distinct [of valid all_families "[]"] family_names_distinct
    by (cases "register_all valid all_families []") auto
  show "distinct (List.map (\<lambda>(f, k, name, labels). name) all_families)" by (rule family_names_distinct)
  show "fst ` set all_families = UNIV" using families_listed by blast
qed

section \<open>Index labels\<close>

definition digits_value :: "string \<Rightarrow> nat" where
  "digits_value = foldl (\<lambda>a c. 10 * a + (of_char c - 48)) 0"

lemma digits_value_digits: "digits_value (digits n) = n"
proof (induction n rule: less_induct)
  case (less n)
  show ?case
  proof (cases "n < 10")
    case True
    then show ?thesis by (subst digits.simps) (simp add: digits_value_def of_char_of)
  next
    case False
    have "digits_value (digits n) = 10 * digits_value (digits (n div 10)) + n mod 10"
      using False by (subst digits.simps) (simp add: digits_value_def of_char_of)
    then show ?thesis using less [of "n div 10"] False by simp
  qed
qed

lemma idx_label_inject [simp]: "idx_label m = idx_label n \<longleftrightarrow> m = n"
proof -
  have "digits_value (idx_label k) = k" for k
    using digits_value_digits [of k] by (simp add: idx_label_def Let_def digits_value_def)
  then show ?thesis by metis
qed

section \<open>Series of a device\<close>

context prometheus
begin

lemma sample_removes:
  "pm_sample P (fold (\<lambda>i s. if i \<in> A then s else pm_remove P f [sn, idx_label i] s) prev s) g ls =
   (if g = f \<and> (\<exists>i\<in>set prev - A. ls = [sn, idx_label i]) then None else pm_sample P s g ls)"
  by (induction prev arbitrary: s) (auto simp: sample_remove)

lemma sample_sets:
  assumes "distinct (List.map fst cur)"
  shows "pm_sample P (fold (\<lambda>(n, v) s. pm_set P f [sn, idx_label n] v s) cur s) f [sn, idx_label i] =
    (case map_of cur i of None \<Rightarrow> pm_sample P s f [sn, idx_label i] | Some v \<Rightarrow> Some v)"
  using assms
proof (induction cur arbitrary: s)
  case (Cons nv cur)
  obtain n v where nv: "nv = (n, v)" by fastforce
  have n: "map_of cur n = None" using Cons.prems by (simp add: nv map_of_eq_None_iff)
  show ?case using Cons n by (auto simp: nv sample_set split: option.split)
qed simp

lemma sample_sets_other:
  "g \<noteq> f \<or> (\<forall>i. ls \<noteq> [sn, idx_label i]) \<Longrightarrow>
   pm_sample P (fold (\<lambda>(n, v) s. pm_set P f [sn, idx_label n] v s) cur s) g ls = pm_sample P s g ls"
  by (induction cur arbitrary: s) (auto simp: sample_set)

lemma sync_indexed_exact:
  assumes "sync_indexed P f sn prev cur s = (idx, s')" and "distinct (List.map fst cur)"
    and "\<forall>i. (pm_sample P s f [sn, idx_label i] \<noteq> None) = (i \<in> set prev)"
  shows "idx = List.map fst cur \<and> (\<forall>i. pm_sample P s' f [sn, idx_label i] = map_of cur i)
    \<and> (\<forall>g ls. g \<noteq> f \<or> (\<forall>i. ls \<noteq> [sn, idx_label i]) \<longrightarrow> pm_sample P s' g ls = pm_sample P s g ls)"
proof -
  let ?s = "fold (\<lambda>i s. if i \<in> set (List.map fst cur) then s else pm_remove P f [sn, idx_label i] s) prev s"
  have s': "idx = List.map fst cur" "s' = fold (\<lambda>(n, v) s. pm_set P f [sn, idx_label n] v s) cur ?s"
    using assms(1) by (auto simp: sync_indexed_def Let_def)
  have gone: "pm_sample P ?s f [sn, idx_label i] = None" if "map_of cur i = None" for i
  proof -
    have i: "i \<notin> set (List.map fst cur)" using that by (simp add: map_of_eq_None_iff)
    then show ?thesis using assms(3) by (auto simp: sample_removes)
  qed
  have "pm_sample P s' f [sn, idx_label i] = map_of cur i" for i
    using sample_sets [OF assms(2), of f sn ?s i] gone [of i] by (simp add: s' split: option.split)
  moreover have "pm_sample P s' g ls = pm_sample P s g ls"
    if "g \<noteq> f \<or> (\<forall>i. ls \<noteq> [sn, idx_label i])" for g ls
    using that by (auto simp: s' sample_sets_other sample_removes)
  ultimately show ?thesis using s'(1) by blast
qed

end

text \<open>The series of cells and sensors are those of the last frame. If before a frame the series
  of a device in an indexed family are the ones recorded for it, then afterwards each index of
  the frame shows the frame's value, no other index of the device has a series, the record is
  again exact, and no other series changed. Labels of different indices are different.\<close>

lemma no_stale_indexed_series:
  assumes "prometheus P"
    and "sync_indexed P f sn prev cur s = (idx, s')" and "distinct (List.map fst cur)"
    and "\<forall>i. (pm_sample P s f [sn, idx_label i] \<noteq> None) = (i \<in> set prev)"
  shows "idx = List.map fst cur \<and> (\<forall>i. pm_sample P s' f [sn, idx_label i] = map_of cur i)
    \<and> (\<forall>g ls. g \<noteq> f \<or> (\<forall>i. ls \<noteq> [sn, idx_label i]) \<longrightarrow> pm_sample P s' g ls = pm_sample P s g ls)
    \<and> (\<forall>i j. idx_label i = idx_label j \<longleftrightarrow> i = j)"
  using prometheus.sync_indexed_exact [OF assms] by simp

lemma no_stale_indexed_series_witness:
  "pm_sample map_registry (snd (sync_indexed map_registry (Rt Cell_voltage) ''A'' [1, 2] [(1, flit 3)]
     [((Rt Cell_voltage, [''A'', ''01'']), 0), ((Rt Cell_voltage, [''A'', ''02'']), 0)]))
     (Rt Cell_voltage) [''A'', idx_label 2] = None"
proof -
  let ?s = "[((Rt Cell_voltage, [''A'', ''01'']), 0), ((Rt Cell_voltage, [''A'', ''02'']), 0)] :: series"
  have labels: "idx_label 1 = ''01''" "idx_label 2 = ''02''" by code_simp+
  obtain idx s' where r: "sync_indexed map_registry (Rt Cell_voltage) ''A'' [1, 2] [(1, flit 3)] ?s = (idx, s')"
    by fastforce
  have "\<forall>i. (pm_sample map_registry ?s (Rt Cell_voltage) [''A'', idx_label i] \<noteq> None) = (i \<in> set [1, 2])"
    by (auto simp: map_registry_def labels [symmetric])
  from no_stale_indexed_series [OF map_registry_laws r _ this] show ?thesis
    unfolding r snd_conv by simp
qed

section \<open>Identity series\<close>

text \<open>A device has at most one identity series, however it varies its strings: if before a
  configuration frame the only series of \<open>device_info\<close> for the device is the recorded one, then
  afterwards the only one is the frame's, it shows 1 and it is the one recorded.\<close>

lemma one_identity_series:
  assumes "prometheus P" and "set_device_info P e labels s = (e', s')"
    and "\<forall>ls. hd ls = hd labels \<longrightarrow>
      (pm_sample P s (Cf Device_info) ls \<noteq> None) = (ls_last_device_info e = Some ls)"
    and "hd ls = hd labels"
  shows "pm_sample P s' (Cf Device_info) ls = (if ls = labels then Some 1 else None)
    \<and> ls_last_device_info e' = Some labels"
  using assms
  by (auto simp: set_device_info_def Let_def prometheus.sample_set prometheus.sample_remove
      split: option.splits if_splits)

lemma one_identity_series_witness:
  "pm_sample map_registry (snd (set_device_info map_registry
     (last_series_default\<lparr> ls_last_device_info := Some [''A'', ''x''] \<rparr>) [''A'', ''y'']
     [((Cf Device_info, [''A'', ''x'']), 1)])) (Cf Device_info) [''A'', ''x''] = None"
proof -
  let ?e = "last_series_default\<lparr> ls_last_device_info := Some [''A'', ''x''] \<rparr>"
  let ?s = "[((Cf Device_info, [''A'', ''x'']), 1)] :: series"
  obtain e' s' where r: "set_device_info map_registry ?e [''A'', ''y''] ?s = (e', s')" by fastforce
  have "\<forall>ls. hd ls = hd [''A'', ''y''] \<longrightarrow>
      (pm_sample map_registry ?s (Cf Device_info) ls \<noteq> None) = (ls_last_device_info ?e = Some ls)"
    by (auto simp: map_registry_def)
  from one_identity_series [OF map_registry_laws r this, of "[''A'', ''x'']"] show ?thesis by (simp add: r)
qed

end
