(* ===== verification/Series_Records.thy ===== *)
theory Series_Records
  imports Persistence Registry_Facts
begin

text \<open>
  The registry and the device records agree in every reachable state: a series of a cell, of a
  sensor, of a peer or of the identity of a device exists exactly if the record of the device
  lists it. So nothing a device no longer reports is ever exported, whatever it sends.
\<close>

section \<open>The series a record lists\<close>

fun shown :: "family \<Rightarrow> string \<Rightarrow> last_series \<Rightarrow> string list set" where
  "shown (Rt Cell_voltage) sn e = (\<lambda>i. [sn, idx_label i]) ` set (ls_cells e)"
| "shown (Rt Temperature) sn e = (\<lambda>i. [sn, idx_label i]) ` set (ls_sensors e)"
| "shown (Cf Device_info) sn e = set_option (ls_last_device_info e)"
| "shown g sn e = (\<lambda>p. [sn, p]) ` set (ls_last_peers e)"

definition recorded_families :: "family set" where
  "recorded_families = {Rt Cell_voltage, Rt Temperature, Cf Device_info} \<union> set peer_families"

definition series_exists :: "'s prom_api \<Rightarrow> 's \<Rightarrow> family \<Rightarrow> string list \<Rightarrow> bool" where
  "series_exists P s g ls \<longleftrightarrow> pm_sample P s g ls \<noteq> None"

definition owns :: "string \<Rightarrow> string list \<Rightarrow> bool" where
  "owns sn ls \<longleftrightarrow> ls \<noteq> [] \<and> hd ls = sn"

definition info_owned :: "string \<Rightarrow> last_series \<Rightarrow> bool" where
  "info_owned sn e \<longleftrightarrow> (\<forall>ls. ls_last_device_info e = Some ls \<longrightarrow> owns sn ls)"

definition records_agree :: "'s prom_api \<Rightarrow> 's \<Rightarrow> last_series smap \<Rightarrow> bool" where
  "records_agree P s devs \<longleftrightarrow>
     (\<forall>sn e. sget devs sn = Some e \<longrightarrow> info_owned sn e)
   \<and> (\<forall>g\<in>recorded_families. \<forall>ls. series_exists P s g ls \<longleftrightarrow>
        (\<exists>sn e. sget devs sn = Some e \<and> ls \<in> shown g sn e))"

lemma owns_pair [simp]: "owns sn [k, l] \<longleftrightarrow> sn = k"
  by (auto simp: owns_def)

lemma owns_unique: "owns sn ls \<Longrightarrow> owns sn' ls \<Longrightarrow> sn = sn'"
  by (simp add: owns_def)

lemma recorded_simps [simp]:
  "Rt Cell_voltage \<in> recorded_families" "Rt Temperature \<in> recorded_families"
  "Cf Device_info \<in> recorded_families"
  by (simp_all add: recorded_families_def)

lemma recorded_cases [consumes 1, case_names cell sensor info peer]:
  assumes "g \<in> recorded_families"
  obtains "g = Rt Cell_voltage" | "g = Rt Temperature" | "g = Cf Device_info" | "g \<in> set peer_families"
  using assms by (auto simp: recorded_families_def)

lemma shown_peer: "g \<in> set peer_families \<Longrightarrow> shown g sn e = (\<lambda>p. [sn, p]) ` set (ls_last_peers e)"
  by (auto simp: peer_families_def)

lemma shown_owned: "g \<in> recorded_families \<Longrightarrow> info_owned sn e \<Longrightarrow> ls \<in> shown g sn e \<Longrightarrow> owns sn ls"
  by (cases rule: recorded_cases) (auto simp: shown_peer info_owned_def)

lemma default_shows_nothing [simp]:
  "info_owned sn last_series_default" "g \<in> recorded_families \<Longrightarrow> shown g sn last_series_default = {}"
  by (simp add: info_owned_def last_series_default_def)
    (auto simp: shown_peer last_series_default_def elim!: recorded_cases)

text \<open>What a record shows depends on four of its fields.\<close>

definition listing :: "last_series \<Rightarrow> nat list \<times> nat list \<times> string list option \<times> string list" where
  "listing e = (ls_cells e, ls_sensors e, ls_last_device_info e, ls_last_peers e)"

lemma listing_cong:
  "listing e = listing e' \<Longrightarrow> info_owned sn e = info_owned sn e'"
  "g \<in> recorded_families \<Longrightarrow> listing e = listing e' \<Longrightarrow> shown g sn e = shown g sn e'"
  by (simp add: listing_def info_owned_def)
    (auto simp: listing_def shown_peer elim!: recorded_cases)

lemma records_agree_cong:
  assumes "records_agree P s devs"
    and "\<And>g ls. g \<in> recorded_families \<Longrightarrow> series_exists P s' g ls = series_exists P s g ls"
    and "\<And>sn. map_option listing (sget devs' sn) = map_option listing (sget devs sn)"
  shows "records_agree P s' devs'"
proof -
  have one: "\<exists>e. sget devs sn = Some e \<and> listing e = listing e'" if "sget devs' sn = Some e'" for sn e'
    using assms(3) [of sn] that by (cases "sget devs sn") auto
  have two: "\<exists>e'. sget devs' sn = Some e' \<and> listing e' = listing e" if "sget devs sn = Some e" for sn e
    using assms(3) [of sn] that by (cases "sget devs' sn") auto
  have "(\<exists>sn e. sget devs' sn = Some e \<and> ls \<in> shown g sn e) = (\<exists>sn e. sget devs sn = Some e \<and> ls \<in> shown g sn e)"
    if "g \<in> recorded_families" for g ls
    using one two listing_cong(2) [OF that] by metis
  moreover have "info_owned sn e'" if "sget devs' sn = Some e'" for sn e'
    using one [OF that] assms(1) listing_cong(1) unfolding records_agree_def by metis
  ultimately show ?thesis using assms(1,2) unfolding records_agree_def by simp
qed

text \<open>The record of one device is replaced together with the series that device owns.\<close>

lemma records_agree_put:
  assumes "records_agree P s devs" and "info_owned sn e'"
    and "\<And>g ls. g \<in> recorded_families \<Longrightarrow>
      series_exists P s' g ls = (if owns sn ls then ls \<in> shown g sn e' else series_exists P s g ls)"
  shows "records_agree P s' (sput sn e' devs)"
proof -
  have old: "series_exists P s g ls = (\<exists>sn e. sget devs sn = Some e \<and> ls \<in> shown g sn e)"
    "sget devs sn = Some e \<Longrightarrow> info_owned sn e" if "g \<in> recorded_families" for g ls sn e
    using assms(1) that by (simp_all add: records_agree_def)
  have "series_exists P s' g ls = (\<exists>k e. sget (sput sn e' devs) k = Some e \<and> ls \<in> shown g k e)"
    if g: "g \<in> recorded_families" for g ls
  proof (cases "owns sn ls")
    case True
    then have "k = sn" if "sget devs k = Some e" "ls \<in> shown g k e" for k e
      using that old(2) [OF g] shown_owned [OF g] owns_unique by blast
    then show ?thesis using True by (auto simp: assms(3) [OF g] sget_sput)
  next
    case False
    then have "ls \<notin> shown g sn e" if "info_owned sn e" for e using shown_owned [OF g that] by blast
    then have "(\<exists>k e. sget (sput sn e' devs) k = Some e \<and> ls \<in> shown g k e)
        = (\<exists>k e. sget devs k = Some e \<and> ls \<in> shown g k e)"
      using assms(2) old(2) [OF g] by (metis sget_sput option.inject)
    then show ?thesis using False old(1) [OF g] by (simp add: assms(3) [OF g])
  qed
  moreover have "info_owned k e" if "sget (sput sn e' devs) k = Some e" for k e
    using that assms(1,2) by (auto simp: records_agree_def sget_sput split: if_splits)
  ultimately show ?thesis by (simp add: records_agree_def)
qed

section \<open>The operations\<close>

context prometheus
begin

lemma exists_simps:
  "series_exists P (pm_set P f ls v s) g ms = (g = f \<and> ms = ls \<or> series_exists P s g ms)"
  "series_exists P (pm_remove P f ls s) g ms = (\<not> (g = f \<and> ms = ls) \<and> series_exists P s g ms)"
  by (auto simp: series_exists_def sample_set sample_remove)

lemma exists_writes:
  "writes P W T s s' \<Longrightarrow> g \<notin> W \<Longrightarrow> g \<notin> T \<Longrightarrow> series_exists P s' g ls = series_exists P s g ls"
  by (simp add: series_exists_def writesD(2))

lemma exists_fold_remove:
  "series_exists P (fold (\<lambda>i s. if i \<in> A then s else pm_remove P f (lab i) s) xs s) g ls =
   (series_exists P s g ls \<and> \<not> (g = f \<and> (\<exists>i\<in>set xs - A. ls = lab i)))"
proof (induction xs arbitrary: s)
  case (Cons x xs)
  show ?case
    by (cases "x \<in> A") (simp_all add: Cons.IH exists_simps insert_Diff_if, blast)
qed simp

lemma exists_fold_set:
  "series_exists P (fold (\<lambda>(n, v) s. pm_set P f (lab n) v s) xs s) g ls =
   (series_exists P s g ls \<or> g = f \<and> (\<exists>n\<in>fst ` set xs. ls = lab n))"
proof (induction xs arbitrary: s)
  case (Cons x xs)
  show ?case by (cases x) (simp add: Cons.IH exists_simps, blast)
qed simp

text \<open>\<open>sync_indexed\<close> leaves the device exactly the series of the frame.\<close>

lemma exists_sync:
  assumes "sync_indexed P f sn prev cur s = (idx, s')"
    and "\<And>ls. owns sn ls \<Longrightarrow> series_exists P s f ls = (ls \<in> (\<lambda>i. [sn, idx_label i]) ` set prev)"
  shows "idx = List.map fst cur"
    and "series_exists P s' g ls =
      (if g = f \<and> owns sn ls then ls \<in> (\<lambda>i. [sn, idx_label i]) ` set idx else series_exists P s g ls)"
proof -
  have s': "idx = List.map fst cur"
    "s' = fold (\<lambda>(n, v) s. pm_set P f [sn, idx_label n] v s) cur
      (fold (\<lambda>i s. if i \<in> set (List.map fst cur) then s else pm_remove P f [sn, idx_label i] s) prev s)"
    using assms(1) by (auto simp: sync_indexed_def Let_def)
  show "idx = List.map fst cur" by (rule s'(1))
  have "series_exists P s' g ls \<longleftrightarrow>
      series_exists P s g ls \<and> \<not> (g = f \<and> (\<exists>i\<in>set prev - fst ` set cur. ls = [sn, idx_label i]))
      \<or> g = f \<and> (\<exists>n\<in>fst ` set cur. ls = [sn, idx_label n])"
    by (simp add: s'(2) exists_fold_set exists_fold_remove)
  then show "series_exists P s' g ls =
      (if g = f \<and> owns sn ls then ls \<in> (\<lambda>i. [sn, idx_label i]) ` set idx else series_exists P s g ls)"
    using assms(2) [of ls] by (auto simp: s'(1))
qed

lemma agree_owned:
  assumes "records_agree P s devs" and "sget devs sn = Some e" and "g \<in> recorded_families" and "owns sn ls"
  shows "series_exists P s g ls = (ls \<in> shown g sn e)"
proof -
  have "k = sn" if "sget devs k = Some d" "ls \<in> shown g k d" for k d
    using that assms shown_owned [OF assms(3)] owns_unique unfolding records_agree_def by blast
  then show ?thesis using assms(1-3) unfolding records_agree_def by auto
qed

end

lemma agree_track:
  assumes "records_agree P s (sh_devices sh)" and "track cap sn sh = Some (e, sh')"
  shows "records_agree P s (sh_devices sh')" and "sget (sh_devices sh') sn = Some e"
proof -
  consider "sh' = sh" "sget (sh_devices sh) sn = Some e"
    | "sget (sh_devices sh) sn = None" "e = last_series_default" "sh' = set_device sn last_series_default sh"
    using assms(2) by (auto simp: track_def split: option.splits if_splits)
  then have "records_agree P s (sh_devices sh') \<and> sget (sh_devices sh') sn = Some e"
  proof cases
    case 2
    have "\<not> series_exists P s g ls" if "g \<in> recorded_families" "owns sn ls" for g ls
      using assms(1) that 2(1) shown_owned [OF that(1)] owns_unique unfolding records_agree_def
      by (metis option.distinct(1))
    then have "records_agree P s (sput sn last_series_default (sh_devices sh))"
      by (intro records_agree_put [OF assms(1)]) auto
    then show ?thesis using 2 by (simp add: sget_sput)
  qed (use assms(1) in simp)
  then show "records_agree P s (sh_devices sh')" "sget (sh_devices sh') sn = Some e" by auto
qed

text \<open>Agreement of a whole state.\<close>

definition metrics_agree :: "'s prom_api \<Rightarrow> 's metrics \<Rightarrow> bool" where
  "metrics_agree P m \<longleftrightarrow> records_agree P (m_store m) (m_devices m)"

lemma recorded_exclusive:
  "Ct c \<notin> recorded_families" "Ex x \<notin> recorded_families"
  "Rt k \<in> recorded_families \<longleftrightarrow> k = Cell_voltage \<or> k = Temperature"
  "Cf q \<in> recorded_families \<longleftrightarrow> q = Device_info"
  by (auto simp: recorded_families_def peer_families_def)

context prometheus
begin

lemma agree_quiet:
  assumes "metrics_agree P m" and "writes P W T (m_store m) (m_store m')"
    and "(W \<union> T) \<inter> recorded_families = {}"
    and "\<And>sn. map_option listing (sget (m_devices m') sn) = map_option listing (sget (m_devices m) sn)"
  shows "metrics_agree P m'"
  unfolding metrics_agree_def
proof (rule records_agree_cong)
  show "records_agree P (m_store m) (m_devices m)" using assms(1) by (simp add: metrics_agree_def)
  show "series_exists P (m_store m') g ls = series_exists P (m_store m) g ls"
    if "g \<in> recorded_families" for g ls
    by (rule exists_writes [OF assms(2)]) (use that assms(3) in blast)+
qed (rule assms(4))

lemma agree_admit:
  assumes "metrics_agree P m"
  shows "metrics_agree P (snd (admit sn m))"
proof (cases "snd (admit sn m) = m")
  case False
  then have "snd (admit sn m) = m\<lparr> m_shared := set_device sn last_series_default (m_shared m) \<rparr>"
    and "track (mo_max_devices (m_opts m)) sn (m_shared m) =
      Some (last_series_default, set_device sn last_series_default (m_shared m))"
    by (simp_all add: admit_def track_def split: if_splits)
  then show ?thesis
    using assms agree_track(1) [of P "m_store m" "m_shared m"] by (fastforce simp: metrics_agree_def)
qed (use assms in simp)

lemma agree_realtime:
  assumes "metrics_agree P m"
  shows "metrics_agree P (update_realtime P sn d m)"
proof (cases "track (mo_max_devices (m_opts m)) sn (m_shared m)")
  case None
  then show ?thesis using assms by (simp add: update_realtime_def)
next
  case (Some es)
  obtain e sh where es: "es = (e, sh)" by fastforce
  note t = agree_track [OF _ Some [unfolded es], of P "m_store m"]
  have agree: "records_agree P (m_store m) (sh_devices sh)" and e: "sget (sh_devices sh) sn = Some e"
    using t assms by (simp_all add: metrics_agree_def)
  obtain i1 s1 where s1: "sync_indexed P (Rt Cell_voltage) sn (ls_cells e) (cells_v d) (m_store m) = (i1, s1)"
    by fastforce
  obtain i2 s2 where s2: "sync_indexed P (Rt Temperature) sn (ls_sensors e) (temps_c d) s1 = (i2, s2)"
    by fastforce
  let ?e = "e\<lparr> ls_realtime_serial := serial d, ls_cells := i1, ls_sensors := i2 \<rparr>"
  let ?s = "alarm_gauges P sn (alarm_bits d) (realtime_gauges P sn d s2)"
  note own = agree_owned [OF agree e]
  have one: "series_exists P s1 g ls = (if g = Rt Cell_voltage \<and> owns sn ls
      then ls \<in> (\<lambda>i. [sn, idx_label i]) ` set i1 else series_exists P (m_store m) g ls)" for g ls
    by (rule exists_sync(2) [OF s1]) (simp add: own)
  have two: "series_exists P s2 g ls = (if g = Rt Temperature \<and> owns sn ls
      then ls \<in> (\<lambda>i. [sn, idx_label i]) ` set i2 else series_exists P s1 g ls)" for g ls
    by (rule exists_sync(2) [OF s2]) (simp add: own one)
  have "writes P (Rt ` (- {Cell_voltage, Temperature})) {} s2 ?s"
    by (intro writes_alarm_gauges writes_realtime_gauges) auto
  then have rest: "series_exists P ?s g ls = series_exists P s2 g ls" if "g \<in> recorded_families" for g ls
    using that by (intro exists_writes) (auto simp: recorded_exclusive)
  have "records_agree P ?s (sput sn ?e (sh_devices sh))"
  proof (rule records_agree_put [OF agree])
    show "info_owned sn ?e" using agree e by (auto simp: records_agree_def info_owned_def)
    show "series_exists P ?s g ls = (if owns sn ls then ls \<in> shown g sn ?e else series_exists P (m_store m) g ls)"
      if g: "g \<in> recorded_families" for g ls
      unfolding rest [OF g] using g own [OF g, of ls]
      by (cases rule: recorded_cases) (auto simp: one two shown_peer peer_families_def)
  qed
  then show ?thesis using Some es s1 s2 by (simp add: update_realtime_def metrics_agree_def)
qed

lemma agree_config:
  assumes "metrics_agree P m"
  shows "metrics_agree P (update_config P sn c m)"
proof -
  let ?s = "config_gauges P sn c (m_store m)"
  have "writes P (Cf ` (- {Device_info})) {} (m_store m) ?s"
    by (intro writes_config_gauges) auto
  then have rest: "series_exists P ?s g ls = series_exists P (m_store m) g ls" if "g \<in> recorded_families" for g ls
    using that by (intro exists_writes) (auto simp: recorded_exclusive)
  have agree: "records_agree P ?s (m_devices m)"
    by (rule records_agree_cong) (use assms rest in \<open>simp_all add: metrics_agree_def\<close>)
  show ?thesis
  proof (cases "track (mo_max_devices (m_opts m)) sn (m_shared m)")
    case None
    then show ?thesis using agree by (simp add: update_config_def metrics_agree_def)
  next
    case (Some es)
    obtain e sh where es: "es = (e, sh)" by fastforce
    note t = agree_track [OF agree Some [unfolded es]]
    define labels where "labels = [sn, case ls_realtime_serial e of None \<Rightarrow> sn | Some s \<Rightarrow> s,
      unwrap_or_empty (machine_code c), unwrap_or_empty (sw_version c), unwrap_or_empty (hw_version c)]"
    obtain e' s' where i: "set_device_info P e labels ?s = (e', s')" by fastforce
    note own = agree_owned [OF t]
    have old: "ls_last_device_info e = Some ls \<Longrightarrow> owns sn ls" for ls
      using t unfolding records_agree_def info_owned_def by blast
    have labels: "owns sn labels" by (simp add: labels_def owns_def)
    have e': "e' = e\<lparr> ls_last_device_info := Some labels \<rparr>" using i by (auto simp: set_device_info_def Let_def)
    have x: "series_exists P s' g ls = (if g = Cf Device_info \<and> owns sn ls then ls = labels
        else series_exists P ?s g ls)" for g ls
      using i own [of "Cf Device_info" ls] old [of ls] labels
      by (auto simp: set_device_info_def Let_def exists_simps dest: old split: option.splits if_splits)
    have "records_agree P s' (sput sn e' (sh_devices sh))"
    proof (rule records_agree_put [OF t(1)])
      show "info_owned sn e'" using labels by (simp add: e' info_owned_def)
      show "series_exists P s' g ls = (if owns sn ls then ls \<in> shown g sn e' else series_exists P ?s g ls)"
        if g: "g \<in> recorded_families" for g ls
        using g own [OF g, of ls]
        by (cases rule: recorded_cases) (auto simp: x e' shown_peer peer_families_def)
    qed
    then show ?thesis using Some es i
      by (simp add: update_config_def Let_def labels_def metrics_agree_def)
  qed
qed

lemma exists_remove_peer:
  "series_exists P (fold (\<lambda>f. pm_remove P f ls) fs s) g ms =
   (series_exists P s g ms \<and> \<not> (g \<in> set fs \<and> ms = ls))"
  by (induction fs arbitrary: s) (auto simp: exists_simps)

lemma exists_remove_stale:
  "series_exists P (fold (\<lambda>q s. if q \<in> A then s else fold (\<lambda>f. pm_remove P f [sn, q]) fs s) stale s) g ls =
   (series_exists P s g ls \<and> \<not> (g \<in> set fs \<and> (\<exists>q\<in>set stale - A. ls = [sn, q])))"
proof (induction stale arbitrary: s)
  case (Cons q stale)
  show ?case
    by (cases "q \<in> A") (simp_all add: Cons.IH exists_remove_peer insert_Diff_if, blast)
qed simp

lemma exists_set_peers:
  "series_exists P (fold (\<lambda>p s. pm_set P (Cal Calibration_peer_disagreement) [sn, p_peer_sn p] (p_disagreement p)
       (pm_set P (Cal Calibration_peer_r2) [sn, p_peer_sn p] (p_r2 p)
         (pm_set P (Cal Calibration_peer_slope) [sn, p_peer_sn p] (p_slope p)
           (pm_set P (Cal Calibration_peer_offset) [sn, p_peer_sn p] (p_relative_offset p) s)))) ps s) g ls =
   (series_exists P s g ls \<or> g \<in> set peer_families \<and> (\<exists>p\<in>set ps. ls = [sn, p_peer_sn p]))"
proof (induction ps arbitrary: s)
  case (Cons p ps)
  show ?case by (simp add: Cons.IH exists_simps peer_families_def, blast)
qed simp

lemma exists_publish:
  assumes "\<And>g ls. g \<in> set peer_families \<Longrightarrow> owns sn ls \<Longrightarrow>
      series_exists P s g ls = (ls \<in> (\<lambda>p. [sn, p]) ` set stale)"
    and "g \<in> recorded_families"
  shows "series_exists P (publish_calibration P sn r stale s) g ls =
    (if g \<in> set peer_families \<and> owns sn ls then ls \<in> (\<lambda>p. [sn, p]) ` set (List.map p_peer_sn (r_peers r))
     else series_exists P s g ls)"
proof -
  define s0 where "s0 = set_gauge P (Cal Calibration_fit_r2) sn (r_r2 r)
    (set_gauge P (Cal Current_offset_estimate) sn (r_estimate r)
      (pm_set P (Cal Calibration_anchor_error) [sn] (r_anchor_error r)
        (pm_set P (Cal Calibration_span_hours) [sn] (r_span_hours r)
          (pm_set P (Cal Calibration_hold) [sn] (hold_code (r_hold r))
            (pm_set P (Cal Current_offset) [sn] (r_applied r) s)))))"
  let ?W = "{Cal Current_offset, Cal Calibration_hold, Cal Calibration_span_hours,
    Cal Calibration_anchor_error, Cal Current_offset_estimate, Cal Calibration_fit_r2}"
  have "writes P ?W {} s s0" unfolding s0_def by (intro writes_intros writes_refl) simp_all
  then have s0: "series_exists P s0 g ls = series_exists P s g ls"
    by (rule exists_writes) (use assms(2) in \<open>auto simp: recorded_families_def peer_families_def\<close>)
  have "series_exists P (publish_calibration P sn r stale s) g ls \<longleftrightarrow>
      series_exists P s g ls
        \<and> \<not> (g \<in> set peer_families \<and> (\<exists>q\<in>set stale - p_peer_sn ` set (r_peers r). ls = [sn, q]))
      \<or> g \<in> set peer_families \<and> (\<exists>p\<in>set (r_peers r). ls = [sn, p_peer_sn p])"
    unfolding publish_calibration_def Let_def s0_def [symmetric]
    by (simp only: exists_set_peers exists_remove_stale s0)
  then show ?thesis using assms(1) [of g ls] by auto
qed

lemma integrate_entry_listing: "integrate_entry opts off d cur now e = (clamped, e') \<Longrightarrow> listing e' = listing e"
  by (auto simp: integrate_entry_def Let_def listing_def split: option.splits prod.splits)

text \<open>Publishing a report replaces the peer series of the device and no other recorded one.\<close>

lemma agree_published:
  assumes "records_agree P s devs" and "sget devs sn = Some e" and "listing e1 = listing e"
  shows "records_agree P (published_store P sn rep e1 s) (sput sn (published_entry rep e1) devs)"
proof -
  note own = agree_owned [OF assms(1,2)]
  let ?s2 = "published_store P sn rep e1 s" and ?e2 = "published_entry rep e1"
  have fields: "ls_cells ?e2 = ls_cells e" "ls_sensors ?e2 = ls_sensors e"
    "ls_last_device_info ?e2 = ls_last_device_info e" "ls_last_peers e1 = ls_last_peers e"
    using assms(3) by (simp_all add: published_entry_def listing_def split: option.split)
  show ?thesis
  proof (rule records_agree_put [OF assms(1)])
    show "info_owned sn ?e2" using assms(1,2) by (simp add: records_agree_def info_owned_def fields)
    show "series_exists P ?s2 g ls = (if owns sn ls then ls \<in> shown g sn ?e2 else series_exists P s g ls)"
      if g: "g \<in> recorded_families" for g ls
    proof (cases rep)
      case None
      then have "shown g sn ?e2 = shown g sn e"
        using assms(3) by (intro listing_cong(2) [OF g]) (simp add: published_entry_def)
      then show ?thesis using own [OF g] None by (simp add: published_store_def)
    next
      case (Some r)
      have peers: "series_exists P s h ms = (ms \<in> (\<lambda>p. [sn, p]) ` set (ls_last_peers e1))"
        if "h \<in> set peer_families" "owns sn ms" for h ms
        using own [of h ms] that by (simp add: shown_peer fields recorded_families_def)
      have pub: "series_exists P ?s2 g ls = (if g \<in> set peer_families \<and> owns sn ls
          then ls \<in> (\<lambda>p. [sn, p]) ` set (List.map p_peer_sn (r_peers r)) else series_exists P s g ls)"
        unfolding published_store_def Some option.case by (rule exists_publish [OF _ g]) (rule peers)
      show ?thesis
      proof (cases "g \<in> set peer_families")
        case True
        have "ls_last_peers ?e2 = List.map p_peer_sn (r_peers r)" by (simp add: published_entry_def Some)
        with True show ?thesis unfolding pub by (simp add: shown_peer)
      next
        case False
        with g have "shown g sn ?e2 = shown g sn e"
          by (cases rule: recorded_cases) (simp_all add: fields)
        then show ?thesis using False own [OF g, of ls] by (simp add: pub)
      qed
    qed
  qed
qed

lemma agree_accumulate:
  assumes "metrics_agree P m" and "accumulate_coulombs P ex sn d now m = Some m'"
  shows "metrics_agree P m'"
  using assms(2)
proof (rule accumulate_elim)
  fix cur e sh off rep cal s clamped e1 m2
  assume t: "track (mo_max_devices (m_opts m)) sn (m_shared m) = Some (e, sh)"
    and c: "calibrate P ex (mo_calibration_enabled (m_opts m)) sn d cur now (sh_calibrator sh, m_store m) =
      ((off, rep), (cal, s))"
    and i: "integrate_entry (m_opts m) off d cur now e = (clamped, e1)"
    and m2: "m2 = m\<lparr> m_shared := set_device sn (published_entry rep e1) (sh\<lparr> sh_calibrator := cal \<rparr>),
      m_store := published_store P sn rep e1 s \<rparr>"
    and m': "m' = (if clamped then record_sample_rejected P REJECT_CLAMPED_DELTA m2 else m2)"
  have agree0: "records_agree P (m_store m) (sh_devices sh)" and e: "sget (sh_devices sh) sn = Some e"
    using agree_track [OF _ t] assms(1) by (simp_all add: metrics_agree_def)
  have "series_exists P s g ls = series_exists P (m_store m) g ls" if "g \<in> recorded_families" for g ls
    by (rule exists_writes [OF writes_calibrate [OF c, of "{}"]]) (use that in \<open>auto simp: recorded_exclusive\<close>)
  then have "records_agree P s (sh_devices sh)"
    by (intro records_agree_cong [OF agree0]) simp_all
  from agree_published [OF this e integrate_entry_listing [OF i]]
  have agree2: "metrics_agree P m2" by (simp add: metrics_agree_def m2)
  moreover have "metrics_agree P (record_sample_rejected P REJECT_CLAMPED_DELTA m2)"
    by (rule agree_quiet [OF agree2 writes_records(4)])
      (simp_all add: recorded_exclusive record_sample_rejected_def)
  ultimately show ?thesis by (simp add: m')
qed
lemma listing_pending [simp]: "listing (e\<lparr> ls_pending := p \<rparr>) = listing e"
  by (simp add: listing_def)

lemma listing_take:
  "map_option listing (sget (sh_devices (snd (take_pending sh))) sn) = map_option listing (sget (sh_devices sh) sn)"
  by (simp add: take_pending_def sget_smapv option.map_comp comp_def)

lemma listing_requeue:
  "map_option listing (sget (sh_devices (requeue_pending snap sh)) sn) = map_option listing (sget (sh_devices sh) sn)"
  by (induction snap sh rule: requeue_pending.induct) (auto simp: sget_sput split: option.splits)

lemma flush_families_quiet:
  "(range Ct \<union> {Ex State_write_errors, Ex State_last_write_timestamp}) \<inter> recorded_families = {}"
  by (auto simp: recorded_exclusive)

lemma agree_phase1:
  assumes "metrics_agree P m" and "flush_phase1 P ser force now_secs now m = (r, m')"
  shows "metrics_agree P m'"
proof (rule agree_quiet [OF assms(1) writes_phase1 [OF assms(2)]])
  show "({Ex State_write_errors, Ex State_last_write_timestamp} \<union> range Ct) \<inter> recorded_families = {}"
    by (auto simp: recorded_exclusive)
  show "map_option listing (sget (m_devices m') sn) = map_option listing (sget (m_devices m) sn)" for sn
    using assms(2) listing_take [of "m_shared m"] listing_requeue
    by (auto simp: flush_phase1_def Let_def stamp_written_def record_write_error_def split_beta
        split: if_splits option.splits)
qed

lemma agree_phase3:
  assumes "metrics_agree P m"
  shows "metrics_agree P (flush_phase3 P written snap now_secs now m)"
proof (rule agree_quiet [OF assms writes_phase3])
  show "(range Ct \<union> {Ex State_last_write_timestamp} \<union> {}) \<inter> recorded_families = {}"
    by (auto simp: recorded_exclusive)
  show "map_option listing (sget (m_devices (flush_phase3 P written snap now_secs now m)) sn)
      = map_option listing (sget (m_devices m) sn)" for sn
    using listing_requeue [of snap "(m_shared m)\<lparr> sh_last_persist_at := Some now \<rparr>"]
    by (simp add: flush_phase3_def Let_def stamp_written_def)
qed

lemma agree_write_error: "metrics_agree P m \<Longrightarrow> metrics_agree P (record_write_error P stage m)"
  by (rule agree_quiet [OF _ writes_records(5)]) (simp_all add: recorded_exclusive record_write_error_def)

text \<open>A restart: no series of these families, and records that list none.\<close>

lemma agree_fresh:
  assumes "\<And>g ls. g \<in> recorded_families \<Longrightarrow> \<not> series_exists P s g ls"
    and "\<And>sn e. sget devs sn = Some e \<Longrightarrow> e = last_series_default"
  shows "records_agree P s devs"
  unfolding records_agree_def using assms default_shows_nothing by (metis empty_iff)

lemma writes_restore:
  "restore_devices P cap rows (devs, s) = (devs', s') \<Longrightarrow>
   (\<And>sn e. sget devs sn = Some e \<Longrightarrow> e = last_series_default) \<Longrightarrow>
   writes P (range Ct) {} s s' \<and> (\<forall>sn e. sget devs' sn = Some e \<longrightarrow> e = last_series_default)"
proof (induction rows arbitrary: devs s)
  case (Cons row rows)
  obtain k r where row: "row = (k, r)" by fastforce
  have w: "writes P (range Ct) {} s (restore_entry P k r s)"
    unfolding restore_entry_def by (intro writes_fold writes_refl writes_inc_if_positive) simp
  show ?case
  proof (cases "cap \<noteq> 0 \<and> cap \<le> length devs")
    case True
    then have "restore_devices P cap rows (devs, s) = (devs', s')" using Cons.prems(1) by (simp add: row)
    then show ?thesis by (rule Cons.IH) (rule Cons.prems(2))
  next
    case False
    have entry: "sentry last_series_default k devs = last_series_default"
      using Cons.prems(2) by (auto simp: sentry_def split: option.split)
    have r: "restore_devices P cap rows (sput k last_series_default devs, restore_entry P k r s) = (devs', s')"
      using Cons.prems(1) False by (simp only: row restore_devices.simps entry if_False)
    have d: "sget (sput k last_series_default devs) sn = Some e \<Longrightarrow> e = last_series_default" for sn e
      using Cons.prems(2) by (simp add: sget_sput split: if_splits)
    note IH = Cons.IH [OF r d]
    show ?thesis using writes_trans [OF w conjunct1 [OF IH]] conjunct2 [OF IH] by simp
  qed
qed simp

lemma agree_boot: "metrics_agree P (boot P de opts now_secs c)"
proof -
  let ?m = "metrics_new P opts"
  have new: "writes P {} {Ex Frames_dropped, Ex Coulomb_samples_rejected} (pm_new P) (m_store ?m)"
    unfolding metrics_new_def metrics.simps by (intro writes_touch writes_fold writes_refl) simp_all
  have none: "\<not> series_exists P (pm_new P) g ls" if "g \<in> recorded_families" for g ls
  proof -
    have "g \<noteq> Ex State_last_write_timestamp" using that by (auto simp: recorded_exclusive)
    then show ?thesis by (simp add: series_exists_def sample_new)
  qed
  have stamped: "writes P {Ex State_last_write_timestamp} {Ex Frames_dropped, Ex Coulomb_samples_rejected}
      (pm_new P) (m_store (stamp_written P now_secs ?m))"
    using writes_trans [OF writes_mono [OF new] writes_mono [OF writes_records(6)]] by simp
  have fresh: "\<not> series_exists P s g ls"
    if "writes P (range Ct \<union> {Ex State_last_write_timestamp}) {Ex Frames_dropped, Ex Coulomb_samples_rejected} (pm_new P) s"
      "g \<in> recorded_families" for s g ls
  proof -
    have "g \<notin> range Ct \<union> {Ex State_last_write_timestamp}" "g \<notin> {Ex Frames_dropped, Ex Coulomb_samples_rejected}"
      using that(2) by (auto simp: recorded_exclusive)
    then show ?thesis using none [OF that(2)] exists_writes [OF that(1)] by simp
  qed
  have devs: "m_devices ?m = []" by (simp add: metrics_new_def coulomb_shared_new_def)
  have "metrics_agree P ?m"
    unfolding metrics_agree_def devs by (rule agree_fresh) (use fresh writes_mono [OF new] in auto)
  moreover have "metrics_agree P (stamp_written P now_secs ?m)"
    unfolding metrics_agree_def
    by (rule agree_fresh) (use fresh writes_mono [OF stamped] devs in \<open>auto simp: stamp_written_def\<close>)
  moreover have "records_agree P s' devs'"
    if r: "restore_devices P cap rows ([], m_store (stamp_written P now_secs ?m)) = (devs', s')" for cap rows devs' s'
  proof (rule agree_fresh)
    have w: "writes P (range Ct) {} (m_store (stamp_written P now_secs ?m)) s'"
      "\<forall>sn e. sget devs' sn = Some e \<longrightarrow> e = last_series_default"
      using writes_restore [OF r] by simp_all
    show "\<not> series_exists P s' g ls" if "g \<in> recorded_families" for g ls
      by (rule fresh [OF writes_trans [OF writes_mono [OF stamped] writes_mono [OF w(1)]] that]) auto
    show "sget devs' sn = Some e \<Longrightarrow> e = last_series_default" for sn e using w(2) by blast
  qed
  ultimately show ?thesis
    using devs
    by (auto simp: boot_def restore_coulombs_def Let_def metrics_agree_def stamp_written_def
        split: option.split prod.split)
qed

lemma agree_records:
  "metrics_agree P m \<Longrightarrow> metrics_agree P (mark_seen P sn t m)"
  "metrics_agree P m \<Longrightarrow> metrics_agree P (record_request P endpoint status m)"
  "metrics_agree P m \<Longrightarrow> metrics_agree P (record_decoded P block_name m)"
  "metrics_agree P m \<Longrightarrow> metrics_agree P (record_dropped P reason m)"
     apply (rule agree_quiet [OF _ writes_mark_seen]; simp add: recorded_exclusive mark_seen_def)
    apply (rule agree_quiet [OF _ writes_records(1)]; simp add: recorded_exclusive record_request_def)
   apply (rule agree_quiet [OF _ writes_records(2)]; simp add: recorded_exclusive record_decoded_def)
  apply (rule agree_quiet [OF _ writes_records(3)]; simp add: recorded_exclusive record_dropped_def)
  done

lemma agree_step:
  assumes "sys_step P ex ser de opts path s s'" and "metrics_agree P (sy_metrics s)"
  shows "metrics_agree P (sy_metrics s')"
  using assms
proof (cases rule: sys_step.cases)
  case (sys_accumulate sn d now_secs m)
  then show ?thesis using agree_accumulate [OF assms(2)] by simp
next
  case (sys_no_flush force now_secs now m)
  then show ?thesis using agree_phase1 [OF assms(2)] by simp
next
  case (sys_begin force now_secs now b snap m)
  then show ?thesis using agree_phase1 [OF assms(2)] by simp
next
  case (sys_write b snap io written trace m)
  then have "m = sy_metrics s \<or> (\<exists>stage. m = record_write_error P stage (sy_metrics s))"
    by (auto simp: flush_phase2_def split: prod.splits option.splits)
  then show ?thesis using sys_write assms(2) agree_write_error by auto
qed (use assms(2) in \<open>simp_all add: agree_admit agree_realtime agree_config agree_records agree_phase3 agree_boot\<close>)

lemma agree_reach: "sys_reach P ex ser de opts path s \<Longrightarrow> metrics_agree P (sy_metrics s)"
proof (induction rule: sys_reach.induct)
  case (sys_reach_init now_secs)
  then show ?case by (simp add: sys_initial_def agree_boot)
next
  case (sys_reach_step s s')
  then show ?case using agree_step by blast
qed

end

section \<open>Nothing stale\<close>

text \<open>C18: Nothing stale is ever exported. In every state the exporter can reach, through any
  interleaving of frames with any content, flushes, failing writes, crashes and restarts, a series
  of a cell, of a temperature sensor, of a peer pack or of a device's identity exists exactly if
  the record of a tracked device lists it, and a device has at most one identity series, so
  whatever strings an unauthenticated sender varies do not pile up.\<close>

theorem no_stale_series:
  assumes "prometheus P" and "sys_reach P ex ser de opts path s"
  shows "records_agree P (m_store (sy_metrics s)) (m_devices (sy_metrics s))
    \<and> (series_exists P (m_store (sy_metrics s)) (Cf Device_info) (sn # x)
       \<and> series_exists P (m_store (sy_metrics s)) (Cf Device_info) (sn # y) \<longrightarrow> x = y)"
proof -
  have a: "records_agree P (m_store (sy_metrics s)) (m_devices (sy_metrics s))"
    using prometheus.agree_reach [OF assms] by (simp add: metrics_agree_def)
  have one: "\<exists>e. sget (m_devices (sy_metrics s)) sn = Some e \<and> ls_last_device_info e = Some (sn # z)"
    if "series_exists P (m_store (sy_metrics s)) (Cf Device_info) (sn # z)" for z
    using that a unfolding records_agree_def info_owned_def by (fastforce simp: owns_def)
  show ?thesis
  proof (intro conjI impI a)
    assume "series_exists P (m_store (sy_metrics s)) (Cf Device_info) (sn # x)
      \<and> series_exists P (m_store (sy_metrics s)) (Cf Device_info) (sn # y)"
    then show "x = y" using one [of x] one [of y] by auto
  qed
qed

text \<open>The witness: a frame with one cell, then a frame with none.\<close>

definition cell_frame :: "(nat \<times> f64) list \<Rightarrow> realtime_data" where
  "cell_frame cells = (realtime_from_registers [])\<lparr> cells_v := cells \<rparr>"

definition cell_run :: "(nat \<times> f64) list list \<Rightarrow> (series, coulomb_state) system" where
  "cell_run frames = fold (\<lambda>cells s. s\<lparr> sy_metrics :=
       update_realtime map_registry ''A'' (cell_frame cells) (sy_metrics s) \<rparr>) frames
     (sys_initial map_registry Some metrics_options_default 0)"

lemma cell_run_reach:
  "sys_reach map_registry (\<lambda>_. 0) Some Some metrics_options_default path (cell_run frames)"
proof -
  have step: "sys_reach map_registry (\<lambda>_. 0) Some Some metrics_options_default path s \<Longrightarrow>
    sys_reach map_registry (\<lambda>_. 0) Some Some metrics_options_default path
      (fold (\<lambda>cells s. s\<lparr> sy_metrics :=
        update_realtime map_registry ''A'' (cell_frame cells) (sy_metrics s) \<rparr>) frames s)"
    for s :: "(series, coulomb_state) system"
    by (induction frames arbitrary: s) (auto intro: sys_reach_step sys_realtime)
  show ?thesis unfolding cell_run_def by (rule step [OF sys_reach_init])
qed

lemma no_stale_series_witness:
  "series_exists map_registry (m_store (sy_metrics (cell_run [[(1, flit 3)]]))) (Rt Cell_voltage) [''A'', idx_label 1]
   \<and> \<not> series_exists map_registry (m_store (sy_metrics (cell_run [[(1, flit 3)], []]))) (Rt Cell_voltage) [''A'', idx_label 1]"
proof -
  have records: "map_option ls_cells (sget (m_devices (sy_metrics (cell_run [[(1, flit 3)]]))) ''A'') = Some [1]"
    "map_option ls_cells (sget (m_devices (sy_metrics (cell_run [[(1, flit 3)], []]))) ''A'') = Some []"
    by code_simp+
  have exists: "series_exists map_registry (m_store (sy_metrics (cell_run frames))) (Rt Cell_voltage) [''A'', idx_label i]
      = (\<exists>e. sget (m_devices (sy_metrics (cell_run frames))) ''A'' = Some e \<and> i \<in> set (ls_cells e))" for frames i
    using conjunct1 [OF no_stale_series [OF map_registry_laws cell_run_reach [where frames = frames]]]
    by (auto simp: records_agree_def)
  show ?thesis using records by (auto simp: exists)
qed

end
