(* ===== verification/Persistence_Facts.thy ===== *)
theory Persistence_Facts
  imports Persistence
begin

text \<open>
  Every step of the exporter keeps the invariant of \<open>Persistence\<close>, and so no counter a scrape
  has ever shown decreases, across failed writes, crashes and restarts.
\<close>

section \<open>Operations on the guarded state\<close>

abbreviation dkeys :: "coulomb_shared \<Rightarrow> string set" where
  "dkeys sh \<equiv> set (skeys (sh_devices sh))"

text \<open>What an operation under the lock must keep.\<close>

definition keeps :: "metrics_options \<Rightarrow> coulomb_shared \<Rightarrow> coulomb_shared \<Rightarrow> bool" where
  "keeps opts sh sh' \<longleftrightarrow> shared_ok opts sh' \<and> sh_writing sh' = sh_writing sh \<and> dkeys sh \<subseteq> dkeys sh'"

lemma keeps_refl: "shared_ok opts sh \<Longrightarrow> keeps opts sh sh"
  by (simp add: keeps_def)

lemma keeps_set_device:
  assumes "track (mo_max_devices opts) sn sh = Some (e, sh')" and "shared_ok opts sh"
    and "pending_nonneg (ls_pending e')"
  shows "keeps opts sh (set_device sn e' sh')"
  using track_ok [OF assms(1,2)] set_device_ok [of opts sh' sn e'] assms(3)
  by (auto simp: keeps_def set_skeys_sput)

lemma track_pending:
  assumes "track (mo_max_devices opts) sn sh = Some (e, sh')" and "shared_ok opts sh"
  shows "pending_nonneg (ls_pending e)"
  using track_ok(1,2) [OF assms] by (auto simp: shared_ok_def)

lemma keeps_admit:
  assumes "shared_ok (m_opts m) (m_shared m)"
  shows "keeps (m_opts m) (m_shared m) (m_shared (snd (admit sn m)))"
  using assms
  by (auto simp: admit_def keeps_def shared_ok_def sget_None_iff set_skeys_sput length_sput smap_ok_sput
      sget_sput pending_default_nonneg split: if_splits)

lemma keeps_update_realtime:
  assumes "shared_ok (m_opts m) (m_shared m)"
  shows "keeps (m_opts m) (m_shared m) (m_shared (update_realtime P sn d m))
    \<and> m_opts (update_realtime P sn d m) = m_opts m"
proof (cases "track (mo_max_devices (m_opts m)) sn (m_shared m)")
  case None
  then show ?thesis using assms by (simp add: update_realtime_def keeps_refl)
next
  case (Some es)
  obtain e sh where "es = (e, sh)" by fastforce
  then show ?thesis
    using Some keeps_set_device [OF _ assms, of sn e sh] track_pending [OF _ assms, of sn e sh]
    by (simp add: update_realtime_def Let_def split_beta)
qed

lemma keeps_update_config:
  assumes "shared_ok (m_opts m) (m_shared m)"
  shows "keeps (m_opts m) (m_shared m) (m_shared (update_config P sn c m))
    \<and> m_opts (update_config P sn c m) = m_opts m"
proof (cases "track (mo_max_devices (m_opts m)) sn (m_shared m)")
  case None
  then show ?thesis using assms by (simp add: update_config_def Let_def keeps_refl)
next
  case (Some es)
  obtain e sh where "es = (e, sh)" by fastforce
  then show ?thesis
    using Some keeps_set_device [OF _ assms, of sn e sh] track_pending [OF _ assms, of sn e sh]
    by (simp add: update_config_def Let_def split_beta set_device_info_def)
qed

lemma integrate_entry_pending:
  assumes "pending_nonneg (ls_pending e)" "0 \<le> mo_max_frame_amp_hours opts" "0 \<le> mo_max_frame_watt_hours opts"
  shows "pending_nonneg (ls_pending (snd (integrate_entry opts offset d cur now_secs e)))"
proof (cases "integrate_deltas opts offset d cur now_secs e")
  case None
  then show ?thesis using assms by (simp add: integrate_entry_def)
next
  case (Some dc)
  obtain delta clamped where dc: "dc = (delta, clamped)" by fastforce
  have "pending_nonneg delta"
    by (rule pending_within_nonneg, rule frame_delta_within) (use Some dc assms in auto)
  then show ?thesis using Some assms by (simp add: integrate_entry_def dc pending_add_nonneg)
qed

lemma keeps_accumulate:
  assumes "accumulate_coulombs P ex sn d now_secs m = Some m'" and "shared_ok (m_opts m) (m_shared m)"
    and "0 \<le> mo_max_frame_amp_hours (m_opts m)" "0 \<le> mo_max_frame_watt_hours (m_opts m)"
  shows "keeps (m_opts m) (m_shared m) (m_shared m') \<and> m_opts m' = m_opts m"
  using assms(1)
proof (rule accumulate_elim)
  fix cur e sh off rep cal s clamped e1 m2
  assume t: "track (mo_max_devices (m_opts m)) sn (m_shared m) = Some (e, sh)"
    and i: "integrate_entry (m_opts m) off d cur now_secs e = (clamped, e1)"
    and m2: "m2 = m\<lparr> m_shared := set_device sn (published_entry rep e1) (sh\<lparr> sh_calibrator := cal \<rparr>),
      m_store := published_store P sn rep e1 s \<rparr>"
    and m': "m' = (if clamped then record_sample_rejected P REJECT_CLAMPED_DELTA m2 else m2)"
  have "pending_nonneg (ls_pending e1)"
    using integrate_entry_pending [OF track_pending [OF t assms(2)] assms(3,4), of off d cur now_secs] i by simp
  then have "keeps (m_opts m) (m_shared m) (set_device sn (published_entry rep e1) sh)"
    by (intro keeps_set_device [OF t assms(2)]) simp
  then show ?thesis by (simp add: m' m2 record_sample_rejected_def keeps_def shared_ok_def)
qed

lemma take_pending_simps:
  "fst (take_pending sh) = smapv ls_pending (sh_devices sh)"
  "sh_devices (snd (take_pending sh)) = smapv (\<lambda>e. e\<lparr> ls_pending := pending_default \<rparr>) (sh_devices sh)"
  "sh_writing (snd (take_pending sh)) = sh_writing sh"
  by (simp_all add: take_pending_def smapv_def)

lemma length_smapv [simp]: "length (smapv f m) = length m"
  by (simp add: smapv_def)

lemma keeps_take: "shared_ok opts sh \<Longrightarrow> keeps opts sh (snd (take_pending sh))"
  by (auto simp: keeps_def shared_ok_def take_pending_simps sget_smapv pending_default_nonneg)

lemma snapshot_ok_take:
  assumes "shared_ok opts sh"
  shows "snapshot_ok (fst (take_pending sh))" and "fst ` set (fst (take_pending sh)) = dkeys sh"
proof -
  have keys: "List.map fst (fst (take_pending sh)) = skeys (sh_devices sh)"
    by (simp add: take_pending_simps flip: skeys_def)
  then show "fst ` set (fst (take_pending sh)) = dkeys sh" by (metis list.set_map)
  have ok: "smap_ok (smapv ls_pending (sh_devices sh))" using assms by (simp add: shared_ok_def)
  have "distinct (skeys (sh_devices sh))" using assms distinct_skeys by (auto simp: shared_ok_def)
  moreover have "pending_nonneg p" if "(sn, p) \<in> set (fst (take_pending sh))" for sn p
  proof -
    have "sget (smapv ls_pending (sh_devices sh)) sn = Some p"
      using that ok by (simp add: take_pending_simps sget_iff_in)
    then show ?thesis using assms by (auto simp: sget_smapv shared_ok_def)
  qed
  ultimately show "snapshot_ok (fst (take_pending sh))" by (auto simp: snapshot_ok_def keys)
qed

lemma keeps_requeue:
  assumes "shared_ok opts sh" "snapshot_ok snap"
  shows "keeps opts sh (requeue_pending snap sh)"
  using assms
proof (induction snap sh rule: requeue_pending.induct)
  case (2 sn p snap sh)
  let ?sh = "case sget (sh_devices sh) sn of None \<Rightarrow> sh
        | Some e \<Rightarrow> sh\<lparr> sh_devices := sput sn
            (e\<lparr> ls_pending := pending_add (ls_pending e) p \<rparr>) (sh_devices sh) \<rparr>"
  have p: "pending_nonneg p" "snapshot_ok snap" using 2(3) by (auto simp: snapshot_ok_def)
  have k: "keeps opts sh ?sh"
  proof (cases "sget (sh_devices sh) sn")
    case None
    then show ?thesis using 2(2) by (simp add: keeps_refl)
  next
    case (Some e)
    have "pending_nonneg (ls_pending e)" using 2(2) Some by (auto simp: shared_ok_def)
    then have "shared_ok opts (set_device sn (e\<lparr> ls_pending := pending_add (ls_pending e) p \<rparr>) sh)"
      using 2(2) Some p(1) by (intro set_device_ok) (auto simp: pending_add_nonneg)
    then show ?thesis using Some by (auto simp: keeps_def set_device_def set_skeys_sput)
  qed
  then have "keeps opts ?sh (requeue_pending snap ?sh)" using 2(1) p(2) by (simp add: keeps_def)
  then show ?case using k by (auto simp: keeps_def)
qed (simp add: keeps_refl)

end
