(* ===== verification/Flush_Facts.thy ===== *)
theory Flush_Facts
  imports Persistence_Facts
begin

text \<open>
  The flush as a whole: it moves every pending delta to its counter or none at all, it writes at
  most once per interval however often it is called, and on a working file system it succeeds.
\<close>

section \<open>Pending totals\<close>

definition pending_value :: "'s metrics \<Rightarrow> counter_family \<Rightarrow> string \<Rightarrow> f64" where
  "pending_value m f sn = (case sget (m_devices m) sn of None \<Rightarrow> 0 | Some e \<Rightarrow> pending_of f (ls_pending e))"

lemma sget_requeue:
  assumes "distinct (List.map fst snap)"
  shows "sget (sh_devices (requeue_pending snap sh)) sn = (case sget (sh_devices sh) sn of None \<Rightarrow> None
    | Some e \<Rightarrow> Some (case map_of snap sn of None \<Rightarrow> e
        | Some p \<Rightarrow> e\<lparr> ls_pending := pending_add (ls_pending e) p \<rparr>))"
  using assms
proof (induction snap sh rule: requeue_pending.induct)
  case (2 k p snap sh)
  have k: "map_of snap k = None" using 2(2) by (simp add: map_of_eq_None_iff)
  show ?case
    using 2 k by (cases "sget (sh_devices sh) k") (auto simp: sget_sput split: option.splits)
qed (simp split: option.split)

lemma requeue_keeps_rest [simp]:
  "sh_last_persist_at (requeue_pending snap sh) = sh_last_persist_at sh"
  "sh_writing (requeue_pending snap sh) = sh_writing sh"
  by (induction snap sh rule: requeue_pending.induct) (auto split: option.splits)

text \<open>What is taken and put back is there again, and between the two nothing is pending.\<close>

lemma pending_take:
  assumes "shared_ok opts (m_shared m)"
  shows "delta_of (fst (take_pending (m_shared m))) f sn = pending_value m f sn"
proof -
  have "map_of (smapv ls_pending (m_devices m)) sn = map_option ls_pending (sget (m_devices m) sn)"
    by (simp add: sget_smapv flip: sget_def)
  then show ?thesis
    by (simp add: delta_of_def pending_value_def take_pending_simps split: option.split)
qed

lemma pending_taken:
  "sh_devices (m_shared m') = sh_devices (snd (take_pending (m_shared m))) \<Longrightarrow> pending_value m' f sn = 0"
  by (simp add: pending_value_def take_pending_simps sget_smapv split: option.split)

lemma pending_back:
  assumes "shared_ok opts (m_shared m)"
    and "m_devices m' = sh_devices (requeue_pending (fst (take_pending (m_shared m))) sh)"
    and "sh_devices sh = sh_devices (snd (take_pending (m_shared m)))"
  shows "pending_value m' f sn = pending_value m f sn"
proof -
  have "distinct (List.map fst (fst (take_pending (m_shared m))))"
    using snapshot_ok_take(1) [OF assms(1)] by (simp add: snapshot_ok_def)
  note returned = sget_requeue [OF this, of sh sn]
  have "map_of (smapv ls_pending (m_devices m)) sn = map_option ls_pending (sget (m_devices m) sn)"
    by (simp add: sget_smapv flip: sget_def)
  then show ?thesis
    using returned assms(2,3)
    by (simp add: pending_value_def take_pending_simps sget_smapv pending_of_add split: option.split)
qed

section \<open>All or nothing\<close>

text \<open>Whether a call of the flush moves the deltas.\<close>

definition flush_moves ::
  "'s prom_api \<Rightarrow> (coulomb_state \<Rightarrow> 'b option) \<Rightarrow> bool \<Rightarrow> f64 \<Rightarrow> int \<Rightarrow> io_results \<Rightarrow> 's metrics \<Rightarrow> 'b disk \<Rightarrow> bool" where
  "flush_moves P ser force now_secs now io m d =
     (case mo_coulomb_state_path (m_opts m) of None \<Rightarrow> True
      | Some path \<Rightarrow> (case fst (flush_phase1 P ser force now_secs now m) of None \<Rightarrow> False
        | Some (b, snap) \<Rightarrow> snd (write_file_durable path b io d) = None))"

context prometheus
begin

lemma flush_state_same: "shared_ok opts (m_shared m) \<Longrightarrow> same_counters P (m_store m) (snd (flush_state P m))"
proof -
  assume ok: "shared_ok opts (m_shared m)"
  obtain rows st where r: "flush_rows P (fst (take_pending (m_shared m))) ([], m_store m) = (rows, st)"
    by fastforce
  have "distinct (List.map fst (fst (take_pending (m_shared m))))"
    using snapshot_ok_take(1) [OF ok] by (simp add: snapshot_ok_def)
  from flush_rows_facts [OF r this] show ?thesis by (simp add: flush_state_def r)
qed

lemma phase1_none:
  assumes "flush_phase1 P ser force now_secs now m = (None, m')" and "shared_ok opts (m_shared m)"
  shows "same_counters P (m_store m) (m_store m') \<and> pending_value m' f sn = pending_value m f sn"
proof -
  obtain snap sh where t: "take_pending (m_shared m) = (snap, sh)" by fastforce
  obtain state st where s: "flush_state P m = (state, st)" by fastforce
  have st: "same_counters P (m_store m) st" using flush_state_same [OF assms(2)] s by simp
  consider "m' = m" | "m' = stamp_written P now_secs m"
    | "m' = record_write_error P Serialize (m\<lparr> m_shared := requeue_pending snap sh, m_store := st \<rparr>)"
    using assms(1) t s by (auto simp: flush_phase1_def Let_def split: if_splits option.splits)
  then show ?thesis
  proof cases
    case 3
    have "pending_value m' f sn = pending_value m f sn"
      by (rule pending_back [OF assms(2)]) (use 3 t in \<open>simp_all add: record_write_error_def\<close>)
    then show ?thesis using 3 st by (simp add: record_write_error_def same_inc)
  qed (simp_all add: same_records pending_value_def stamp_written_def same_set)
qed

lemma phase1_some:
  assumes "flush_phase1 P ser force now_secs now m = (Some (b, snap), m')" and "shared_ok opts (m_shared m)"
  shows "snap = fst (take_pending (m_shared m)) \<and> snapshot_ok snap
    \<and> same_counters P (m_store m) (m_store m')
    \<and> sh_devices (m_shared m') = sh_devices (snd (take_pending (m_shared m)))
    \<and> sh_writing (m_shared m') \<and> m_opts m' = m_opts m \<and> \<not> sh_writing (m_shared m)
    \<and> ser (fst (flush_state P m)) = Some b"
proof -
  obtain snap' sh where t: "take_pending (m_shared m) = (snap', sh)" by fastforce
  obtain state st where s: "flush_state P m = (state, st)" by fastforce
  show ?thesis
    using assms(1) flush_state_same [OF assms(2)] snapshot_ok_take(1) [OF assms(2)] t s
    by (auto simp: flush_phase1_def Let_def split: if_splits option.splits)
qed

lemma counter_apply:
  assumes "snapshot_ok snap"
  shows "counter_value P (apply_pending P snap st) f sn = counter_value P st f sn + delta_of snap f sn"
  using assms counter_apply_pending [of snap st f sn] by (simp add: snapshot_ok_def delta_of_def)

lemma phase3_facts:
  assumes "shared_ok opts (m_shared m)" "snap = fst (take_pending (m_shared m))"
    and "sh_devices (m_shared m1) = sh_devices (snd (take_pending (m_shared m)))"
    and "same_counters P (m_store m) (m_store m1)"
    and "m' = flush_phase3 P written snap now_secs now m1"
  shows "if written
    then counter_value P (m_store m') f sn = counter_value P (m_store m) f sn + pending_value m f sn
       \<and> pending_value m' f sn = 0
    else counter_value P (m_store m') f sn = counter_value P (m_store m) f sn
       \<and> pending_value m' f sn = pending_value m f sn"
proof (cases written)
  case True
  have "snapshot_ok snap" using snapshot_ok_take(1) [OF assms(1)] assms(2) by simp
  from counter_apply [OF this, of "m_store m1" f sn]
  have "counter_value P (m_store m') f sn = counter_value P (m_store m) f sn + pending_value m f sn"
    using True assms(2,4,5) pending_take [OF assms(1)] same_records(6)
    by (simp add: flush_phase3_def Let_def same_counters_def)
  moreover have "pending_value m' f sn = 0"
    by (rule pending_taken [of _ m]) (use True assms(3,5) in \<open>simp add: flush_phase3_def Let_def stamp_written_def\<close>)
  ultimately show ?thesis using True by simp
next
  case False
  have "pending_value m' f sn = pending_value m f sn"
    by (rule pending_back [OF assms(1), of _ "(m_shared m1)\<lparr> sh_last_persist_at := Some now \<rparr>"])
      (use False assms(2,3,5) in \<open>simp_all add: flush_phase3_def Let_def\<close>)
  then show ?thesis using False assms(4,5) by (simp add: flush_phase3_def Let_def same_counters_def)
qed

lemma flush_all_or_nothing:
  assumes "flush_coulomb_state P ser force now_secs now io (m, d) = (m', d')"
    and "shared_ok opts (m_shared m)"
  shows "if flush_moves P ser force now_secs now io m d
    then counter_value P (m_store m') f sn = counter_value P (m_store m) f sn + pending_value m f sn
       \<and> pending_value m' f sn = 0
    else counter_value P (m_store m') f sn = counter_value P (m_store m) f sn
       \<and> pending_value m' f sn = pending_value m f sn"
proof (cases "mo_coulomb_state_path (m_opts m)")
  case None
  obtain snap sh where t: "take_pending (m_shared m) = (snap, sh)" by fastforce
  have m': "m' = m\<lparr> m_shared := sh, m_store := apply_pending P snap (m_store m) \<rparr>"
    using assms(1) None t by (simp add: flush_coulomb_state_def flush_unpersisted_def)
  have "snapshot_ok snap" using snapshot_ok_take(1) [OF assms(2)] t by simp
  moreover have "pending_value m' f sn = 0" by (rule pending_taken [of _ m]) (simp add: m' t)
  ultimately show ?thesis
    using counter_apply pending_take [OF assms(2), of f sn] t None by (simp add: m' flush_moves_def)
next
  case (Some path)
  obtain r m1 where p1: "flush_phase1 P ser force now_secs now m = (r, m1)" by fastforce
  show ?thesis
  proof (cases r)
    case None
    then show ?thesis
      using assms(1) Some p1 phase1_none [OF _ assms(2), of ser force now_secs now m1 f sn]
      by (simp add: flush_coulomb_state_def flush_moves_def same_counters_def)
  next
    case (Some bs)
    obtain b snap where bs: "bs = (b, snap)" by fastforce
    note facts = phase1_some [OF p1 [unfolded Some bs] assms(2)]
    obtain trace res where w: "write_file_durable path b io d = (trace, res)" by fastforce
    define m2 where "m2 = (case res of None \<Rightarrow> m1 | Some (stage, e) \<Rightarrow> record_write_error P stage m1)"
    have m2: "m_shared m2 = m_shared m1" "same_counters P (m_store m) (m_store m2)"
      using facts by (auto simp: m2_def record_write_error_def same_inc split: option.split)
    have "m' = flush_phase3 P (res = None) snap now_secs now m2"
      using assms(1) \<open>mo_coulomb_state_path (m_opts m) = Some path\<close> p1 w
      by (auto simp: Some bs flush_coulomb_state_def flush_phase2_def m2_def split: option.splits)
    from phase3_facts [OF assms(2) _ _ m2(2) this] show ?thesis
      using facts m2(1) \<open>mo_coulomb_state_path (m_opts m) = Some path\<close> p1 w
      by (simp add: flush_moves_def Some bs)
  qed
qed

end


section \<open>Properties\<close>

text \<open>The witnesses run on a device with 15 Ah pending, an empty registry and an empty disk.\<close>

definition demo_pending :: pending where
  "demo_pending = pending_default\<lparr> pd_ah := \<lparr> sp_charge = flit 15, sp_discharge = 0 \<rparr> \<rparr>"

definition demo_metrics :: "series metrics" where
  "demo_metrics = (metrics_new map_registry demo_metrics_options)\<lparr> m_shared :=
     (coulomb_shared_new options_default)\<lparr> sh_devices :=
       [(''A'', last_series_default\<lparr> ls_pending := demo_pending \<rparr>)] \<rparr> \<rparr>"

definition empty_disk :: "'b disk" where
  "empty_disk = \<lparr> dk_live = (\<lambda>_. None), dk_stale = (\<lambda>_. []) \<rparr>"

lemma demo_pending_nonneg: "pending_nonneg demo_pending"
  unfolding pending_nonneg_def
proof
  have "0 \<le> flit 15" by code_simp
  then show "0 \<le> pending_of f demo_pending" for f
    by (cases f) (simp_all add: demo_pending_def pending_default_def split_default_def)
qed

lemma demo_shared_ok: "shared_ok (m_opts demo_metrics) (m_shared demo_metrics)"
  by (simp add: demo_metrics_def shared_ok_def smap_ok_Cons demo_pending_nonneg metrics_new_def
      demo_metrics_options_def metrics_options_default_def)

lemma demo_pending_value: "pending_value demo_metrics Charge_amp_hours ''A'' = flit 15"
  by (simp add: pending_value_def demo_metrics_def demo_pending_def)

text \<open>C13: A flush moves every pending delta of every device to its counter, or none of them: when
  no state file is configured or the write succeeded, each counter grows by exactly the pending
  delta and nothing is left pending; when it was throttled, excluded by another writer or its
  write failed at any stage, each counter is as before and every delta is pending again.\<close>

theorem flush_moves_all_or_nothing:
  assumes "prometheus P"
    and "flush_coulomb_state P ser force now_secs now io (m, d) = (m', d')"
    and "shared_ok (m_opts m) (m_shared m)"
  shows "if flush_moves P ser force now_secs now io m d
    then counter_value P (m_store m') f sn = counter_value P (m_store m) f sn + pending_value m f sn
       \<and> pending_value m' f sn = 0
    else counter_value P (m_store m') f sn = counter_value P (m_store m) f sn
       \<and> pending_value m' f sn = pending_value m f sn"
  using assms by (rule prometheus.flush_all_or_nothing)

lemma flush_moves_all_or_nothing_witness:
  "counter_value map_registry
     (m_store (fst (flush_coulomb_state map_registry Some False (flit 7) 0 (io_ok\<lparr> io_sync := Some OtherKind \<rparr>)
       (demo_metrics, empty_disk)))) Charge_amp_hours ''A'' = 0
   \<and> pending_value (fst (flush_coulomb_state map_registry Some False (flit 7) 0
       (io_ok\<lparr> io_sync := Some OtherKind \<rparr>) (demo_metrics, empty_disk))) Charge_amp_hours ''A'' = flit 15"
proof -
  let ?io = "io_ok\<lparr> io_sync := Some OtherKind \<rparr>"
  obtain m' d' where r: "flush_coulomb_state map_registry Some False (flit 7) 0 ?io
      (demo_metrics, empty_disk) = (m', d')"
    by fastforce
  have "\<not> flush_moves map_registry Some False (flit 7) 0 ?io demo_metrics empty_disk"
    by (auto simp: flush_moves_def write_file_durable_def write_and_rename_def io_ok_def Let_def
        split: option.splits prod.splits)
      (simp_all add: demo_metrics_def metrics_new_def demo_metrics_options_def)
  moreover have "counter_value map_registry (m_store demo_metrics) Charge_amp_hours ''A'' = 0"
    by code_simp
  ultimately show ?thesis
    using flush_moves_all_or_nothing [OF map_registry_laws r demo_shared_ok, of Charge_amp_hours "''A''"] r
    by (simp add: demo_pending_value)
qed

text \<open>C14: However often frames call it, the flush attempts at most one write per configured
  interval: after a flush that started a write at instant \<open>now\<close>, whether the write succeeded or
  failed, every flush that is not forced and comes before the interval has passed leaves the disk
  and every counter as they are.\<close>

theorem flush_rate_limited:
  assumes "prometheus P" and "mo_coulomb_state_path (m_opts m) = Some path"
    and "fst (flush_phase1 P ser force now_secs now m) \<noteq> None"
    and "flush_coulomb_state P ser force now_secs now io (m, d) = (m1, d1)"
    and "m_opts m2 = m_opts m" and "shared_ok (m_opts m2) (m_shared m2)"
    and "sh_last_persist_at (m_shared m2) = sh_last_persist_at (m_shared m1)"
    and "0 < mo_state_min_interval (m_opts m)" and "now' < now + mo_state_min_interval (m_opts m)"
    and "flush_coulomb_state P ser False now_secs' now' io' (m2, d1) = (m3, d3)"
  shows "d3 = d1 \<and> counter_value P (m_store m3) f sn = counter_value P (m_store m2) f sn"
proof -
  have "sh_last_persist_at (m_shared m1) = Some now"
    using assms(2-4)
    by (auto simp: flush_coulomb_state_def flush_phase3_def Let_def stamp_written_def
        split: option.splits prod.splits if_splits)
  then have "throttled now' m2" using assms(5,7-9) by (simp add: throttled_def)
  then have "fst (flush_phase1 P ser False now_secs' now' m2) = None"
    by (simp add: flush_phase1_def)
  then obtain m' where none: "flush_phase1 P ser False now_secs' now' m2 = (None, m')"
    by (metis prod.collapse)
  then have "m3 = m' \<and> d3 = d1"
    using assms(2,5,10) by (simp add: flush_coulomb_state_def)
  then show ?thesis
    using prometheus.phase1_none [OF assms(1) none assms(6), of f sn]
    by (simp add: same_counters_def)
qed

lemma demo_phase1: "fst (flush_phase1 map_registry Some False (flit 7) 0 demo_metrics) \<noteq> None"
  by code_simp

lemma demo_opts: "m_opts demo_metrics = demo_metrics_options"
  "mo_coulomb_state_path demo_metrics_options = Some ''/var/coulombs.json''"
  "mo_state_min_interval demo_metrics_options = 5000000000"
  by (simp_all add: demo_metrics_def metrics_new_def demo_metrics_options_def metrics_options_default_def
      secs_to_nanos_def)

lemma demo_path: "with_extension ''/var/coulombs.json'' ''tmp'' \<noteq> ''/var/coulombs.json''"
  "path_parent ''/var/coulombs.json'' \<noteq> None"
  by code_simp+

lemma flush_rate_limited_witness:
  "\<exists>m1 d1. flush_coulomb_state map_registry Some False (flit 7) 0 io_ok (demo_metrics, empty_disk) = (m1, d1)
    \<and> snd (flush_coulomb_state map_registry Some False (flit 8) 4999999999 io_ok
        (demo_metrics\<lparr> m_shared := (m_shared demo_metrics)\<lparr> sh_last_persist_at := sh_last_persist_at (m_shared m1) \<rparr> \<rparr>, d1)) = d1"
proof -
  obtain m1 d1 where r: "flush_coulomb_state map_registry Some False (flit 7) 0 io_ok
      (demo_metrics, empty_disk) = (m1, d1)"
    by fastforce
  let ?m2 = "demo_metrics\<lparr> m_shared := (m_shared demo_metrics)\<lparr> sh_last_persist_at := sh_last_persist_at (m_shared m1) \<rparr> \<rparr>"
  obtain m3 d3 where r2: "flush_coulomb_state map_registry Some False (flit 8) 4999999999 io_ok
      (?m2, d1) = (m3, d3)"
    by fastforce
  have "shared_ok (m_opts ?m2) (m_shared ?m2)" using demo_shared_ok by (simp add: shared_ok_def)
  then have "d3 = d1"
    using flush_rate_limited [OF map_registry_laws _ demo_phase1 r _ _ _ _ _ r2] by (simp add: demo_opts)
  then show ?thesis using r r2 by auto
qed

context prometheus
begin

lemma flush_completes:
  assumes "shared_ok (m_opts m) (m_shared m)"
    and "mo_coulomb_state_path (m_opts m) = Some path" and "path_parent path \<noteq> None"
    and "with_extension path ''tmp'' \<noteq> path"
    and "\<not> sh_writing (m_shared m)"
    and "force \<or> \<not> throttled now m \<and> list_ex (\<lambda>(sn, e). has_pending e) (m_devices m)"
    and "ser (fst (flush_state P m)) = Some b"
    and "flush_coulomb_state P ser force now_secs now io_ok (m, d) = (m', d')"
  shows "counter_value P (m_store m') f sn = counter_value P (m_store m) f sn + pending_value m f sn
    \<and> pending_value m' f sn = 0 \<and> \<not> sh_writing (m_shared m')
    \<and> disk_possible d' path = [Some (Data b)]"
proof -
  obtain snap m1 where p1: "flush_phase1 P ser force now_secs now m = (Some (b, snap), m1)"
    using assms(5-7) by (auto simp: flush_phase1_def Let_def split_beta)
  obtain trace res where w: "write_file_durable path b io_ok d = (trace, res)" by fastforce
  have res: "res = None"
    using w by (auto simp: write_file_durable_def write_and_rename_def io_ok_def Let_def split: if_splits)
  have "disk_possible (last trace) path = [Some (Data b)]"
    using durable_write_core [OF assms(4) w] assms(3) by (simp add: res io_ok_def)
  moreover have "d' = last trace" "\<not> sh_writing (m_shared m')"
    using assms(2,8) p1 w
    by (auto simp: flush_coulomb_state_def flush_phase2_def flush_phase3_def Let_def res)
  moreover have "flush_moves P ser force now_secs now io_ok m d"
    using assms(2) p1 w by (simp add: flush_moves_def res)
  ultimately show ?thesis
    using flush_all_or_nothing [OF assms(8,1), of f sn] by simp
qed

end



end
