(* ===== verification/Crash_Safety.thy ===== *)
theory Crash_Safety
  imports Flush_Facts
begin

text \<open>
  The invariant of the persistence system is kept by every step, and with it the counters are
  monotonic: the assumptions on the registry, the serializer, the configuration and the file
  system are those of the locale \<open>exporter\<close>.
\<close>

locale exporter = prometheus P for P :: "'s prom_api" +
  fixes ex :: "f64 \<Rightarrow> f64"
    and ser :: "coulomb_state \<Rightarrow> 'b option"
    and de :: "'b \<Rightarrow> coulomb_state option"
    and opts :: metrics_options
    and path :: string
  assumes json: "json_roundtrip ser de"
    and state_path: "mo_coulomb_state_path opts = Some path"
    and tmp_name: "with_extension path ''tmp'' \<noteq> path"
    and parent: "path_parent path \<noteq> None"
    and caps: "0 \<le> mo_max_frame_amp_hours opts" "0 \<le> mo_max_frame_watt_hours opts"
begin

abbreviation ok :: "('s, 'b) system \<Rightarrow> bool" where
  "ok \<equiv> sys_ok P de opts path"

abbreviation advances :: "('s, 'b) system \<Rightarrow> ('s, 'b) system \<Rightarrow> bool" where
  "advances s s' \<equiv> ok s' \<and> (\<forall>f sn. counters P s f sn \<le> counters P s' f sn)"

lemma counters_nonneg: "ok s \<Longrightarrow> 0 \<le> counters P s f sn"
  by (simp add: sys_ok_def)

lemma sys_okI:
  assumes "m_opts (sy_metrics s) = opts" "shared_ok opts (m_shared (sy_metrics s))"
    and "sh_writing (m_shared (sy_metrics s)) = (sy_flight s \<noteq> Idle)"
    and "\<And>f sn. 0 \<le> counters P s f sn"
    and "\<And>f sn. sn \<notin> dkeys (m_shared (sy_metrics s)) \<Longrightarrow> counters P s f sn = 0"
    and "\<And>c. c \<in> set (disk_possible (sy_disk s) path) \<Longrightarrow> covers de opts (counters P s) c"
    and "flight_ok P de opts path s"
  shows "ok s"
  using assms unfolding sys_ok_def by blast

lemma ok_covers: "ok s \<Longrightarrow> c \<in> set (disk_possible (sy_disk s) path) \<Longrightarrow> covers de opts (counters P s) c"
  by (simp add: sys_ok_def)

lemma ok_flight: "ok s \<Longrightarrow> flight_ok P de opts path s"
  by (simp add: sys_ok_def)

lemma untracked_zero: "ok s \<Longrightarrow> sn \<notin> dkeys (m_shared (sy_metrics s)) \<Longrightarrow> counters P s f sn = 0"
  unfolding sys_ok_def by blast

lemma counters_self: "ok s \<Longrightarrow> counters P s f sn \<le> counters P s f sn"
  using f64_le_not_nan(2) [OF counters_nonneg] by simp

lemma quiet:
  assumes "ok s" and "m_opts m = opts" and "keeps opts (m_shared (sy_metrics s)) (m_shared m)"
    and "same_counters P (m_store (sy_metrics s)) (m_store m)"
  shows "advances s (s\<lparr> sy_metrics := m \<rparr>)"
proof -
  have c: "counters P (s\<lparr> sy_metrics := m \<rparr>) = counters P s"
    using assms(4) by (intro ext) (simp add: counters_def same_counters_def)
  have "flight_ok P de opts path (s\<lparr> sy_metrics := m \<rparr>)"
    using assms(1,3) by (auto simp: sys_ok_def flight_ok_def c keeps_def split: flight.splits)
  moreover have "\<forall>f sn. sn \<in> dkeys (m_shared m) \<or> counters P s f sn = 0"
    using untracked_zero [OF assms(1)] assms(3) by (auto simp: keeps_def)
  ultimately show ?thesis
    using assms counters_self [OF assms(1)] by (simp add: sys_ok_def c keeps_def)
qed

lemma ok_shared: "ok s \<Longrightarrow> shared_ok (m_opts (sy_metrics s)) (m_shared (sy_metrics s))"
  by (simp add: sys_ok_def)

lemma ok_opts: "ok s \<Longrightarrow> m_opts (sy_metrics s) = opts"
  by (simp add: sys_ok_def)

lemma quiet_admit: "ok s \<Longrightarrow> advances s (s\<lparr> sy_metrics := snd (admit sn (sy_metrics s)) \<rparr>)"
  using keeps_admit [OF ok_shared, of s sn] ok_opts [of s]
  by (intro quiet) (simp_all add: admit_def same_admit)

lemma quiet_realtime: "ok s \<Longrightarrow> advances s (s\<lparr> sy_metrics := update_realtime P sn d (sy_metrics s) \<rparr>)"
  using keeps_update_realtime [OF ok_shared, of s P sn d] ok_opts [of s]
  by (intro quiet) (simp_all add: same_update_realtime)

lemma quiet_config: "ok s \<Longrightarrow> advances s (s\<lparr> sy_metrics := update_config P sn c (sy_metrics s) \<rparr>)"
  using keeps_update_config [OF ok_shared, of s P sn c] ok_opts [of s]
  by (intro quiet) (simp_all add: same_update_config)

lemma quiet_accumulate:
  "ok s \<Longrightarrow> accumulate_coulombs P ex sn d now_secs (sy_metrics s) = Some m \<Longrightarrow>
   advances s (s\<lparr> sy_metrics := m \<rparr>)"
  using keeps_accumulate [OF _ ok_shared, of P ex sn d now_secs s m] ok_opts [of s] caps
  by (intro quiet) (auto intro: same_accumulate)

lemma quiet_store:
  assumes "ok s" "same_counters P (m_store (sy_metrics s)) st"
  shows "advances s (s\<lparr> sy_metrics := (sy_metrics s)\<lparr> m_store := st \<rparr> \<rparr>)"
  using assms ok_opts [OF assms(1)] ok_shared [OF assms(1)]
  by (intro quiet) (simp_all add: keeps_refl)

lemma quiet_records:
  assumes "ok s"
  shows "advances s (s\<lparr> sy_metrics := mark_seen P sn now_secs (sy_metrics s) \<rparr>)"
    "advances s (s\<lparr> sy_metrics := record_request P endpoint status (sy_metrics s) \<rparr>)"
    "advances s (s\<lparr> sy_metrics := record_decoded P block_name (sy_metrics s) \<rparr>)"
    "advances s (s\<lparr> sy_metrics := record_dropped P reason (sy_metrics s) \<rparr>)"
    "advances s (s\<lparr> sy_metrics := stamp_written P now_secs (sy_metrics s) \<rparr>)"
    "advances s (s\<lparr> sy_metrics := record_write_error P stage (sy_metrics s) \<rparr>)"
  using quiet_store [OF assms] same_mark_seen same_records
  by (simp_all add: mark_seen_def record_request_def record_decoded_def record_dropped_def
      stamp_written_def record_write_error_def same_set same_inc same_touch)

section \<open>Phase 1\<close>

lemma flush_state_facts:
  assumes "ok s"
  shows "same_counters P (m_store (sy_metrics s)) (snd (flush_state P (sy_metrics s)))"
    and "smap_ok (cs_devices (fst (flush_state P (sy_metrics s))))"
    and "set (skeys (cs_devices (fst (flush_state P (sy_metrics s))))) = dkeys (m_shared (sy_metrics s))"
    and "sget (cs_devices (fst (flush_state P (sy_metrics s)))) sn = Some e \<Longrightarrow>
      entry_of f e = bump_ulp (counters P s f sn + delta_of (fst (take_pending (m_shared (sy_metrics s)))) f sn)"
proof -
  let ?snap = "fst (take_pending (m_shared (sy_metrics s)))"
  obtain rows st where r: "flush_rows P ?snap ([], m_store (sy_metrics s)) = (rows, st)" by fastforce
  note snap = snapshot_ok_take [OF ok_shared [OF assms]]
  have dist: "distinct (List.map fst ?snap)" using snap(1) by (simp add: snapshot_ok_def)
  note facts = flush_rows_facts [OF r dist]
  have fs: "flush_state P (sy_metrics s) = (\<lparr> cs_devices = rows,
      cs_calibration = cal_snapshot (sh_calibrator (m_shared (sy_metrics s))) \<rparr>, st)"
    using r by (simp add: flush_state_def)
  show "same_counters P (m_store (sy_metrics s)) (snd (flush_state P (sy_metrics s)))"
    "smap_ok (cs_devices (fst (flush_state P (sy_metrics s))))"
    "set (skeys (cs_devices (fst (flush_state P (sy_metrics s))))) = dkeys (m_shared (sy_metrics s))"
    using facts snap(2) by (simp_all add: fs)
  show "entry_of f e = bump_ulp (counters P s f sn + delta_of ?snap f sn)"
    if "sget (cs_devices (fst (flush_state P (sy_metrics s)))) sn = Some e"
  proof -
    have "map_option (entry_of f) (sget rows sn) = (case map_of ?snap sn of None \<Rightarrow> None
         | Some p \<Rightarrow> Some (bump_ulp (counter_value P (m_store (sy_metrics s)) f sn + pending_of f p)))"
      using facts by (simp cong: option.case_cong)
    then show ?thesis using that by (auto simp: fs delta_of_def counters_def split: option.splits)
  qed
qed

lemma delta_nonneg: "snapshot_ok snap \<Longrightarrow> 0 \<le> delta_of snap f sn"
  by (auto simp: snapshot_ok_def delta_of_def pending_nonneg_def dest!: map_of_SomeD split: option.split)

lemma phase1_payload:
  assumes "ok s" "ser (fst (flush_state P (sy_metrics s))) = Some b"
    "state_finite (fst (flush_state P (sy_metrics s)))"
  shows "covers de opts (\<lambda>f sn. counters P s f sn
      + delta_of (fst (take_pending (m_shared (sy_metrics s)))) f sn) (Some (Data b))"
proof -
  let ?st = "fst (flush_state P (sy_metrics s))"
  let ?snap = "fst (take_pending (m_shared (sy_metrics s)))"
  note facts = flush_state_facts [OF assms(1)]
  note snap = snapshot_ok_take [OF ok_shared [OF assms(1)]]
  have nn: "0 \<le> counters P s f sn + delta_of ?snap f sn" for f sn
    using assms(1) delta_nonneg [OF snap(1)] by (simp add: sys_ok_def f64_add_nonneg)
  have de: "parse_content de (Some (Data b)) = Some ?st"
    using json assms(2,3) by (simp add: json_roundtrip_def parse_content_def)
  have row: "0 \<le> entry_of f e \<and> counters P s f sn + delta_of ?snap f sn \<le> entry_of f e"
    if "sget (cs_devices ?st) sn = Some e" for f sn e
    using facts(4) [OF that] bump_ulp_ge [OF nn [of f sn]] nn [of f sn] by (auto intro: f64_trans)
  have none: "counters P s f sn + delta_of ?snap f sn = 0" if "sget (cs_devices ?st) sn = None" for f sn
  proof -
    have "sn \<notin> dkeys (m_shared (sy_metrics s))" using that facts(3) by (simp add: sget_None_iff)
    moreover from this have "map_of ?snap sn = None" using snap(2) by (simp add: map_of_eq_None_iff)
    ultimately show ?thesis using assms(1) by (auto simp: sys_ok_def delta_of_def)
  qed
  have "length (cs_devices ?st) = length (m_devices (sy_metrics s))"
  proof -
    have "distinct (skeys (cs_devices ?st))" "distinct (skeys (m_devices (sy_metrics s)))"
      using facts(2) ok_shared [OF assms(1)] distinct_skeys by (auto simp: shared_ok_def)
    then show ?thesis using facts(3) distinct_card by (metis length_skeys)
  qed
  then have "file_ok de opts (Some (Data b))"
    using facts(2) row ok_shared [OF assms(1)] ok_opts [OF assms(1)]
    by (auto simp: file_ok_def de shared_ok_def)
  moreover have "counters P s f sn + delta_of ?snap f sn \<le> file_total de (Some (Data b)) f sn" for f sn
    using row [of sn _ f] none [of sn f] by (auto simp: file_total_def de split: option.split)
  ultimately show ?thesis by (simp add: covers_def)
qed

lemma step_no_flush:
  assumes "ok s" "flush_phase1 P ser force now_secs now (sy_metrics s) = (None, m)"
  shows "advances s (s\<lparr> sy_metrics := m \<rparr>)"
proof -
  let ?m = "sy_metrics s"
  obtain snap sh where t: "take_pending (m_shared ?m) = (snap, sh)" by fastforce
  obtain state st where f: "flush_state P ?m = (state, st)" by fastforce
  consider "m = ?m" | "m = stamp_written P now_secs ?m"
    | "m = record_write_error P Serialize (?m\<lparr> m_shared := requeue_pending snap sh, m_store := st \<rparr>)"
    using assms(2) t f by (auto simp: flush_phase1_def Let_def split: if_splits option.splits)
  then show ?thesis
  proof cases
    case 1
    then show ?thesis using quiet_store [OF assms(1) same_counters_refl] by simp
  next
    case 2
    then show ?thesis using quiet_records(5) [OF assms(1)] by simp
  next
    case 3
    have "keeps opts (m_shared ?m) sh" "snapshot_ok snap"
      using keeps_take [OF ok_shared] snapshot_ok_take(1) [OF ok_shared] assms(1) ok_opts t
      by (metis snd_conv, metis fst_conv)
    then have "keeps opts (m_shared ?m) (requeue_pending snap sh)"
      using keeps_requeue [of opts sh snap] by (auto simp: keeps_def)
    moreover have "same_counters P (m_store ?m) st" using flush_state_facts(1) [OF assms(1)] f by simp
    ultimately show ?thesis
      using 3 ok_opts [OF assms(1)]
      by (intro quiet) (simp_all add: assms(1) record_write_error_def same_inc)
  qed
qed

lemma step_begin:
  assumes "ok s" "flush_phase1 P ser force now_secs now (sy_metrics s) = (Some (b, snap), m)"
    "state_finite (fst (flush_state P (sy_metrics s)))"
  shows "advances s (s\<lparr> sy_metrics := m, sy_flight := Writing b snap \<rparr>)"
proof -
  let ?m = "sy_metrics s"
  obtain snap' sh where t: "take_pending (m_shared ?m) = (snap', sh)" by fastforce
  obtain state st where f: "flush_state P ?m = (state, st)" by fastforce
  have m: "m = ?m\<lparr> m_shared := sh\<lparr> sh_writing := True \<rparr>, m_store := st \<rparr>" and s': "snap' = snap"
      and b: "ser state = Some b"
    using assms(2) t f by (auto simp: flush_phase1_def Let_def split: if_splits option.splits)
  have k: "keeps opts (m_shared ?m) sh"
    using keeps_take [OF ok_shared [OF assms(1)]] ok_opts [OF assms(1)] t by simp
  note sn = snapshot_ok_take [OF ok_shared [OF assms(1)], unfolded t fst_conv s']
  have c: "counters P (s\<lparr> sy_metrics := m, sy_flight := Writing b snap \<rparr>) = counters P s"
    using flush_state_facts(1) [OF assms(1)] f
    by (intro ext) (simp add: counters_def m same_counters_def)
  have cov: "covers de opts (\<lambda>f sn. counters P s f sn + delta_of snap f sn) (Some (Data b))"
    using phase1_payload [OF assms(1) _ assms(3)] b f t s' by simp
  have mf: "m_opts m = opts" "shared_ok opts (m_shared m)" "sh_writing (m_shared m)"
    "dkeys (m_shared (sy_metrics s)) \<subseteq> dkeys (m_shared m)"
    using k ok_opts [OF assms(1)] by (auto simp: m keeps_def shared_ok_def)
  show ?thesis
  proof (intro conjI allI sys_okI)
    show "counters P s f sn \<le> counters P (s\<lparr> sy_metrics := m, sy_flight := Writing b snap \<rparr>) f sn" for f sn
      unfolding c by (rule counters_self [OF assms(1)])
    show "flight_ok P de opts path (s\<lparr> sy_metrics := m, sy_flight := Writing b snap \<rparr>)"
      unfolding flight_ok_def c using sn cov mf by auto
    show "covers de opts (counters P (s\<lparr> sy_metrics := m, sy_flight := Writing b snap \<rparr>)) x"
      if "x \<in> set (disk_possible (sy_disk (s\<lparr> sy_metrics := m, sy_flight := Writing b snap \<rparr>)) path)" for x
      using that by (simp add: c ok_covers [OF assms(1)])
  qed (use mf assms(1) in \<open>auto simp: c counters_nonneg intro: untracked_zero\<close>)
qed

section \<open>Phases 2 and 3\<close>

lemma covers_mono:
  assumes "covers de opts v c" "\<And>f sn. u f sn \<le> v f sn"
  shows "covers de opts u c"
  using assms(1) f64_trans [OF assms(2)] by (simp add: covers_def)

lemma covers_without_delta:
  assumes "ok s" "snapshot_ok snap"
    and "covers de opts (\<lambda>f sn. counters P s f sn + delta_of snap f sn) c"
  shows "covers de opts (counters P s) c"
  by (rule covers_mono [OF assms(3)])
    (simp add: f64_add_increasing counters_nonneg assms(1) delta_nonneg assms(2))

lemma step_write:
  assumes "ok s" "sy_flight s = Writing b snap" "syncs_directories io"
    and "flush_phase2 P path b io (sy_disk s) (sy_metrics s) = (written, trace, m)"
  shows "advances s \<lparr> sy_metrics = m, sy_flight = Written written snap, sy_disk = last trace \<rparr>"
    (is "advances s ?s'")
proof -
  obtain res where w: "write_file_durable path b io (sy_disk s) = (trace, res)"
    and m: "m = sy_metrics s \<or> (\<exists>stage. m = record_write_error P stage (sy_metrics s))"
    and wr: "written = (res = None)"
    using assms(4) by (auto simp: flush_phase2_def split: prod.splits option.splits)
  note core = durable_write_core [OF tmp_name w]
  have c: "counters P ?s' = counters P s"
    using m same_records(5) by (intro ext) (auto simp: counters_def same_counters_def)
  have sh: "m_shared m = m_shared (sy_metrics s)" "m_opts m = m_opts (sy_metrics s)"
    using m by (auto simp: record_write_error_def)
  have fl: "snapshot_ok snap" "fst ` set snap \<subseteq> dkeys (m_shared (sy_metrics s))"
    "covers de opts (\<lambda>f sn. counters P s f sn + delta_of snap f sn) (Some (Data b))"
    using ok_flight [OF assms(1)] assms(2) by (simp_all add: flight_ok_def)
  have "set (disk_possible (last trace) path) \<subseteq> set (disk_possible (sy_disk s) path) \<union> {Some (Data b)}"
    using core by (fastforce simp: write_outcomes_def)
  then have cov: "covers de opts (counters P s) x" if "x \<in> set (disk_possible (last trace) path)" for x
    using that ok_covers [OF assms(1)] covers_without_delta [OF assms(1) fl(1,3)] by auto
  have synced: "disk_possible (last trace) path = [Some (Data b)]" if "written"
  proof -
    have "res = None" using wr that by simp
    moreover have "io_dirsync io = None"
      by (rule durable_write_synced [OF _ parent, of b io "sy_disk s" trace])
        (use w assms(3) \<open>res = None\<close> in \<open>simp_all add: syncs_directories_def\<close>)
    ultimately show ?thesis using core parent by simp
  qed
  show ?thesis
  proof (intro conjI allI sys_okI)
    show "counters P s f sn \<le> counters P ?s' f sn" for f sn
      unfolding c by (rule counters_self [OF assms(1)])
    show "flight_ok P de opts path ?s'"
      unfolding flight_ok_def c using fl synced by (auto simp: sh)
    show "sh_writing (m_shared (sy_metrics ?s')) = (sy_flight ?s' \<noteq> Idle)"
      using assms(1,2) by (simp add: sys_ok_def sh)
    show "shared_ok opts (m_shared (sy_metrics ?s'))"
      using ok_shared [OF assms(1)] ok_opts [OF assms(1)] by (simp add: sh)
  qed (use assms(1) cov in \<open>auto simp: c sh ok_opts counters_nonneg untracked_zero\<close>)
qed

lemma step_finish:
  assumes "ok s" "sy_flight s = Written written snap"
  shows "advances s (s\<lparr> sy_metrics := flush_phase3 P written snap now_secs now (sy_metrics s),
    sy_flight := Idle \<rparr>)" (is "advances s ?s'")
proof -
  let ?m = "flush_phase3 P written snap now_secs now (sy_metrics s)"
  have fl: "snapshot_ok snap" "fst ` set snap \<subseteq> dkeys (m_shared (sy_metrics s))"
    "written \<Longrightarrow> c \<in> set (disk_possible (sy_disk s) path) \<Longrightarrow>
      covers de opts (\<lambda>f sn. counters P s f sn + delta_of snap f sn) c" for c
    using ok_flight [OF assms(1)] assms(2) by (simp_all add: flight_ok_def)
  have c: "counters P ?s' f sn = (if written then counters P s f sn + delta_of snap f sn else counters P s f sn)" for f sn
    using same_records(6) counter_apply [OF fl(1)]
    by (simp add: counters_def flush_phase3_def Let_def same_counters_def)
  have opts': "m_opts ?m = opts" using ok_opts [OF assms(1)]
    by (simp add: flush_phase3_def Let_def stamp_written_def)
  have sh0: "shared_ok opts ((m_shared (sy_metrics s))\<lparr> sh_last_persist_at := Some now \<rparr>)"
    using ok_shared [OF assms(1)] ok_opts [OF assms(1)] by (simp add: shared_ok_def)
  have sh: "shared_ok opts (m_shared ?m) \<and> dkeys (m_shared (sy_metrics s)) \<subseteq> dkeys (m_shared ?m)
      \<and> \<not> sh_writing (m_shared ?m)"
    using sh0 keeps_requeue [OF sh0 fl(1)]
    by (auto simp: flush_phase3_def Let_def stamp_written_def keeps_def shared_ok_def)
  have dz: "delta_of snap f sn = 0" if "sn \<notin> dkeys (m_shared ?m)" for f sn
  proof -
    have "sn \<notin> fst ` set snap" using that sh fl(2) by blast
    then have "map_of snap sn = None" by (metis map_of_eq_None_iff)
    then show ?thesis by (simp add: delta_of_def)
  qed
  show ?thesis
  proof (intro conjI allI sys_okI)
    show "counters P s f sn \<le> counters P ?s' f sn" for f sn
      by (simp add: c assms(1) f64_add_increasing counters_nonneg delta_nonneg fl(1)
          f64_le_not_nan(2) [OF counters_nonneg])
    show "0 \<le> counters P ?s' f sn" for f sn
      by (simp add: c assms(1) f64_add_nonneg counters_nonneg delta_nonneg fl(1))
    show "counters P ?s' f sn = 0" if "sn \<notin> dkeys (m_shared (sy_metrics ?s'))" for f sn
      using that sh dz [of sn f] untracked_zero [OF assms(1), of sn f] by (auto simp: c)
    show "covers de opts (counters P ?s') x" if "x \<in> set (disk_possible (sy_disk ?s') path)" for x
    proof -
      have "counters P ?s' = (if written then (\<lambda>f sn. counters P s f sn + delta_of snap f sn) else counters P s)"
        by (intro ext) (simp add: c)
      then show ?thesis using that fl(3) ok_covers [OF assms(1)] by simp
    qed
  qed (use sh opts' in \<open>auto simp: flight_ok_def\<close>)
qed

section \<open>Restarts\<close>

lemma counter_restore_entry:
  assumes "\<forall>g. 0 \<le> entry_of g e"
  shows "counter_value P (restore_entry P k e s) f sn =
    counter_value P s f sn + (if sn = k then entry_of f e else 0)"
proof -
  have nn: "0 \<le> entry_of g e" for g using assms by simp
  note n = nn [of Charge_amp_hours] nn [of Discharge_amp_hours] nn [of Charge_watt_hours]
    nn [of Discharge_watt_hours] nn [of Cal_charge_amp_hours] nn [of Cal_discharge_amp_hours]
    nn [of Cal_charge_watt_hours] nn [of Cal_discharge_watt_hours] nn [of Balance_amp_hours]
  show ?thesis
    using n by (cases f) (simp_all add: restore_entry_def counter_order_def counter_inc_if_positive)
qed

lemma restore_devices_facts:
  assumes "restore_devices P cap rows (devs, s) = (devs', s')"
    and "smap_ok rows" "smap_ok devs" "set (skeys rows) \<inter> set (skeys devs) = {}"
    and "cap = 0 \<or> length devs + length rows \<le> cap"
    and "\<forall>sn e. sget rows sn = Some e \<longrightarrow> (\<forall>f. 0 \<le> entry_of f e)"
    and "\<forall>sn e. sget devs sn = Some e \<longrightarrow> pending_nonneg (ls_pending e)"
  shows "smap_ok devs' \<and> set (skeys devs') = set (skeys devs) \<union> set (skeys rows)
    \<and> (cap = 0 \<or> length devs' \<le> cap)
    \<and> (\<forall>sn e. sget devs' sn = Some e \<longrightarrow> pending_nonneg (ls_pending e))
    \<and> (\<forall>f sn. counter_value P s' f sn = counter_value P s f sn
        + (case sget rows sn of None \<Rightarrow> 0 | Some e \<Rightarrow> entry_of f e))"
  using assms
proof (induction rows arbitrary: devs s)
  case (Cons row rows)
  obtain k e where row: "row = (k, e)" by fastforce
  let ?devs = "sput k (sentry last_series_default k devs) devs"
  have k: "k \<notin> set (skeys devs)" "k \<notin> set (skeys rows)" "sget rows k = None"
    using Cons.prems(2,4) by (auto simp: row smap_ok_Cons sget_None_iff)
  have e: "\<forall>g. 0 \<le> entry_of g e" using Cons.prems(6) unfolding row by (metis sget_Cons)
  have rec: "restore_devices P cap rows (?devs, restore_entry P k e s) = (devs', s')"
    using Cons.prems(1,5) by (auto simp: row split: if_splits)
  have rest: "\<forall>sn e. sget rows sn = Some e \<longrightarrow> (\<forall>f. 0 \<le> entry_of f e)"
    using Cons.prems(6) k(3) unfolding row by (metis sget_Cons option.distinct(1))
  have pend: "\<forall>sn e. sget ?devs sn = Some e \<longrightarrow> pending_nonneg (ls_pending e)"
    using Cons.prems(7) k(1)
    by (auto simp: sget_sput sget_None_iff [symmetric] sentry_None pending_default_nonneg split: if_splits)
  have "smap_ok ?devs" "set (skeys rows) \<inter> set (skeys ?devs) = {}"
    "cap = 0 \<or> length ?devs + length rows \<le> cap" "smap_ok rows"
    using Cons.prems(2-5) k
    by (auto simp: row smap_ok_sput set_skeys_sput length_sput smap_ok_Cons)
  note IH = Cons.IH [OF rec \<open>smap_ok rows\<close> this(1-3) rest pend]
  have cnt: "counter_value P s' f sn = counter_value P s f sn
      + (case sget (row # rows) sn of None \<Rightarrow> 0 | Some e \<Rightarrow> entry_of f e)" for f sn
    using IH k(3) by (simp add: counter_restore_entry [OF e] row)
  have keys: "set (skeys devs') = set (skeys devs) \<union> set (skeys (row # rows))"
    using IH by (auto simp: row set_skeys_sput)
  show ?case using IH keys cnt by blast
qed simp

lemma counters_new: "counter_value P (m_store (stamp_written P now_secs (metrics_new P opts))) f sn = 0"
proof -
  have "same_counters P (pm_new P) (m_store (metrics_new P opts))"
    by (simp add: metrics_new_def same_touch same_counters_fold)
  then have "same_counters P (pm_new P) (m_store (stamp_written P now_secs (metrics_new P opts)))"
    using same_records(6) by (rule same_counters_trans)
  moreover have "counter_value P (pm_new P) f sn = 0" by (simp add: counter_value_def sample_new)
  ultimately show ?thesis by (simp add: same_counters_def)
qed

lemma new_shared [simp]:
  "m_opts (stamp_written P now_secs (metrics_new P opts)) = opts"
  "m_shared (stamp_written P now_secs (metrics_new P opts)) = coulomb_shared_new (mo_calibration opts)"
  by (simp_all add: stamp_written_def metrics_new_def)

lemma boot_facts:
  assumes "file_ok de opts c"
  shows "m_opts (boot P de opts now_secs c) = opts
    \<and> shared_ok opts (m_shared (boot P de opts now_secs c))
    \<and> \<not> sh_writing (m_shared (boot P de opts now_secs c))
    \<and> (\<forall>f sn. counter_value P (m_store (boot P de opts now_secs c)) f sn = file_total de c f sn)
    \<and> (\<forall>f sn. sn \<notin> dkeys (m_shared (boot P de opts now_secs c)) \<longrightarrow> file_total de c f sn = 0)"
proof (cases "parse_content de c")
  case None
  have "m_opts (metrics_new P opts) = opts" by (simp add: metrics_new_def)
  then have "boot P de opts now_secs c = stamp_written P now_secs (metrics_new P opts)"
    using state_path None by (simp add: boot_def restore_coulombs_def Let_def)
  then show ?thesis
    by (simp add: counters_new coulomb_shared_new_def shared_ok_def file_total_def None)
next
  case (Some st)
  let ?m = "stamp_written P now_secs (metrics_new P opts)"
  obtain devs s' where r: "restore_devices P (mo_max_devices opts) (cs_devices st)
      ([], m_store ?m) = (devs, s')"
    by fastforce
  have st: "smap_ok (cs_devices st)" "mo_max_devices opts = 0 \<or> length (cs_devices st) \<le> mo_max_devices opts"
    "\<forall>sn e. sget (cs_devices st) sn = Some e \<longrightarrow> (\<forall>f. 0 \<le> entry_of f e)"
    using assms by (simp_all add: file_ok_def Some)
  note facts = restore_devices_facts [OF r st(1)]
  have b: "boot P de opts now_secs c = ?m\<lparr> m_shared := (m_shared ?m)\<lparr> sh_devices := devs,
      sh_calibrator := cal_restore (cs_calibration st) (\<lambda>sn. sn \<in> set (skeys devs))
        (sh_calibrator (m_shared ?m)) \<rparr>, m_store := s' \<rparr>"
    using r state_path Some
    by (simp add: boot_def restore_coulombs_def metrics_new_def coulomb_shared_new_def stamp_written_def)
  have cnt: "counter_value P s' f sn = file_total de c f sn" for f sn
    using facts st by (simp add: counters_new file_total_def Some)
  have zero: "file_total de c f sn = 0" if "sn \<notin> set (skeys devs)" for f sn
  proof -
    have "sn \<notin> set (skeys (cs_devices st))" using that facts st by simp
    then show ?thesis by (simp add: file_total_def Some flip: sget_None_iff)
  qed
  show ?thesis using facts st cnt zero by (simp add: b shared_ok_def coulomb_shared_new_def)
qed

lemma restart:
  assumes "ok s" "covers de opts (counters P s) c"
  shows "advances s \<lparr> sy_metrics = boot P de opts now_secs c, sy_flight = Idle,
    sy_disk = settled path c d \<rparr>" (is "advances s ?s'")
proof -
  have content: "file_ok de opts c" and le: "\<And>f sn. counters P s f sn \<le> file_total de c f sn"
    using assms(2) by (simp_all add: covers_def)
  note b = boot_facts [OF content, of now_secs]
  have c: "counters P ?s' f sn = file_total de c f sn" for f sn using b by (simp add: counters_def)
  have poss: "disk_possible (sy_disk ?s') path = [c]" by (simp add: settled_def disk_possible_def)
  have nn: "0 \<le> file_total de c f sn" for f sn
    using counters_nonneg [OF assms(1)] le by (rule f64_trans)
  show ?thesis
  proof (intro conjI allI sys_okI)
    show "covers de opts (counters P ?s') x" if "x \<in> set (disk_possible (sy_disk ?s') path)" for x
      using that poss content f64_le_not_nan(2) [OF nn] by (simp add: covers_def c)
    show "counters P ?s' f sn = 0" if "sn \<notin> dkeys (m_shared (sy_metrics ?s'))" for f sn
      using that b by (simp add: c)
  qed (use b nn le in \<open>simp_all add: c flight_ok_def\<close>)
qed

lemma crash_outcomes:
  assumes "ok s" "sy_flight s = Writing b snap"
    and "write_file_durable path b io (sy_disk s) = (trace, res)" "d \<in> set trace"
    and "c \<in> set (disk_possible d path)"
  shows "covers de opts (counters P s) c"
proof -
  have fl: "snapshot_ok snap" "covers de opts (\<lambda>f sn. counters P s f sn + delta_of snap f sn) (Some (Data b))"
    using ok_flight [OF assms(1)] assms(2) by (simp_all add: flight_ok_def)
  have "c \<in> write_outcomes path trace" using assms(4,5) by (auto simp: write_outcomes_def)
  then have "c \<in> set (disk_possible (sy_disk s) path) \<or> c = Some (Data b)"
    using durable_write_core [OF tmp_name assms(3)] by blast
  then show ?thesis
    using ok_covers [OF assms(1)] covers_without_delta [OF assms(1) fl] by blast
qed

section \<open>Every step, every reachable state\<close>

lemma step_ok:
  assumes "sys_step P ex ser de opts path s s'" and "ok s"
  shows "advances s s'"
  using assms
proof (cases rule: sys_step.cases)
  case (sys_crash c now_secs)
  then show ?thesis using restart ok_covers assms(2) by simp
next
  case (sys_crash_writing b snap io trace res d c now_secs)
  then show ?thesis using restart crash_outcomes [OF assms(2)] assms(2) by simp
next
  case (sys_write b snap io written trace m)
  then show ?thesis using step_write [OF assms(2)] by simp
next
  case (sys_begin force now_secs now b snap m)
  then show ?thesis using step_begin [OF assms(2)] by simp
next
  case (sys_accumulate sn d now_secs m)
  then show ?thesis using quiet_accumulate [OF assms(2)] by simp
next
  case (sys_no_flush force now_secs now m)
  then show ?thesis using step_no_flush [OF assms(2)] by simp
next
  case (sys_finish written snap now_secs now)
  then show ?thesis using step_finish [OF assms(2)] by simp
qed (simp_all add: quiet_admit quiet_realtime quiet_config quiet_records)

lemma initial_ok: "ok (sys_initial P de opts now_secs)"
proof -
  have content: "file_ok de opts None" "\<And>f sn. file_total de None f sn = 0"
    by (simp_all add: file_ok_def file_total_def parse_content_def)
  note b = boot_facts [OF content(1), of now_secs]
  have c: "counters P (sys_initial P de opts now_secs) f sn = 0" for f sn
    using b by (simp add: counters_def sys_initial_def content(2))
  show ?thesis
  proof (rule sys_okI)
    show "covers de opts (counters P (sys_initial P de opts now_secs)) x"
      if "x \<in> set (disk_possible (sy_disk (sys_initial P de opts now_secs)) path)" for x
    proof -
      have "x = None" using that by (simp add: sys_initial_def disk_possible_def)
      then show ?thesis using content by (simp add: covers_def c)
    qed
  qed (use b c in \<open>simp_all add: sys_initial_def flight_ok_def\<close>)
qed

lemma reach_ok: "sys_reach P ex ser de opts path s \<Longrightarrow> ok s"
proof (induction rule: sys_reach.induct)
  case (sys_reach_step s s')
  then show ?case using step_ok by blast
qed (rule initial_ok)

lemma run_advances:
  assumes "(sys_step P ex ser de opts path)\<^sup>*\<^sup>* s s'" and "ok s"
  shows "advances s s'"
  using assms
proof (induction rule: rtranclp_induct)
  case base
  then show ?case by (simp add: f64_le_not_nan(2) [OF counters_nonneg])
next
  case (step t u)
  then have "advances s t" "advances t u" using step_ok by blast+
  then show ?case using f64_trans by blast
qed

end

end
