(* ===== verification/Guarantees.thy ===== *)
theory Guarantees
  imports Crash_Safety
begin

text \<open>
  What the exporter guarantees in every reachable state, stated over the transition system of
  \<open>Persistence\<close> with its hypotheses written out, and a run that reaches a state with a counter at
  15 Ah.
\<close>

section \<open>The hypotheses\<close>


lemma exporterI:
  assumes "prometheus P" and "json_roundtrip ser de"
    and "mo_coulomb_state_path opts = Some path" and "path_parent path \<noteq> None"
    and "with_extension path ''tmp'' \<noteq> path"
    and "0 \<le> mo_max_frame_amp_hours opts" "0 \<le> mo_max_frame_watt_hours opts"
  shows "exporter P ser de opts path"
  using assms by (intro exporter.intro exporter_axioms.intro)

text \<open>The interpretation: the registry as a finite map, a lossless serializer, the demo options.\<close>

lemma demo_caps: "0 \<le> mo_max_frame_amp_hours demo_metrics_options"
  "0 \<le> mo_max_frame_watt_hours demo_metrics_options"
  by code_simp+

lemma lossless_json: "json_roundtrip Some Some"
  by (simp add: json_roundtrip_def)

interpretation demo: exporter map_registry "\<lambda>_. 0" Some Some demo_metrics_options "''/var/coulombs.json''"
  by unfold_locales
    (simp_all add: lossless_json demo_caps demo_opts demo_path [simplified])

section \<open>A run\<close>

text \<open>The witnesses: two frames of device A an hour apart, a complete flush, a power loss.\<close>

definition run_boot :: "series metrics" where
  "run_boot = boot map_registry Some demo_metrics_options 0 None"

definition run_frame1 :: "series metrics option" where
  "run_frame1 = accumulate_coulombs map_registry (\<lambda>_. 0) ''A'' (demo_frame\<lparr> current_a := Some (flit 10) \<rparr>) 0 run_boot"

definition run_frame2 :: "series metrics option" where
  "run_frame2 = (case run_frame1 of None \<Rightarrow> None
     | Some m \<Rightarrow> accumulate_coulombs map_registry (\<lambda>_. 0) ''A'' demo_frame (flit 3600) m)"

definition run_phase1 :: "(coulomb_state \<times> snapshot) option \<times> series metrics" where
  "run_phase1 = flush_phase1 map_registry Some False (flit 3600) 0 (the run_frame2)"

definition run_phase3 :: "series metrics" where
  "run_phase3 = flush_phase3 map_registry True (snd (the (fst run_phase1))) (flit 3600) 0 (snd run_phase1)"

lemma run_steps:
  "case run_frame1 of None \<Rightarrow> False | Some m \<Rightarrow> True"
  "case run_frame2 of None \<Rightarrow> False | Some m \<Rightarrow> True"
  "case fst run_phase1 of None \<Rightarrow> False | Some bs \<Rightarrow> True"
  by code_simp+

lemma run_finite: "state_finite (fst (flush_state map_registry (the run_frame2)))"
  by code_simp

lemma run_counter: "counter_value map_registry (m_store run_phase3) Charge_amp_hours ''A'' = flit 15"
  by code_simp


abbreviation demo_path_name :: string where
  "demo_path_name \<equiv> ''/var/coulombs.json''"

abbreviation demo_step :: "(series, coulomb_state) system \<Rightarrow> (series, coulomb_state) system \<Rightarrow> bool" where
  "demo_step \<equiv> sys_step map_registry (\<lambda>_. 0) Some Some demo_metrics_options demo_path_name"

abbreviation demo_reach :: "(series, coulomb_state) system \<Rightarrow> bool" where
  "demo_reach \<equiv> sys_reach map_registry (\<lambda>_. 0) Some Some demo_metrics_options demo_path_name"

definition run_pending :: "(series, coulomb_state) system" where
  "run_pending = \<lparr> sy_metrics = the run_frame2, sy_flight = Idle,
     sy_disk = \<lparr> dk_live = (\<lambda>_. None), dk_stale = (\<lambda>_. []) \<rparr> \<rparr>"

lemma run_pending_reach: "demo_reach run_pending"
proof -
  obtain m1 where m1: "run_frame1 = Some m1" using run_steps(1) by (cases run_frame1) simp_all
  obtain m2 where m2: "run_frame2 = Some m2" using run_steps(2) by (cases run_frame2) simp_all
  define s0 where "s0 = sys_initial map_registry (Some :: coulomb_state \<Rightarrow> _) demo_metrics_options 0"
  have "demo_reach s0" unfolding s0_def by (rule sys_reach_init)
  moreover have "demo_step s0 (s0\<lparr> sy_metrics := m1 \<rparr>)"
    by (rule sys_accumulate) (use m1 in \<open>simp add: run_frame1_def run_boot_def s0_def sys_initial_def\<close>)
  ultimately have "demo_reach (s0\<lparr> sy_metrics := m1 \<rparr>)" by (rule sys_reach_step)
  moreover have "demo_step (s0\<lparr> sy_metrics := m1 \<rparr>) run_pending"
    using sys_accumulate [of map_registry "\<lambda>_. 0" "''A''" demo_frame "flit 3600" "s0\<lparr> sy_metrics := m1 \<rparr>" m2
        Some Some demo_metrics_options demo_path_name] m2
    unfolding run_frame2_def m1 by (simp add: run_pending_def s0_def sys_initial_def run_frame2_def m1)
  ultimately show ?thesis by (rule sys_reach_step)
qed

lemma run_reach:
  obtains s b where "demo_reach s" "sy_metrics s = run_phase3"
    "disk_possible (sy_disk s) demo_path_name = [Some (Data b)]" "sy_flight s = Idle"
proof -
  obtain m2 where m2: "run_frame2 = Some m2" using run_steps(2) by (cases run_frame2) simp_all
  obtain b snap m3 where p1: "run_phase1 = (Some (b, snap), m3)"
    using run_steps(3) by (metis option.simps(4) prod.collapse option.exhaust)
  define s2 where "s2 = run_pending"
  define s3 where "s3 = s2\<lparr> sy_metrics := m3, sy_flight := Writing b snap \<rparr>"
  obtain trace res where w: "write_file_durable demo_path_name b io_ok (sy_disk s3) = (trace, res)"
    by fastforce
  have res: "res = None"
    using w by (auto simp: write_file_durable_def write_and_rename_def io_ok_def Let_def split: if_splits)
  define s4 where "s4 = \<lparr> sy_metrics = m3, sy_flight = Written True snap, sy_disk = last trace \<rparr>"
  define s5 where "s5 = s4\<lparr> sy_metrics := run_phase3, sy_flight := Idle \<rparr>"
  have "demo_reach s2" unfolding s2_def by (rule run_pending_reach)
  moreover have "demo_step s2 s3"
    unfolding s3_def by (rule sys_begin [where force = False and now_secs = "flit 3600" and now = 0])
      (use p1 [unfolded run_phase1_def m2 option.sel] run_finite [unfolded m2 option.sel]
        in \<open>simp_all add: s2_def run_pending_def m2\<close>)
  ultimately have "demo_reach s3" by (rule sys_reach_step)
  moreover have "demo_step s3 s4"
    unfolding s4_def
    by (rule sys_write [where io = io_ok and b = b])
      (use w res in \<open>simp_all add: s3_def syncs_directories_def io_ok_def flush_phase2_def\<close>)
  ultimately have "demo_reach s4" by (rule sys_reach_step)
  moreover have "run_phase3 = flush_phase3 map_registry True snap (flit 3600) 0 m3"
    unfolding run_phase3_def p1 by simp
  then have "demo_step s4 s5"
    using sys_finish [of s4 True snap map_registry "\<lambda>_. 0" Some Some demo_metrics_options demo_path_name
        "flit 3600" 0]
    by (simp add: s4_def s5_def)
  ultimately have "demo_reach s5" using sys_reach_step by blast
  moreover have "disk_possible (sy_disk s5) demo_path_name = [Some (Data b)]"
    using durable_write_core [OF demo_path(1) w] demo_path(2)
    by (simp add: s5_def s4_def res io_ok_def)
  ultimately show ?thesis using that by (simp add: s5_def)
qed

lemmas demo_hypotheses = map_registry_laws lossless_json demo_opts(2) demo_path(2,1) demo_caps

section \<open>Guarantees\<close>




section \<open>Witnesses\<close>




end
