(* ===== verification/Ledger.thy ===== *)
theory Ledger
  imports F64
begin

text \<open>
  The abstract specification of one exported counter: a write-ahead ledger. The value a scrape
  shows, the amount measured but not yet written, the amount a write in flight carries, and the
  totals a restart may find. It knows nothing of devices, files, locks or JSON; \<open>Ledger_Refinement\<close>
  shows that the exporter implements it, for every device and counter.
\<close>

section \<open>The model\<close>

record ledger =
  lg_shown :: f64
  lg_due :: f64
  lg_held :: "f64 option"
  lg_saved :: "f64 set"

definition ledger_start :: ledger where
  "ledger_start = \<lparr> lg_shown = 0, lg_due = 0, lg_held = None, lg_saved = {0} \<rparr>"

text \<open>A measurement adds at most \<open>cap\<close>. A write takes all that is due; while it runs the disk
  may come to hold totals that cover it; it ends by showing what it carried, once every total on
  disk covers that, or by returning it. A restart shows one of the saved totals.\<close>

inductive ledger_step :: "f64 \<Rightarrow> ledger \<Rightarrow> ledger \<Rightarrow> bool" for cap where
  ledger_measure: "0 \<le> x \<Longrightarrow> x \<le> cap \<Longrightarrow> ledger_step cap l (l\<lparr> lg_due := lg_due l + x \<rparr>)"
| ledger_take: "lg_held l = None \<Longrightarrow> ledger_step cap l (l\<lparr> lg_held := Some (lg_due l), lg_due := 0 \<rparr>)"
| ledger_save: "lg_held l = Some h \<Longrightarrow> lg_shown l + h \<le> t \<Longrightarrow> S \<noteq> {} \<Longrightarrow> S \<subseteq> insert t (lg_saved l) \<Longrightarrow>
    ledger_step cap l (l\<lparr> lg_saved := S \<rparr>)"
| ledger_commit: "lg_held l = Some h \<Longrightarrow> (\<And>t. t \<in> lg_saved l \<Longrightarrow> lg_shown l + h \<le> t) \<Longrightarrow>
    ledger_step cap l (l\<lparr> lg_shown := lg_shown l + h, lg_held := None \<rparr>)"
| ledger_return: "lg_held l = Some h \<Longrightarrow>
    ledger_step cap l (l\<lparr> lg_due := lg_due l + h, lg_held := None \<rparr>)"
| ledger_restart: "t \<in> lg_saved l \<Longrightarrow>
    ledger_step cap l \<lparr> lg_shown = t, lg_due = 0, lg_held = None, lg_saved = {t} \<rparr>"

abbreviation ledger_run :: "f64 \<Rightarrow> ledger \<Rightarrow> ledger \<Rightarrow> bool" where
  "ledger_run cap \<equiv> (ledger_step cap)\<^sup>*\<^sup>*"

section \<open>What the ledger guarantees\<close>

definition ledger_ok :: "ledger \<Rightarrow> bool" where
  "ledger_ok l \<longleftrightarrow> 0 \<le> lg_shown l \<and> 0 \<le> lg_due l \<and> (\<forall>h. lg_held l = Some h \<longrightarrow> 0 \<le> h)
     \<and> lg_saved l \<noteq> {} \<and> (\<forall>t\<in>lg_saved l. lg_shown l \<le> t)"

lemma ledger_start_ok: "ledger_ok ledger_start"
  by (simp add: ledger_ok_def ledger_start_def)

text \<open>One step keeps the invariant and lowers no shown value.\<close>

lemma ledger_step_ok:
  assumes "ledger_step cap l l'" and "ledger_ok l"
  shows "ledger_ok l' \<and> lg_shown l \<le> lg_shown l'"
  using assms
proof cases
  case (ledger_save h t S)
  then have "lg_shown l \<le> t"
    using assms(2) f64_add_increasing f64_trans by (metis ledger_ok_def)
  then show ?thesis
    using ledger_save assms(2) by (auto simp: ledger_ok_def f64_le_not_nan)
next
  case (ledger_restart t)
  then show ?thesis using assms(2) by (auto simp: ledger_ok_def f64_le_not_nan intro: f64_trans)
qed (auto simp: ledger_ok_def f64_le_not_nan f64_add_nonneg f64_add_increasing intro: f64_trans)

lemma ledger_run_ok:
  assumes "ledger_run cap l l'" and "ledger_ok l"
  shows "ledger_ok l' \<and> lg_shown l \<le> lg_shown l'"
  using assms
proof (induction rule: rtranclp_induct)
  case base
  then show ?case using f64_le_not_nan(2) by (auto simp: ledger_ok_def)
next
  case (step l' l'')
  then show ?case using ledger_step_ok f64_trans by blast
qed

end
