(* ===== verification/Ledger_Refinement.thy ===== *)
theory Ledger_Refinement
  imports Guarantees Ledger
begin

text \<open>
  The exporter refines the ledger: seen through one counter of one device, every step of the
  transition system of \<open>Persistence\<close> is a run of the abstract write-ahead ledger of \<open>Ledger\<close>.
\<close>

section \<open>The observation\<close>

definition flight_held :: "'b flight \<Rightarrow> counter_family \<Rightarrow> string \<Rightarrow> f64 option" where
  "flight_held fl f sn = (case fl of Idle \<Rightarrow> None
     | Writing b snap \<Rightarrow> Some (delta_of snap f sn) | Written w snap \<Rightarrow> Some (delta_of snap f sn))"

definition ledger_of ::
  "'s prom_api \<Rightarrow> ('b \<Rightarrow> coulomb_state option) \<Rightarrow> string \<Rightarrow> counter_family \<Rightarrow> string \<Rightarrow> ('s, 'b) system \<Rightarrow> ledger" where
  "ledger_of P de path f sn s =
     \<lparr> lg_shown = counters P s f sn, lg_due = pending_value (sy_metrics s) f sn,
       lg_held = flight_held (sy_flight s) f sn,
       lg_saved = (\<lambda>c. file_total de c f sn) ` set (disk_possible (sy_disk s) path) \<rparr>"

text \<open>The cap of a frame that applies to a counter.\<close>

definition frame_cap :: "metrics_options \<Rightarrow> counter_family \<Rightarrow> f64" where
  "frame_cap opts f =
     (if f \<in> {Charge_watt_hours, Discharge_watt_hours, Cal_charge_watt_hours, Cal_discharge_watt_hours}
      then mo_max_frame_watt_hours opts else mo_max_frame_amp_hours opts)"

section \<open>Pending totals of the operations\<close>

lemma pending_value_devices: "m_devices m' = m_devices m \<Longrightarrow> pending_value m' f sn = pending_value m f sn"
  by (simp add: pending_value_def)

lemma pending_value_set_device:
  "pending_value (m\<lparr> m_shared := set_device k e sh, m_store := st \<rparr>) f sn =
     (if sn = k then pending_of f (ls_pending e)
      else pending_value (m\<lparr> m_shared := sh \<rparr>) f sn)"
  by (simp add: pending_value_def sget_sput)

lemma pending_value_track:
  assumes "track cap k (m_shared m) = Some (e, sh)"
  shows "pending_value (m\<lparr> m_shared := sh \<rparr>) f sn = pending_value m f sn"
    and "pending_of f (ls_pending e) = pending_value m f k"
  using assms by (auto simp: track_def pending_value_def sget_sput split: option.splits if_splits)

lemma pending_admit: "pending_value (snd (admit k m)) f sn = pending_value m f sn"
  by (auto simp: admit_def pending_value_def sget_sput)

lemma pending_update_realtime: "pending_value (update_realtime P k d m) f sn = pending_value m f sn"
proof (cases "track (mo_max_devices (m_opts m)) k (m_shared m)")
  case (Some es)
  obtain e sh where es: "es = (e, sh)" by fastforce
  show ?thesis
    using pending_value_track(1) [OF Some [unfolded es], of f sn] pending_value_track(2) [OF Some [unfolded es], of f]
    by (simp add: update_realtime_def Some es Let_def split_beta pending_value_set_device)
qed (simp add: update_realtime_def)

lemma pending_update_config: "pending_value (update_config P k c m) f sn = pending_value m f sn"
proof (cases "track (mo_max_devices (m_opts m)) k (m_shared m)")
  case (Some es)
  obtain e sh where es: "es = (e, sh)" by fastforce
  show ?thesis
    using pending_value_track(1) [OF Some [unfolded es], of f sn] pending_value_track(2) [OF Some [unfolded es], of f]
    by (simp add: update_config_def Some es Let_def split_beta set_device_info_def pending_value_set_device)
qed (simp add: update_config_def Let_def pending_value_def)

text \<open>A frame adds a delta within the frame's cap to its own device, and nothing to the others.\<close>

lemma pending_of_within:
  "pending_within (mo_max_frame_amp_hours opts) (mo_max_frame_watt_hours opts) p \<Longrightarrow>
   0 \<le> pending_of f p \<and> pending_of f p \<le> frame_cap opts f"
  by (cases f) (simp_all add: pending_within_def split_within_def frame_cap_def)

lemma integrate_entry_due:
  assumes "0 \<le> mo_max_frame_amp_hours opts" "0 \<le> mo_max_frame_watt_hours opts"
  obtains x where "0 \<le> x" "x \<le> frame_cap opts f"
    "pending_of f (ls_pending (snd (integrate_entry opts offset d cur now_secs e))) =
       pending_of f (ls_pending e) + x"
proof (cases "integrate_deltas opts offset d cur now_secs e")
  case None
  have "0 \<le> frame_cap opts f" using assms by (simp add: frame_cap_def)
  with that [of 0] show ?thesis by (simp add: integrate_entry_def None)
next
  case (Some dc)
  obtain delta clamped where dc: "dc = (delta, clamped)" by fastforce
  have "pending_within (mo_max_frame_amp_hours opts) (mo_max_frame_watt_hours opts) delta"
    by (rule frame_delta_within) (use Some dc assms in auto)
  with that [of "pending_of f delta"] pending_of_within show ?thesis
    by (simp add: integrate_entry_def Some dc pending_of_add)
qed

lemma pending_accumulate:
  assumes "accumulate_coulombs P ex k d now_secs m = Some m'"
    and "0 \<le> mo_max_frame_amp_hours (m_opts m)" "0 \<le> mo_max_frame_watt_hours (m_opts m)"
  obtains x where "0 \<le> x" "x \<le> frame_cap (m_opts m) f"
    "pending_value m' f sn = pending_value m f sn + x"
  using assms(1)
proof (rule accumulate_elim)
  fix cur e sh off rep cal s clamped e1 m2
  assume t: "track (mo_max_devices (m_opts m)) k (m_shared m) = Some (e, sh)"
    and i: "integrate_entry (m_opts m) off d cur now_secs e = (clamped, e1)"
    and m2: "m2 = m\<lparr> m_shared := set_device k (published_entry rep e1) (sh\<lparr> sh_calibrator := cal \<rparr>),
      m_store := published_store P k rep e1 s \<rparr>"
    and m': "m' = (if clamped then record_sample_rejected P REJECT_CLAMPED_DELTA m2 else m2)"
  obtain x where x: "0 \<le> x" "x \<le> frame_cap (m_opts m) f"
    "pending_of f (ls_pending (snd (integrate_entry (m_opts m) off d cur now_secs e))) =
       pending_of f (ls_pending e) + x"
    by (rule integrate_entry_due [OF assms(2,3)])
  have "pending_value m' f sn = (if sn = k then pending_value m f sn + x else pending_value m f sn)"
    using pending_value_track [OF t, of f] x(3)
    by (simp add: i m' m2 record_sample_rejected_def pending_value_def sget_sput)
  moreover have "0 \<le> frame_cap (m_opts m) f" using assms(2,3) by (simp add: frame_cap_def)
  ultimately show thesis using that [of x] that [of 0] x by (cases "sn = k") simp_all
qed

text \<open>After a restart nothing is due.\<close>

lemma pending_restore_devices:
  assumes "restore_devices P cap rows (devs, st) = (devs', st')"
    and "\<forall>sn e. sget devs sn = Some e \<longrightarrow> ls_pending e = pending_default"
  shows "\<forall>sn e. sget devs' sn = Some e \<longrightarrow> ls_pending e = pending_default"
  using assms
proof (induction rows arbitrary: devs st)
  case (Cons row rows)
  obtain k r where row: "row = (k, r)" by fastforce
  have e: "ls_pending (sentry last_series_default k devs) = pending_default"
    using Cons.prems(2) by (auto simp: sentry_def split: option.split)
  show ?case
  proof (cases "cap \<noteq> 0 \<and> cap \<le> length devs")
    case True
    then have "restore_devices P cap rows (devs, st) = (devs', st')"
      using Cons.prems(1) by (simp add: row)
    then show ?thesis using Cons.prems(2) by (rule Cons.IH)
  next
    case False
    then have "restore_devices P cap rows
        (sput k (sentry last_series_default k devs) devs, restore_entry P k r st) = (devs', st')"
      using Cons.prems(1) by (simp add: row split: if_splits)
    then show ?thesis
    proof (rule Cons.IH, intro allI impI)
      fix sn e'
      assume "sget (sput k (sentry last_series_default k devs) devs) sn = Some e'"
      then show "ls_pending e' = pending_default"
        using Cons.prems(2) e unfolding sget_sput by (cases "sn = k") simp_all
    qed
  qed
qed simp

lemma pending_boot: "pending_value (boot P de opts now_secs c) f sn = 0"
proof -
  let ?m = "stamp_written P now_secs (metrics_new P opts)"
  have new: "m_devices ?m = []" "m_devices (metrics_new P opts) = []"
    by (simp_all add: stamp_written_def metrics_new_def coulomb_shared_new_def)
  show ?thesis
  proof (cases "mo_coulomb_state_path (m_opts (metrics_new P opts)) = None \<or> parse_content de c = None")
    case True
    then show ?thesis
      using new by (auto simp: boot_def restore_coulombs_def Let_def pending_value_def)
  next
    case False
    then obtain p st where st: "mo_coulomb_state_path (m_opts (metrics_new P opts)) = Some p"
      "parse_content de c = Some st" by auto
    obtain devs s' where r: "restore_devices P (mo_max_devices (m_opts ?m)) (cs_devices st) ([], m_store ?m) = (devs, s')"
      by fastforce
    have "m_devices (boot P de opts now_secs c) = devs"
      using st r new by (simp add: boot_def restore_coulombs_def Let_def)
    then show ?thesis
      using pending_restore_devices [OF r] by (auto simp: pending_value_def split: option.split)
  qed
qed

section \<open>Simulation\<close>

context exporter
begin

abbreviation obs :: "counter_family \<Rightarrow> string \<Rightarrow> ('s, 'b) system \<Rightarrow> ledger" where
  "obs \<equiv> ledger_of P de path"

abbreviation moves :: "counter_family \<Rightarrow> ledger \<Rightarrow> ledger \<Rightarrow> bool" where
  "moves f \<equiv> ledger_run (frame_cap opts f)"

text \<open>A step that leaves counters and disk alone is seen through the pending totals only.\<close>

lemma obs_metrics:
  assumes "same_counters P (m_store (sy_metrics s)) (m_store m)"
  shows "obs f sn (s\<lparr> sy_metrics := m \<rparr>) = (obs f sn s)\<lparr> lg_due := pending_value m f sn \<rparr>"
  using assms by (simp add: ledger_of_def counters_def same_counters_def)

lemma sim_quiet:
  assumes "same_counters P (m_store (sy_metrics s)) (m_store m)"
    and "pending_value m f sn = pending_value (sy_metrics s) f sn"
  shows "moves f (obs f sn s) (obs f sn (s\<lparr> sy_metrics := m \<rparr>))"
  unfolding obs_metrics [OF assms(1)] by (simp add: assms(2) ledger_of_def)

lemma sim_store:
  assumes "same_counters P (m_store (sy_metrics s)) st"
  shows "moves f (obs f sn s) (obs f sn (s\<lparr> sy_metrics := (sy_metrics s)\<lparr> m_store := st \<rparr> \<rparr>))"
  using assms by (intro sim_quiet) (simp_all add: pending_value_def)

lemma sim_records:
  "moves f (obs f sn s) (obs f sn (s\<lparr> sy_metrics := mark_seen P k now_secs (sy_metrics s) \<rparr>))"
  "moves f (obs f sn s) (obs f sn (s\<lparr> sy_metrics := record_request P endpoint status (sy_metrics s) \<rparr>))"
  "moves f (obs f sn s) (obs f sn (s\<lparr> sy_metrics := record_decoded P block_name (sy_metrics s) \<rparr>))"
  "moves f (obs f sn s) (obs f sn (s\<lparr> sy_metrics := record_dropped P reason (sy_metrics s) \<rparr>))"
  using sim_store same_mark_seen same_records
  by (simp_all add: mark_seen_def record_request_def record_decoded_def record_dropped_def same_set same_inc)

lemma sim_accumulate:
  assumes "ok s" and "accumulate_coulombs P ex k d now_secs (sy_metrics s) = Some m"
  shows "moves f (obs f sn s) (obs f sn (s\<lparr> sy_metrics := m \<rparr>))"
proof -
  obtain x where x: "0 \<le> x" "x \<le> frame_cap opts f"
    "pending_value m f sn = pending_value (sy_metrics s) f sn + x"
    using pending_accumulate [OF assms(2)] caps ok_opts [OF assms(1)] by metis
  show ?thesis
    unfolding obs_metrics [OF same_accumulate [OF assms(2)]] x(3)
    using ledger_measure [OF x(1,2), of "obs f sn s"] by (auto simp: ledger_of_def)
qed

lemma sim_begin:
  assumes "ok s" and "flush_phase1 P ser force now_secs now (sy_metrics s) = (Some (b, snap), m)"
  shows "moves f (obs f sn s) (obs f sn (s\<lparr> sy_metrics := m, sy_flight := Writing b snap \<rparr>))"
proof -
  note p = phase1_some [OF assms(2) ok_shared [OF assms(1)]]
  have "sy_flight s = Idle" using p assms(1) by (simp add: sys_ok_def)
  then have free: "lg_held (obs f sn s) = None" by (simp add: ledger_of_def flight_held_def)
  have "counters P (s\<lparr> sy_metrics := m, sy_flight := Writing b snap \<rparr>) f sn = counters P s f sn"
    using p by (simp add: counters_def same_counters_def)
  moreover have "delta_of snap f sn = pending_value (sy_metrics s) f sn"
    using p pending_take [OF ok_shared [OF assms(1)]] by simp
  moreover have "pending_value m f sn = 0" by (rule pending_taken) (use p in simp)
  ultimately have "obs f sn (s\<lparr> sy_metrics := m, sy_flight := Writing b snap \<rparr>) =
      (obs f sn s)\<lparr> lg_held := Some (lg_due (obs f sn s)), lg_due := 0 \<rparr>"
    by (simp add: ledger_of_def flight_held_def)
  then show ?thesis using ledger_take [OF free] by auto
qed

lemma sim_write:
  assumes "ok s" "sy_flight s = Writing b snap"
    and "flush_phase2 P path b io (sy_disk s) (sy_metrics s) = (written, trace, m)"
  shows "moves f (obs f sn s)
    (obs f sn \<lparr> sy_metrics = m, sy_flight = Written written snap, sy_disk = last trace \<rparr>)"
    (is "moves f _ (obs f sn ?s')")
proof -
  obtain res where w: "write_file_durable path b io (sy_disk s) = (trace, res)"
    and m: "m = sy_metrics s \<or> (\<exists>stage. m = record_write_error P stage (sy_metrics s))"
    using assms(3) by (auto simp: flush_phase2_def split: prod.splits option.splits)
  have c: "counters P ?s' f sn = counters P s f sn" "pending_value m f sn = pending_value (sy_metrics s) f sn"
    using m same_records(5)
    by (auto simp: counters_def same_counters_def record_write_error_def pending_value_def)
  let ?saved = "lg_saved (obs f sn ?s')"
  have "set (disk_possible (last trace) path) \<subseteq> insert (Some (Data b)) (set (disk_possible (sy_disk s) path))"
    using durable_write_core [OF tmp_name w] by (fastforce simp: write_outcomes_def)
  then have saved: "?saved \<subseteq> insert (file_total de (Some (Data b)) f sn) (lg_saved (obs f sn s))"
    by (auto simp: ledger_of_def)
  have "counters P s f sn + delta_of snap f sn \<le> file_total de (Some (Data b)) f sn"
    using ok_flight [OF assms(1)] assms(2) by (simp add: flight_ok_def covers_def)
  then have "ledger_step (frame_cap opts f) (obs f sn s) ((obs f sn s)\<lparr> lg_saved := ?saved \<rparr>)"
    using assms(2)
    by (intro ledger_save [OF _ _ _ saved]) (simp_all add: ledger_of_def flight_held_def disk_possible_def)
  moreover have "(obs f sn s)\<lparr> lg_saved := ?saved \<rparr> = obs f sn ?s'"
    using c assms(2) by (simp add: ledger_of_def flight_held_def)
  ultimately show ?thesis by auto
qed

lemma sim_finish:
  assumes "ok s" "sy_flight s = Written written snap"
  shows "moves f (obs f sn s) (obs f sn (s\<lparr> sy_metrics :=
    flush_phase3 P written snap now_secs now (sy_metrics s), sy_flight := Idle \<rparr>))"
    (is "moves f _ (obs f sn ?s')")
proof -
  have fl: "snapshot_ok snap" "fst ` set snap \<subseteq> dkeys (m_shared (sy_metrics s))"
    "written \<Longrightarrow> c \<in> set (disk_possible (sy_disk s) path) \<Longrightarrow>
      counters P s f sn + delta_of snap f sn \<le> file_total de c f sn" for c
    using ok_flight [OF assms(1)] assms(2) by (simp_all add: flight_ok_def covers_def)
  have held: "lg_held (obs f sn s) = Some (delta_of snap f sn)"
    by (simp add: ledger_of_def flight_held_def assms(2))
  show ?thesis
  proof (cases written)
    case True
    have "counters P ?s' f sn = counters P s f sn + delta_of snap f sn"
      using same_records(6) counter_apply [OF fl(1)] True
      by (simp add: counters_def flush_phase3_def Let_def same_counters_def)
    then have "obs f sn ?s' = (obs f sn s)\<lparr> lg_shown := lg_shown (obs f sn s) + delta_of snap f sn,
        lg_held := None \<rparr>"
      using True
      by (simp add: ledger_of_def flight_held_def pending_value_def flush_phase3_def Let_def stamp_written_def)
    moreover have "lg_shown (obs f sn s) + delta_of snap f sn \<le> t" if "t \<in> lg_saved (obs f sn s)" for t
      using that fl(3) [OF True] by (auto simp: ledger_of_def)
    ultimately show ?thesis using ledger_commit [OF held] by auto
  next
    case False
    have "distinct (List.map fst snap)" using fl(1) by (simp add: snapshot_ok_def)
    note returned = sget_requeue [OF this, of "(m_shared (sy_metrics s))\<lparr> sh_last_persist_at := Some now \<rparr>" sn]
    have due: "pending_value (sy_metrics ?s') f sn = pending_value (sy_metrics s) f sn + delta_of snap f sn"
    proof (cases "sget (m_devices (sy_metrics s)) sn")
      case None
      then have "sn \<notin> fst ` set snap" using fl(2) sget_None_iff by (metis subsetD)
      then have "map_of snap sn = None" by (simp add: map_of_eq_None_iff)
      with None show ?thesis
        using False returned by (simp add: flush_phase3_def Let_def pending_value_def delta_of_def)
    next
      case (Some e)
      with False returned show ?thesis
        by (simp add: flush_phase3_def Let_def pending_value_def delta_of_def pending_of_add split: option.split)
    qed
    then have "obs f sn ?s' = (obs f sn s)\<lparr> lg_due := lg_due (obs f sn s) + delta_of snap f sn,
        lg_held := None \<rparr>"
      using False by (simp add: ledger_of_def flight_held_def counters_def flush_phase3_def Let_def)
    then show ?thesis using ledger_return [OF held] by auto
  qed
qed

text \<open>A power loss shows a total the disk already had, or the one a write in flight carries.\<close>

lemma obs_restart:
  assumes "file_ok de opts c"
  shows "obs f sn \<lparr> sy_metrics = boot P de opts now_secs c, sy_flight = Idle, sy_disk = settled path c d \<rparr> =
    \<lparr> lg_shown = file_total de c f sn, lg_due = 0, lg_held = None, lg_saved = {file_total de c f sn} \<rparr>"
  using boot_facts [OF assms, of now_secs]
  by (simp add: ledger_of_def counters_def pending_boot flight_held_def settled_def disk_possible_def)

lemma sim_crash:
  assumes "ok s" "c \<in> set (disk_possible (sy_disk s) path)"
  shows "moves f (obs f sn s)
    (obs f sn \<lparr> sy_metrics = boot P de opts now_secs c, sy_flight = Idle, sy_disk = settled path c d \<rparr>)"
proof -
  have "file_ok de opts c" using ok_covers [OF assms] by (simp add: covers_def)
  moreover have "file_total de c f sn \<in> lg_saved (obs f sn s)" using assms(2) by (simp add: ledger_of_def)
  ultimately show ?thesis using ledger_restart by (simp add: obs_restart r_into_rtranclp)
qed

lemma sim_crash_writing:
  assumes "ok s" "sy_flight s = Writing b snap"
    and "write_file_durable path b io (sy_disk s) = (trace, res)" "d \<in> set trace"
    and "c \<in> set (disk_possible d path)"
  shows "moves f (obs f sn s)
    (obs f sn \<lparr> sy_metrics = boot P de opts now_secs c, sy_flight = Idle, sy_disk = settled path c d \<rparr>)"
proof -
  have "c \<in> write_outcomes path trace" using assms(4,5) by (auto simp: write_outcomes_def)
  then consider "c \<in> set (disk_possible (sy_disk s) path)" | "c = Some (Data b)"
    using durable_write_core [OF tmp_name assms(3)] by blast
  then show ?thesis
  proof cases
    case 1
    then show ?thesis by (rule sim_crash [OF assms(1)])
  next
    case 2
    let ?t = "file_total de c f sn"
    have ok: "file_ok de opts c" "counters P s f sn + delta_of snap f sn \<le> ?t"
      using ok_flight [OF assms(1)] assms(2) 2 by (simp_all add: flight_ok_def covers_def)
    have "ledger_step (frame_cap opts f) (obs f sn s) ((obs f sn s)\<lparr> lg_saved := {?t} \<rparr>)"
      using ok(2) assms(2)
      by (intro ledger_save [where h = "delta_of snap f sn" and t = ?t])
        (simp_all add: ledger_of_def flight_held_def)
    moreover have "ledger_step (frame_cap opts f) ((obs f sn s)\<lparr> lg_saved := {?t} \<rparr>)
        \<lparr> lg_shown = ?t, lg_due = 0, lg_held = None, lg_saved = {?t} \<rparr>"
      by (rule ledger_restart) simp
    ultimately show ?thesis unfolding obs_restart [OF ok(1)] by (rule converse_rtranclp_into_rtranclp [OF _ r_into_rtranclp])
  qed
qed

section \<open>Every step, every run\<close>

lemma sim_step:
  assumes "sys_step P ex ser de opts path s s'" and "ok s"
  shows "moves f (obs f sn s) (obs f sn s')"
  using assms(1)
proof (cases rule: sys_step.cases)
  case (sys_admit k)
  show ?thesis unfolding sys_admit(1) by (rule sim_quiet) (simp_all add: same_admit pending_admit)
next
  case (sys_realtime k d)
  show ?thesis
    unfolding sys_realtime(1) by (rule sim_quiet) (simp_all add: same_update_realtime pending_update_realtime)
next
  case (sys_config k c)
  show ?thesis
    unfolding sys_config(1) by (rule sim_quiet) (simp_all add: same_update_config pending_update_config)
next
  case (sys_accumulate k d now_secs m)
  show ?thesis unfolding sys_accumulate(1) by (rule sim_accumulate [OF assms(2) sys_accumulate(2)])
next
  case (sys_no_flush force now_secs now m)
  note quiet = phase1_none [OF sys_no_flush(2) ok_shared [OF assms(2)]]
  show ?thesis unfolding sys_no_flush(1) by (rule sim_quiet) (simp_all add: quiet)
next
  case (sys_begin force now_secs now b snap m)
  show ?thesis unfolding sys_begin(1) by (rule sim_begin [OF assms(2) sys_begin(2)])
next
  case (sys_write b snap io written trace m)
  show ?thesis unfolding sys_write(1) by (rule sim_write [OF assms(2) sys_write(2,4)])
next
  case (sys_finish written snap now_secs now)
  show ?thesis unfolding sys_finish(1) by (rule sim_finish [OF assms(2) sys_finish(2)])
next
  case (sys_crash c now_secs)
  show ?thesis unfolding sys_crash(1) by (rule sim_crash [OF assms(2) sys_crash(2)])
next
  case (sys_crash_writing b snap io trace res d c now_secs)
  show ?thesis
    unfolding sys_crash_writing(1) by (rule sim_crash_writing [OF assms(2) sys_crash_writing(2-5)])
qed (simp_all only: sim_records)

lemma sim_run:
  assumes "(sys_step P ex ser de opts path)\<^sup>*\<^sup>* s s'" and "ok s"
  shows "moves f (obs f sn s) (obs f sn s')"
  using assms(1)
proof (induction rule: rtranclp_induct)
  case (step t u)
  have "ok t" using run_advances [OF step(1) assms(2)] by simp
  with step show ?case by (blast intro: rtranclp_trans sim_step)
qed simp

lemma obs_initial: "obs f sn (sys_initial P de opts now_secs) = ledger_start"
  using boot_facts [of None now_secs]
  by (simp add: ledger_of_def counters_def pending_boot flight_held_def sys_initial_def ledger_start_def
      disk_possible_def file_ok_def file_total_def parse_content_def)

lemma sim_reach: "sys_reach P ex ser de opts path s \<Longrightarrow> moves f ledger_start (obs f sn s)"
proof (induction rule: sys_reach.induct)
  case (sys_reach_init now_secs)
  then show ?case by (simp add: obs_initial)
next
  case (sys_reach_step s s')
  then show ?case by (blast intro: rtranclp_trans sim_step reach_ok)
qed

end



end
