(* ===== verification/Config.thy ===== *)
theory Config
  imports Metrics_State
begin

text \<open>
  \<open>src/config.rs\<close>: the configuration record and its defaults, loading, the substitution of
  out-of-range values with a warning for each, the acceptance of serials, and the conversions to
  the knobs of the metrics and of the plausibility gate. The YAML parser and the file system are
  arguments. A string is its UTF-8 bytes.
\<close>

section \<open>Configuration\<close>

text \<open>A socket address: the octets of the IP address and the port.\<close>

datatype socket_addr = SocketAddr "nat list" nat

record config =
  listen :: socket_addr
  metrics_path :: string
  log_level :: string
  allowed_serials :: "string list option"
  max_body_bytes :: nat
  request_timeout_secs :: nat
  coulomb_max_gap_secs :: nat
  max_devices :: nat
  coulomb_state_path :: "string option"
  max_plausible_current_amperes :: f64
  min_plausible_pack_volts :: f64
  max_plausible_pack_volts :: f64
  max_frame_amp_hours :: f64
  max_frame_watt_hours :: f64
  calibration_enabled :: bool
  calibration_tau_hours :: f64
  calibration_min_span_hours :: f64
  calibration_max_offset_amperes :: f64
  calibration_max_anchor_error_amperes :: f64
  calibration_peer_max_disagreement_amperes :: f64
  coulomb_state_min_interval_secs :: nat

definition config_default :: config where
  "config_default =
     \<lparr> listen = SocketAddr [0, 0, 0, 0] 8080, metrics_path = ''/metrics'', log_level = ''info'',
       allowed_serials = None, max_body_bytes = 64 * 1024, request_timeout_secs = 10,
       coulomb_max_gap_secs = 900, max_devices = 64, coulomb_state_path = None,
       max_plausible_current_amperes = flit 100, min_plausible_pack_volts = flit 18,
       max_plausible_pack_volts = flit 34, max_frame_amp_hours = flit 25,
       max_frame_watt_hours = flit 900, calibration_enabled = True,
       calibration_tau_hours = flit 1440, calibration_min_span_hours = flit 168,
       calibration_max_offset_amperes = flit (5 / 10),
       calibration_max_anchor_error_amperes = flit (5 / 100),
       calibration_peer_max_disagreement_amperes = flit (25 / 100),
       coulomb_state_min_interval_secs = 5 \<rparr>"

section \<open>Loading\<close>

text \<open>The outcome of \<open>read_to_string\<close>: the text, a missing file or another error.\<close>

datatype 'e read_error = MissingFile | ReadFailed 'e

datatype ('e, 'p) config_error = ConfigIo "'e read_error" | ConfigParse 'p

definition config_load ::
  "(string \<Rightarrow> 'p + config) \<Rightarrow> 'e read_error + string \<Rightarrow> ('e, 'p) config_error + config" where
  "config_load from_yaml file = (case file of
     Inr text \<Rightarrow> (case from_yaml text of Inl e \<Rightarrow> Inl (ConfigParse e) | Inr c \<Rightarrow> Inr c)
   | Inl MissingFile \<Rightarrow> Inr config_default
   | Inl e \<Rightarrow> Inl (ConfigIo e))"

section \<open>Out-of-range values\<close>

text \<open>What is logged: a substitution by the default, or advice about a value that is kept.\<close>

datatype warning =
    Bad_min_interval | Bad_current | Bad_volts | Bad_frame_ah | Bad_frame_wh
  | Bad_tau | Bad_min_span | Bad_max_offset | Bad_anchor_error | Bad_peer_disagreement
  | Low_frame_ah | Low_frame_wh | Span_exceeds_tau

definition not_positive :: "f64 \<Rightarrow> bool" where
  "not_positive v \<longleftrightarrow> is_nan v \<or> v \<le> 0"

definition negative :: "f64 \<Rightarrow> bool" where
  "negative v \<longleftrightarrow> is_nan v \<or> v < 0"

text \<open>One \<open>if\<close> of the two functions: the test, the warning and the substitution. Advice keeps the
  configuration.\<close>

definition check :: "(config \<Rightarrow> bool) \<Rightarrow> warning \<Rightarrow> (config \<Rightarrow> config) \<Rightarrow> warning list \<times> config \<Rightarrow> warning list \<times> config" where
  "check bad w substitute = (\<lambda>(ws, c). if bad c then (ws @ [w], substitute c) else (ws, c))"

definition advise :: "(config \<Rightarrow> bool) \<Rightarrow> warning \<Rightarrow> warning list \<times> config \<Rightarrow> warning list \<times> config" where
  "advise bad w = (\<lambda>(ws, c). if bad c then (ws @ [w], c) else (ws, c))"

text \<open>\<open>(1..=3600).contains\<close>.\<close>

definition interval_in_range :: "nat \<Rightarrow> bool" where
  "interval_in_range n \<longleftrightarrow> 1 \<le> n \<and> n \<le> 3600"

definition reset_calibration_out_of_range ::
  "config \<Rightarrow> warning list \<times> config \<Rightarrow> warning list \<times> config" where
  "reset_calibration_out_of_range d s =
     (let s = check (\<lambda>c. not_positive (calibration_tau_hours c)) Bad_tau
            (\<lambda>c. c\<lparr> calibration_tau_hours := calibration_tau_hours d \<rparr>) s;
          s = check (\<lambda>c. negative (calibration_min_span_hours c)) Bad_min_span
            (\<lambda>c. c\<lparr> calibration_min_span_hours := calibration_min_span_hours d \<rparr>) s;
          s = check (\<lambda>c. negative (calibration_max_offset_amperes c)) Bad_max_offset
            (\<lambda>c. c\<lparr> calibration_max_offset_amperes := calibration_max_offset_amperes d \<rparr>) s;
          s = check (\<lambda>c. negative (calibration_max_anchor_error_amperes c)) Bad_anchor_error
            (\<lambda>c. c\<lparr> calibration_max_anchor_error_amperes := calibration_max_anchor_error_amperes d \<rparr>) s;
          s = check (\<lambda>c. not_positive (calibration_peer_max_disagreement_amperes c)) Bad_peer_disagreement
            (\<lambda>c. c\<lparr> calibration_peer_max_disagreement_amperes :=
               calibration_peer_max_disagreement_amperes d \<rparr>) s
      in advise (\<lambda>c. calibration_tau_hours c < calibration_min_span_hours c) Span_exceeds_tau s)"

definition reachable_ah :: "config \<Rightarrow> f64" where
  "reachable_ah c = max_plausible_current_amperes c * (f64_of_nat (coulomb_max_gap_secs c) / flit 3600)"

definition reset_out_of_range_to_defaults :: "config \<Rightarrow> warning list \<times> config" where
  "reset_out_of_range_to_defaults c =
     (let d = config_default;
          s = check (\<lambda>c. \<not> interval_in_range (coulomb_state_min_interval_secs c))
            Bad_min_interval
            (\<lambda>c. c\<lparr> coulomb_state_min_interval_secs := coulomb_state_min_interval_secs d \<rparr>) ([], c);
          s = check (\<lambda>c. not_positive (max_plausible_current_amperes c)) Bad_current
            (\<lambda>c. c\<lparr> max_plausible_current_amperes := max_plausible_current_amperes d \<rparr>) s;
          s = check (\<lambda>c. is_nan (min_plausible_pack_volts c) \<or> is_nan (max_plausible_pack_volts c)
               \<or> max_plausible_pack_volts c \<le> min_plausible_pack_volts c) Bad_volts
            (\<lambda>c. c\<lparr> min_plausible_pack_volts := min_plausible_pack_volts d,
                    max_plausible_pack_volts := max_plausible_pack_volts d \<rparr>) s;
          s = check (\<lambda>c. not_positive (max_frame_amp_hours c)) Bad_frame_ah
            (\<lambda>c. c\<lparr> max_frame_amp_hours := max_frame_amp_hours d \<rparr>) s;
          s = advise (\<lambda>c. max_frame_amp_hours c < reachable_ah c) Low_frame_ah s;
          s = advise (\<lambda>c. max_frame_watt_hours c < reachable_ah c * max_plausible_pack_volts c) Low_frame_wh s;
          s = check (\<lambda>c. not_positive (max_frame_watt_hours c)) Bad_frame_wh
            (\<lambda>c. c\<lparr> max_frame_watt_hours := max_frame_watt_hours d \<rparr>) s
      in reset_calibration_out_of_range d s)"

section \<open>Serials\<close>

definition is_ascii_alphanumeric :: "char \<Rightarrow> bool" where
  "is_ascii_alphanumeric c = (let n = of_char c :: nat in
     48 \<le> n \<and> n \<le> 57 \<or> 65 \<le> n \<and> n \<le> 90 \<or> 97 \<le> n \<and> n \<le> 122)"

definition is_plausible_serial :: "string \<Rightarrow> bool" where
  "is_plausible_serial sn \<longleftrightarrow> sn \<noteq> [] \<and> length sn \<le> 64 \<and> list_all is_ascii_alphanumeric sn"

definition accept_serial :: "config \<Rightarrow> string \<Rightarrow> bool" where
  "accept_serial c sn =
     (if \<not> is_plausible_serial sn then False
      else case allowed_serials c of
        Some list \<Rightarrow> (if list \<noteq> [] then list_ex (\<lambda>s. s = sn) list else True)
      | None \<Rightarrow> True)"

section \<open>Conversions\<close>

definition metrics_options_of :: "config \<Rightarrow> metrics_options" where
  "metrics_options_of c =
     \<lparr> mo_coulomb_max_gap_secs = f64_of_nat (coulomb_max_gap_secs c),
       mo_max_devices = max_devices c, mo_coulomb_state_path = coulomb_state_path c,
       mo_state_min_interval = secs_to_nanos (int (coulomb_state_min_interval_secs c)),
       mo_max_frame_amp_hours = max_frame_amp_hours c,
       mo_max_frame_watt_hours = max_frame_watt_hours c,
       mo_calibration_enabled = calibration_enabled c,
       mo_calibration = options_default\<lparr> o_tau_hours := calibration_tau_hours c,
         o_min_span_hours := calibration_min_span_hours c,
         o_max_offset_amperes := calibration_max_offset_amperes c,
         o_max_anchor_error_amperes := calibration_max_anchor_error_amperes c,
         o_peer_max_disagreement_amperes := calibration_peer_max_disagreement_amperes c,
         o_max_gap_secs := f64_of_nat (coulomb_max_gap_secs c) \<rparr> \<rparr>"

definition plausibility_limits_of :: "config \<Rightarrow> plausibility_limits" where
  "plausibility_limits_of c =
     \<lparr> max_current_a = max_plausible_current_amperes c,
       pack_volts = (min_plausible_pack_volts c, max_plausible_pack_volts c) \<rparr>"

end
