(* ===== verification/Decode_Facts.thy ===== *)
theory Decode_Facts
  imports Decode
begin

text \<open>
  What the decoder guarantees: the encodings are accurate and strictly monotone, decoded blocks
  have bounded, ordered index families, strings carry no control bytes, and a register beyond
  the block never matters.
\<close>

section \<open>Accuracy of the encodings\<close>

lemma tenth: "rnd (1 / 10) = 3602879701896397 / 36028797018963968"
  by code_simp

lemma fclip_small: "\<bar>q\<bar> \<le> 2 powi 1023 \<Longrightarrow> fclip q = q"
proof -
  assume "\<bar>q\<bar> \<le> 2 powi 1023"
  also have "(2::rat) powi 1023 \<le> fbound" unfolding fbound_def by (rule powi_mono2) simp
  finally show ?thesis by (rule fclip_id)
qed

lemma small_le_powi: "\<bar>q\<bar> \<le> 2 ^ 53 \<Longrightarrow> \<bar>q :: rat\<bar> \<le> 2 powi 1023"
proof -
  assume "\<bar>q\<bar> \<le> 2 ^ 53"
  also have "(2::rat) ^ 53 = 2 powi 53" by simp
  also have "(2::rat) powi 53 \<le> 2 powi 1023" by (rule powi_mono2) simp
  finally show ?thesis .
qed

lemma small_finite: "\<not> is_nan x \<Longrightarrow> \<bar>fkey x\<bar> \<le> 2 ^ 53 \<Longrightarrow> is_finite x"
proof -
  assume n: "\<not> is_nan x" and "\<bar>fkey x\<bar> \<le> 2 ^ 53"
  then have "\<bar>fkey x\<bar> \<le> 2 powi 1023" by (intro small_le_powi)
  also have "\<dots> < fbound" unfolding fbound_def by (rule powi_strict2) simp
  finally show ?thesis using n by (simp add: is_finite_iff)
qed

lemma fkey_of_int: "\<bar>k\<bar> \<le> 2 ^ 53 \<Longrightarrow> fkey (f64_of_int k) = of_int k"
proof -
  assume k: "\<bar>k\<bar> \<le> 2 ^ 53"
  then have "\<bar>of_int k\<bar> \<le> (of_int (2 ^ 53) :: rat)" by (simp only: of_int_abs [symmetric] of_int_le_iff)
  then have "\<bar>of_int k\<bar> \<le> (2 powi 1023 :: rat)" by (intro small_le_powi) simp
  then show ?thesis using k by (simp add: f64_of_int_def fkey_flit rnd_of_int fclip_small)
qed

lemma of_int_finite: "\<bar>k\<bar> \<le> 2 ^ 53 \<Longrightarrow> is_finite (f64_of_int k)"
proof -
  assume k: "\<bar>k\<bar> \<le> 2 ^ 53"
  then have "\<bar>of_int k\<bar> \<le> (of_int (2 ^ 53) :: rat)" by (simp only: of_int_abs [symmetric] of_int_le_iff)
  then show ?thesis using fkey_of_int [OF k]
    by (intro small_finite) (simp_all add: f64_of_int_def)
qed

text \<open>A small integer times the double nearest to a tenth.\<close>

lemma tenth_key: "fkey (flit (1 / 10)) = 3602879701896397 / 36028797018963968" "is_finite (flit (1 / 10))"
proof -
  show k: "fkey (flit (1 / 10)) = 3602879701896397 / 36028797018963968"
    unfolding fkey_flit tenth by (rule fclip_small, rule small_le_powi) simp
  show "is_finite (flit (1 / 10))" by (rule small_finite) (simp_all add: k)
qed

lemma scaled_tenth:
  assumes "\<bar>k\<bar> < 2 ^ 16"
  shows "\<bar>fkey (f64_of_int k * flit (1 / 10)) - of_int k / 10\<bar> \<le> 1 / 2 ^ 40"
    and "is_finite (f64_of_int k * flit (1 / 10))"
    and "fkey (f64_of_int k * flit (1 / 10)) = rnd (of_int k * (3602879701896397 / 36028797018963968))"
proof -
  let ?c = "3602879701896397 / 36028797018963968 :: rat"
  let ?q = "of_int k * ?c"
  have k53: "\<bar>k\<bar> \<le> 2 ^ 53" using assms by simp
  have kr: "\<bar>of_int k\<bar> \<le> (2 ^ 16 :: rat)"
  proof -
    have "(of_int \<bar>k\<bar> :: rat) \<le> of_int (2 ^ 16)" using assms by (subst of_int_le_iff) simp
    then show ?thesis by simp
  qed
  have "\<bar>?q\<bar> \<le> 2 ^ 16 * ?c" unfolding abs_mult using kr by (intro mult_mono) simp_all
  also have "\<dots> < 2 powi 13" by simp
  finally have small: "\<bar>?q\<bar> < 2 powi 13" .
  have err: "\<bar>rnd ?q - ?q\<bar> \<le> 2 powi (13 - 54)" using small by (rule rnd_error_le) simp
  then have err': "\<bar>rnd ?q - ?q\<bar> \<le> 1 / 2 ^ 41" by simp
  then have rb: "\<bar>rnd ?q\<bar> \<le> 2 ^ 53" using small by (simp add: abs_if split: if_splits)
  have key: "fkey (f64_of_int k * flit (1 / 10)) = fclip (rnd ?q)"
    using fkey_mul [OF of_int_finite [OF k53] tenth_key(2)] fkey_of_int [OF k53] tenth_key(1) by simp
  also have "\<dots> = rnd ?q" by (rule fclip_small, rule small_le_powi) (rule rb)
  finally show eq: "fkey (f64_of_int k * flit (1 / 10)) = rnd ?q" .
  show "is_finite (f64_of_int k * flit (1 / 10))"
    using rb of_int_finite [OF k53] tenth_key(2) by (intro small_finite) (simp_all add: eq)
  have "?q - of_int k / 10 = of_int k * (?c - 1 / 10)" by (simp add: algebra_simps)
  then have "\<bar>?q - of_int k / 10\<bar> = \<bar>of_int k\<bar> * \<bar>?c - 1 / 10\<bar>" by (simp only: abs_mult)
  also have "\<dots> \<le> 2 ^ 16 * \<bar>?c - 1 / 10\<bar>" using kr by (rule mult_right_mono) simp
  also have "\<dots> \<le> 1 / 2 ^ 41" by simp
  finally have close: "\<bar>?q - of_int k / 10\<bar> \<le> 1 / 2 ^ 41" .
  have half: "(1 / 2 ^ 41 :: rat) + 1 / 2 ^ 41 = 1 / 2 ^ 40" by simp
  have "\<bar>rnd ?q - of_int k / 10\<bar> \<le> \<bar>rnd ?q - ?q\<bar> + \<bar>?q - of_int k / 10\<bar>" by linarith
  also have "\<dots> \<le> 1 / 2 ^ 40" using add_mono [OF err' close] unfolding half .
  finally show "\<bar>fkey (f64_of_int k * flit (1 / 10)) - of_int k / 10\<bar> \<le> 1 / 2 ^ 40"
    unfolding eq .
qed

lemma uint_u16_range: "0 \<le> uint (w :: u16)" "uint (w :: u16) < 65536"
proof -
  have "uint w < 2 ^ LENGTH(16)" by (rule unsigned_less)
  then show "uint w < 65536" by simp
qed simp

lemma amps_range: "\<bar>uint (raw :: u16) - 30000\<bar> < 2 ^ 16"
proof -
  have "0 \<le> uint raw" "uint raw < 65536" by (rule uint_u16_range)+
  moreover have "(2::int) ^ 16 = 65536" by simp
  ultimately show ?thesis unfolding abs_less_iff by linarith
qed

lemma deci_range: "\<bar>uint (raw :: u16)\<bar> < 2 ^ 16"
  using uint_u16_range [of raw] by simp

lemma deci_as_int: "deci raw = f64_of_int (uint raw) * flit (1 / 10)"
  by (simp add: deci_def f64_of_u16_def)

lemma scaled_mono:
  assumes "j \<le> k" "\<bar>j\<bar> < 2 ^ 16" "\<bar>k\<bar> < 2 ^ 16"
  shows "f64_of_int j * flit (1 / 10) \<le> f64_of_int k * flit (1 / 10)"
  unfolding f64_le_iff scaled_tenth(3) [OF assms(2)] scaled_tenth(3) [OF assms(3)]
  using is_finite_not_nan [OF scaled_tenth(2) [OF assms(2)]]
    is_finite_not_nan [OF scaled_tenth(2) [OF assms(3)]] assms(1)
  by (intro conjI rnd_mono mult_right_mono) simp_all

lemma amps_mono: "a \<le> b \<Longrightarrow> amps a \<le> amps b"
  unfolding amps_def by (rule scaled_mono [OF _ amps_range amps_range]) (simp add: word_le_def)

lemma deci_mono: "a \<le> b \<Longrightarrow> deci a \<le> deci b"
  unfolding deci_as_int by (rule scaled_mono [OF _ deci_range deci_range]) (simp add: word_le_def)

text \<open>Distinct register values stay distinct, a tenth apart up to the rounding error.\<close>

lemma scaled_strict:
  assumes "j < k" "\<bar>j\<bar> < 2 ^ 16" "\<bar>k\<bar> < 2 ^ 16"
  shows "f64_of_int j * flit (1 / 10) < f64_of_int k * flit (1 / 10)"
proof -
  have "of_int j + 1 \<le> (of_int k :: rat)" using assms(1) by linarith
  then have "of_int j / 10 + 1 / 2 ^ 39 < (of_int k / 10 :: rat)" by simp
  moreover note scaled_tenth(1) [OF assms(2)] scaled_tenth(1) [OF assms(3)]
  moreover have "(1 / 2 ^ 39 :: rat) = 1 / 2 ^ 40 + 1 / 2 ^ 40" by simp
  ultimately have "fkey (f64_of_int j * flit (1 / 10)) < fkey (f64_of_int k * flit (1 / 10))"
    by (simp only: abs_le_iff) linarith
  then show ?thesis
    unfolding f64_less_iff
    using is_finite_not_nan [OF scaled_tenth(2) [OF assms(2)]]
      is_finite_not_nan [OF scaled_tenth(2) [OF assms(3)]] by blast
qed

lemma amps_strict: "a < b \<Longrightarrow> amps a < amps b"
  unfolding amps_def by (rule scaled_strict [OF _ amps_range amps_range]) (simp add: word_less_def)

lemma deci_strict: "a < b \<Longrightarrow> deci a < deci b"
  unfolding deci_as_int by (rule scaled_strict [OF _ deci_range deci_range]) (simp add: word_less_def)

text \<open>C28: every register value decodes to a finite current within 2^-40 A of the documented
  (raw - 30000) / 10, and a larger raw value always decodes to a strictly larger current, so the
  decoding loses nothing.\<close>

theorem amps_accurate:
  "is_finite (amps raw) \<and>
   \<bar>fkey (amps raw) - (of_int (uint raw) - 30000) / 10\<bar> \<le> 1 / 2 ^ 40 \<and>
   (amps raw < amps raw' \<longleftrightarrow> raw < raw')"
proof (intro conjI)
  show "is_finite (amps raw)" unfolding amps_def by (rule scaled_tenth(2) [OF amps_range])
  show "\<bar>fkey (amps raw) - (of_int (uint raw) - 30000) / 10\<bar> \<le> 1 / 2 ^ 40"
    using scaled_tenth(1) [OF amps_range [of raw]] by (simp only: amps_def of_int_diff of_int_numeral)
  show "amps raw < amps raw' \<longleftrightarrow> raw < raw'"
    using amps_strict [of raw raw'] amps_mono [of raw' raw]
    by (auto simp: f64_le_iff f64_less_iff not_less [symmetric])
qed

section \<open>Indexed families\<close>

lemma indexed_slots_Suc:
  "indexed_slots regs base conv (Suc c) = indexed_slots regs base conv c @
     (case reg_at regs (base + c) of None \<Rightarrow> []
      | Some raw \<Rightarrow> if raw \<noteq> 0 then [(c + 1, conv raw)] else [])"
  by (simp add: indexed_slots_def List.map_filter_def split: option.splits)

lemma indexed_slots_0 [simp]: "indexed_slots regs base conv 0 = []"
  by (simp add: indexed_slots_def List.map_filter_def)

lemma set_indexed_slots:
  "(n, v) \<in> set (indexed_slots regs base conv c) \<longleftrightarrow>
   0 < n \<and> n \<le> c \<and> (\<exists>raw. reg_at regs (base + (n - 1)) = Some raw \<and> raw \<noteq> 0 \<and> v = conv raw)"
proof (induction c)
  case (Suc c)
  show ?case
  proof (cases "n = Suc c")
    case True
    then show ?thesis using Suc
      by (cases "reg_at regs (base + c)") (auto simp: indexed_slots_Suc)
  next
    case False
    then have "n \<le> Suc c \<longleftrightarrow> n \<le> c" by auto
    then show ?thesis using Suc False
      by (cases "reg_at regs (base + c)"; cases n) (auto simp: indexed_slots_Suc)
  qed
qed auto

lemma sorted_indexed_slots: "sorted_wrt (<) (map fst (indexed_slots regs base conv c))"
proof (induction c)
  case (Suc c)
  have "n < c + 1" if "n \<in> set (map fst (indexed_slots regs base conv c))" for n
    using that by (auto simp: set_indexed_slots)
  then show ?case using Suc
    by (auto simp: indexed_slots_Suc sorted_wrt_append split: option.splits)
qed simp

lemma length_indexed_slots: "length (indexed_slots regs base conv c) \<le> c"
  by (induction c) (auto simp: indexed_slots_Suc split: option.splits)

lemma clamped_count_le: "clamped_count c bound \<le> unat bound"
  unfolding clamped_count_def by (intro word_le_nat_alt [THEN iffD1]) simp


section \<open>Registers outside the block\<close>

lemma reg_at_take: "reg_at (take n regs) a = (if a < n then reg_at regs a else None)"
  by (simp add: reg_at_def)

lemma ascii_take: "e < n \<Longrightarrow> s \<le> e \<Longrightarrow> ascii (take n regs) s e = ascii regs s e"
proof (cases "length regs \<le> n")
  case False
  assume "e < n" "s \<le> e"
  with False have "ascii_chars (take n regs) s e = ascii_chars regs s e"
    by (simp add: ascii_chars_def min_def)
  then show ?thesis using False \<open>e < n\<close> \<open>s \<le> e\<close> by (simp add: ascii_def)
qed simp

lemma indexed_slots_take:
  "base + c \<le> n \<Longrightarrow> indexed_slots (take n regs) base conv c = indexed_slots regs base conv c"
  by (induction c) (simp_all add: indexed_slots_Suc reg_at_take)

text \<open>Decoding reads only the documented registers: a realtime block is determined by its
  first 0x5E registers and a configuration block by its first 0x50, so trailing registers never
  change the result.\<close>

lemma decoding_is_local:
  "0x5E \<le> n \<Longrightarrow> 0x50 \<le> m \<Longrightarrow>
   realtime_from_registers (take n regs) = realtime_from_registers regs \<and>
   config_from_registers (take m regs) = config_from_registers regs"
proof -
  assume n: "0x5E \<le> n" and m: "0x50 \<le> m"
  have c: "clamped_count (reg_at regs REG_CELL_COUNT) MAX_CELLS \<le> n"
    using clamped_count_le [of "reg_at regs REG_CELL_COUNT" MAX_CELLS] n by (simp add: MAX_CELLS_def)
  have t: "0x20 + clamped_count (reg_at regs REG_TEMP_COUNT) MAX_TEMPS \<le> n"
    using clamped_count_le [of "reg_at regs REG_TEMP_COUNT" MAX_TEMPS] n by (simp add: MAX_TEMPS_def)
  have "realtime_from_registers (take n regs) = realtime_from_registers regs"
    using n c t unfolding realtime_from_registers_def Let_def
    by (simp add: reg_at_take ascii_take indexed_slots_take realtime_registers)
  moreover have "config_from_registers (take m regs) = config_from_registers regs"
    using m unfolding config_from_registers_def Let_def limits_of_def cfg_reg_at_def
    by (simp add: reg_at_take ascii_take config_registers)
  ultimately show ?thesis ..
qed

text \<open>A field of a truncated block is absent or what the whole block has.\<close>

definition absent_or :: "'a option \<Rightarrow> 'a option \<Rightarrow> bool" where
  "absent_or x y \<longleftrightarrow> x = None \<or> x = y"

lemma absent_or_take [simp]: "absent_or (map_option f (reg_at (take n regs) a)) (map_option f (reg_at regs a))"
  "absent_or (reg_at (take n regs) a) (reg_at regs a)"
  by (simp_all add: absent_or_def reg_at_take)

text \<open>A short realtime frame never yields an invented reading: each scalar field decoded from
  a truncated block is absent or equal to the field decoded from the whole block, and it is
  absent as soon as its register is cut off.\<close>

lemma realtime_short_frames:
  "let d = realtime_from_registers (take n regs); w = realtime_from_registers regs
   in absent_or (pack_v d) (pack_v w) \<and> absent_or (current_a d) (current_a w) \<and>
      absent_or (soc_pct d) (soc_pct w) \<and> absent_or (cell_max_v d) (cell_max_v w) \<and>
      absent_or (cell_min_v d) (cell_min_v w) \<and> absent_or (temp_max_c d) (temp_max_c w) \<and>
      absent_or (temp_min_c d) (temp_min_c w) \<and> absent_or (remaining_ah d) (remaining_ah w) \<and>
      absent_or (cycles d) (cycles w) \<and> absent_or (charge_mos d) (charge_mos w) \<and>
      absent_or (discharge_mos d) (discharge_mos w) \<and> absent_or (cell_avg_v d) (cell_avg_v w) \<and>
      absent_or (cell_delta_v d) (cell_delta_v w) \<and>
      absent_or (balancer_active d) (balancer_active w) \<and>
      absent_or (balance_current_a d) (balance_current_a w) \<and>
      absent_or (balancing_cells d) (balancing_cells w) \<and> absent_or (mos_temp_c d) (mos_temp_c w) \<and>
      absent_or (alarm_bits d) (alarm_bits w) \<and>
      (current_a d = None \<longleftrightarrow> n \<le> 0x29 \<or> length regs \<le> 0x29) \<and>
      (pack_v d = None \<longleftrightarrow> n \<le> 0x28 \<or> length regs \<le> 0x28) \<and>
      (remaining_ah d = None \<longleftrightarrow> n \<le> 0x30 \<or> length regs \<le> 0x30)"
  by (simp add: realtime_from_registers_def Let_def)
    (auto simp: reg_at_def realtime_registers)

section \<open>Strings carry no control bytes\<close>

lemma utf8_width_cases: "utf8_width b = 0 \<or> utf8_width b = 2 \<or> utf8_width b = 3 \<or> utf8_width b = 4"
  by (simp add: utf8_width_def)

definition code_point :: "int \<Rightarrow> bool" where
  "code_point c \<longleftrightarrow> 0 \<le> c \<and> c \<le> 0x10FFFF"

lemma code_point_simps:
  "code_point 0xFFFD" "0 \<le> b \<Longrightarrow> b < 0x80 \<Longrightarrow> code_point b"
  "utf8_width b = 2 \<Longrightarrow> utf8_second b c \<Longrightarrow> code_point (utf8_point2 b c)"
  "utf8_width b = 3 \<Longrightarrow> utf8_second b c \<Longrightarrow> utf8_cont d \<Longrightarrow> code_point (utf8_point3 b c d)"
  unfolding code_point_def utf8_width_def utf8_second_def utf8_cont_def utf8_point2_def
    utf8_point3_def by (auto split: if_splits)

lemma code_point4:
  "utf8_width b \<noteq> 0 \<Longrightarrow> utf8_width b \<noteq> 2 \<Longrightarrow> utf8_width b \<noteq> 3 \<Longrightarrow>
     utf8_second b c \<Longrightarrow> utf8_cont d \<Longrightarrow> utf8_cont e \<Longrightarrow> code_point (utf8_point4 b c d e)"
  unfolding code_point_def utf8_width_def utf8_second_def utf8_cont_def utf8_point4_def
  by (auto split: if_splits)

lemma utf8_lossy_range:
  "\<forall>b\<in>set bs. 0 \<le> b \<Longrightarrow> \<forall>c\<in>set (utf8_lossy bs). code_point c"
proof (induction bs rule: length_induct)
  case (1 bs)
  have IH: "\<forall>c\<in>set (utf8_lossy ys). code_point c"
    if "length ys < length bs" "\<forall>b\<in>set ys. 0 \<le> b" for ys
    using 1 that by blast
  show ?case
  proof (cases bs)
    case (Cons b r)
    show ?thesis
    proof (cases r)
      case Nil
      then show ?thesis using "1.prems" Cons
        by (simp add: code_point_simps utf8_lossy.simps(2))
    next
      case r: (Cons c r1)
      have P: "\<forall>c\<in>set (utf8_lossy r). code_point c" "\<forall>c\<in>set (utf8_lossy r1). code_point c"
        using IH [of r] IH [of r1] "1.prems" Cons r by simp_all
      show ?thesis
      proof (cases r1)
        case Nil
        then show ?thesis using P "1.prems" Cons r
          by (subst Cons, subst utf8_lossy.simps(2)) (simp add: code_point_simps)
      next
        case r1: (Cons d r2)
        have P2: "\<forall>c\<in>set (utf8_lossy r2). code_point c" "\<forall>c\<in>set (utf8_lossy (tl r2)). code_point c"
          using IH [of r2] IH [of "tl r2"] "1.prems" Cons r r1 by (cases r2; simp)+
        then show ?thesis using P "1.prems" Cons r r1
          by (cases r2; subst Cons, subst utf8_lossy.simps(2)) (simp_all add: code_point_simps code_point4)
      qed
    qed
  qed simp
qed

text \<open>The bytes of an encoded code point: the code point itself below 0x80, else bytes from 0x80.\<close>

lemma utf8_char_bytes:
  "code_point c \<Longrightarrow> b \<in> set (utf8_char c) \<Longrightarrow> b = c \<and> c < 0x80 \<or> 0x80 \<le> b \<and> b < 256"
  unfolding utf8_char_def code_point_def by (auto split: if_splits)

lemma set_trim_matches: "set (trim_matches p cs) \<subseteq> set cs"
  unfolding trim_matches_def by (auto dest!: set_dropWhileD)

lemma ascii_chars_clean:
  "c \<in> set (ascii_chars regs s e) \<Longrightarrow> code_point c \<and> \<not> is_control c"
proof -
  assume "c \<in> set (ascii_chars regs s e)"
  then have c: "c \<in> set (utf8_lossy (map uint
      (concat (map to_be_bytes (drop s (take (min e (length regs - 1) + 1) regs))))))" "\<not> is_control c"
    using set_trim_matches unfolding ascii_chars_def Let_def by fastforce+
  have "\<forall>b\<in>set (map uint (bs :: u8 list)). 0 \<le> b" for bs by auto
  from bspec [OF utf8_lossy_range [OF this] c(1)] c(2) show ?thesis by blast
qed

text \<open>C29: a decoded string (serial number, machine code, versions) is never empty and contains no
  control byte, neither below 0x20 nor 0x7F, so it cannot break a log line or an exposition line
  it is written into.\<close>

theorem ascii_clean:
  "ascii regs s e = Some str \<Longrightarrow>
   str \<noteq> [] \<and> (\<forall>c\<in>set str. 0x20 \<le> (of_char c :: int) \<and> (of_char c :: int) \<noteq> 0x7F)"
proof -
  assume "ascii regs s e = Some str"
  then have str: "str = utf8_encode (ascii_chars regs s e)" and ne: "ascii_chars regs s e \<noteq> []"
    by (auto simp: ascii_def Let_def split: if_splits)
  have "utf8_char c \<noteq> []" for c by (simp add: utf8_char_def)
  with str ne have "str \<noteq> []" by (simp add: utf8_encode_def)
  moreover have "0x20 \<le> (of_char x :: int) \<and> (of_char x :: int) \<noteq> 0x7F" if "x \<in> set str" for x
  proof -
    obtain c b where c: "c \<in> set (ascii_chars regs s e)" "b \<in> set (utf8_char c)" "x = char_of b"
      using \<open>x \<in> set str\<close> unfolding str utf8_encode_def by auto
    have ok: "code_point c" "\<not> is_control c" using ascii_chars_clean [OF c(1)] by auto
    then have "0x20 \<le> b \<and> b \<noteq> 0x7F \<and> b < 256"
      using utf8_char_bytes [OF ok(1) c(2)] by (auto simp: is_control_def code_point_def)
    then show ?thesis unfolding c(3) by (simp add: of_char_of)
  qed
  ultimately show ?thesis by blast
qed

lemma ascii_clean_witness:
  "ascii [0x3232, 0x0A34] 0 1 = Some ''224'' \<and>
   list_all (\<lambda>c. 0x20 \<le> (of_char c :: int) \<and> (of_char c :: int) \<noteq> 0x7F) ''224''"
proof -
  have a: "ascii [0x3232, 0x0A34] 0 1 = Some ''224''" by code_simp
  with ascii_clean [OF a] show ?thesis unfolding list_all_iff by blast
qed

end
