(* ===== verification/Calibration_Facts.thy ===== *)
theory Calibration_Facts
  imports Calibration
begin

text \<open>
  Properties of the calibrator's binary64 code: the diagnostics of a fit, the gates and the
  veto that decide when an offset changes, the bounds of the applied offset in every
  reachable calibrator, the published peers and the snapshot round trip.
\<close>

section \<open>What a fit promises\<close>

lemma fkey_f64_max: "fkey f64_max = of_int (2 ^ 53 - 1) * 2 powi 971" (is "_ = ?q")
  and f64_max_facts: "is_finite f64_max" "0 \<le> f64_max"
proof -
  have q: "(of_int ((2 ^ 53 - 1) * 2 ^ 971) :: rat) = ?q"
    unfolding of_int_mult by (rule arg_cong [where f = "(*) _"]) (simp add: power_int_def)
  have "?q < 2 powi 53 * 2 powi 971"
    by (rule mult_strict_right_mono) (simp_all add: powi_pos2)
  also have "\<dots> = fbound"
    unfolding fbound_def by (simp only: powi_add2 [symmetric]) simp
  finally have lt: "?q < fbound" .
  have pos: "0 < ?q" by (simp add: powi_pos2)
  have "rnd ?q = ?q" by (rule rnd_exact) simp_all
  then show k: "fkey f64_max = ?q"
    using lt pos by (simp only: f64_max_def fkey_flit q fclip_id abs_of_pos less_imp_le)
  show "0 \<le> f64_max" using pos by (simp only: f64_le_iff k) (simp add: f64_max_def)
  show "is_finite f64_max"
    unfolding is_finite_iff k using pos lt by (simp only: abs_of_pos) (simp add: f64_max_def)
qed

declare f64_max_facts [simp]

lemma weight_minus_two: "flit 3 \<le> n \<Longrightarrow> 0 \<le> n - flit 2"
proof -
  assume n: "flit 3 \<le> n"
  have k: "fkey (flit 3) = 3" "fkey (- flit 2) = - 2" "is_finite (- flit 2)"
    "f64_infinity - flit 2 = f64_infinity" "(0 :: f64) \<le> flit 3"
    by code_simp+
  have "is_finite n \<or> n = f64_infinity"
    using n k(5) by (intro nonneg_cases) (rule f64_trans)
  then show ?thesis
  proof
    assume fin: "is_finite n"
    have "0 \<le> fclip (rnd (fkey n + - 2))"
      using n k(1) by (simp add: fclip_def le_max_iff_disj rnd_nonneg f64_le_iff)
    then show ?thesis using fin k by (simp add: f64_diff_conv f64_le_iff fkey_add)
  qed (simp add: k(4) f64_le_iff)
qed

lemma fsqrt_nan: "is_nan x \<Longrightarrow> is_nan (fsqrt x)"
  by transfer simp

lemma fmax_zero_nonneg: "0 \<le> fmax x 0"
  by (simp add: fmax_ge_right)

lemma ew_fit_line_finite:
  assumes "ew_fit_line f = Some l"
  shows "is_finite (fit_slope l)" "is_finite (fit_intercept l)"
    "is_finite (fit_stderr l)" "0 \<le> fit_stderr l"
    "is_nan (fit_r2 l) \<or> 0 \<le> fit_r2 l \<and> fit_r2 l \<le> 1"
proof -
  define sse where "sse = fmax (ew_cyy f - ew_slope f * ew_cxy f) 0"
  define v where "v = sse / (ew_n f - flit 2) / ew_cxx f"
  note d = assms [unfolded ew_fit_line_def Let_def]
  have cond: "\<not> ew_n f < flit 3" "\<not> ew_cxx f \<le> 0" "is_finite (ew_cxx f)"
    "is_finite (ew_slope f)" "is_finite (ew_intercept f)"
    using d by (auto split: if_splits)
  have l: "l = \<lparr> fit_slope = ew_slope f, fit_intercept = ew_intercept f,
      fit_r2 = (if 0 < ew_cyy f then fclamp 0 1 (ew_cxy f * ew_cxy f / (ew_cxx f * ew_cyy f)) else 1),
      fit_stderr = (if is_finite (fsqrt v) then fsqrt v else f64_max) \<rparr>"
    unfolding v_def sse_def by (rule sym, rule option.inject [THEN iffD1])
      (use d in \<open>simp add: cond split del: if_split\<close>)
  have "is_nan (ew_n f) \<or> 0 \<le> ew_n f - flit 2"
    using cond(1) by (cases "is_nan (ew_n f)") (auto simp: f64_not_less intro: weight_minus_two)
  then have "is_nan (sse / (ew_n f - flit 2)) \<or> 0 \<le> sse / (ew_n f - flit 2)"
  proof
    show ?thesis if "is_nan (ew_n f)"
      using that by simp
    show ?thesis if "0 \<le> ew_n f - flit 2"
      using nonneg_div [OF fmax_zero_nonneg that] by (simp add: sse_def)
  qed
  moreover have "0 < ew_cxx f" using cond is_finite_not_nan [OF cond(3)] by (simp add: f64_not_le)
  ultimately have "is_nan v \<or> 0 \<le> v"
  proof (elim disjE)
    show ?thesis if "is_nan (sse / (ew_n f - flit 2))"
      using that by (simp add: v_def)
    show ?thesis if "0 \<le> sse / (ew_n f - flit 2)" "0 < ew_cxx f"
      using nonneg_div [OF that(1) f64_less_imp_le [OF that(2)]] by (simp add: v_def)
  qed
  then have "is_finite (fsqrt v) \<Longrightarrow> 0 \<le> fsqrt v"
    using fsqrt_nan [of v] is_finite_not_nan fsqrt_nonneg [of v] by blast
  then show "is_finite (fit_stderr l)" "0 \<le> fit_stderr l" by (simp_all add: l)
  show "is_finite (fit_slope l)" "is_finite (fit_intercept l)" using cond by (simp_all add: l)
  have "clamp_ok 0 1" "(0::f64) \<le> 1" by code_simp+
  then have "is_nan (fclamp 0 1 r) \<or> 0 \<le> fclamp 0 1 r \<and> fclamp 0 1 r \<le> 1" for r :: f64
    using fclamp_bounds [of 0 1 r] fclamp_nan [of r 0 1] by (cases "is_nan r") auto
  then show "is_nan (fit_r2 l) \<or> 0 \<le> fit_r2 l \<and> fit_r2 l \<le> 1"
    using \<open>(0::f64) \<le> 1\<close> by (simp add: l)
qed

section \<open>The steps of an observation\<close>

lemma push_pair_simps [simp]:
  "c_opts (push_pair ex sn s p c) = c_opts c"
  "c_devices (push_pair ex sn s p c) = c_devices c"
  "c_live (push_pair ex sn s p c) = c_live c"
  by (simp_all add: push_pair_def Let_def split: prod.split)

lemma fold_push_pair [simp]:
  "c_opts (fold (push_pair ex sn s) ps c) = c_opts c"
  "c_devices (fold (push_pair ex sn s) ps c) = c_devices c"
  "c_live (fold (push_pair ex sn s) ps c) = c_live c"
  by (induction ps arbitrary: c) simp_all

lemma update_peers_simps [simp]:
  "c_opts (update_peers ex sn s c) = c_opts c"
  "c_devices (update_peers ex sn s c) = c_devices c"
  "c_live (update_peers ex sn s c) = c_live c"
  by (simp_all add: update_peers_def)

lemma integrate_simps [simp]:
  "c_opts (integrate ex sn s c) = c_opts c"
  "c_pairs (integrate ex sn s c) = c_pairs c"
  "c_devices (integrate ex sn s c) =
     sput sn (integrate_device ex (c_opts c) (sentry live_default sn (c_live c)) s
       (sentry device_default sn (c_devices c))) (c_devices c)"
  by (simp_all add: integrate_def Let_def)

lemma recompute_simps [simp]:
  "c_opts (recompute sn c) = c_opts c"
  "c_pairs (recompute sn c) = c_pairs c"
  by (simp_all add: recompute_def Let_def split: option.split prod.split)

lemma closure_push_applied [simp]: "ds_applied (closure_push ex opts s h d) = ds_applied d"
  by (simp add: closure_push_def Let_def split: option.split)

lemma integrate_device_applied [simp]: "ds_applied (integrate_device ex opts l s d) = ds_applied d"
  by (simp add: integrate_device_def Let_def split: option.split)

text \<open>The device record and the pair fits that \<open>recompute\<close> sees inside \<open>observe\<close>.\<close>

definition observed_device :: "(f64 \<Rightarrow> f64) \<Rightarrow> string \<Rightarrow> sample \<Rightarrow> calibrator \<Rightarrow> device_state" where
  "observed_device ex sn s c =
     integrate_device ex (c_opts c) (sentry live_default sn (c_live c)) s
       (sentry device_default sn (c_devices c))"

lemma observed_device_applied [simp]:
  "ds_applied (observed_device ex sn s c) = ds_applied (sentry device_default sn (c_devices c))"
  by (simp add: observed_device_def)

lemma peer_reports_cong:
  assumes "skeys (c_devices c) = skeys (c_devices c')" "c_pairs c = c_pairs c'" "c_opts c = c_opts c'"
    and "\<And>k. map_option ds_fit (sget (c_devices c) k) = map_option ds_fit (sget (c_devices c') k)"
  shows "peer_reports sn e c = peer_reports sn e c'"
proof -
  have *: "Option.bind (sget (c_devices c) k) (\<lambda>d. ew_fit_line (ds_fit d)) =
      Option.bind (sget (c_devices c') k) (\<lambda>d. ew_fit_line (ds_fit d))" for k
    using assms(4) [of k] by (cases "sget (c_devices c) k"; cases "sget (c_devices c') k") auto
  then have "peer_report_of c sn own = peer_report_of c' sn own" for own
    by (intro ext) (simp only: peer_report_of_def assms(2,3) *)
  then show ?thesis by (cases e) (simp_all add: peer_reports_def assms)
qed

section \<open>Peer reports\<close>

lemma finite_minus_not_nan: "is_finite x \<Longrightarrow> \<not> is_nan y \<Longrightarrow> \<not> is_nan (x - y)"
  by transfer (auto split: fdata.splits elim!: fvalid.elims)

lemma is_finite_neg [simp]: "is_finite (- x) = is_finite x"
  by (simp add: is_finite_iff fkey_neg)

lemma peer_report_of_facts:
  assumes "peer_report_of c sn own other = Some p" and "is_finite own"
  shows "p_peer_sn p = other" "other \<noteq> sn" "0 \<le> p_disagreement p" "is_finite (p_relative_offset p)"
proof -
  obtain key flipped where k: "pair_key sn other = (key, flipped)" by fastforce
  obtain pfit f pf where p: "sget (c_pairs c) key = Some pfit" "ew_fit_line pfit = Some f"
      "Option.bind (sget (c_devices c) other) (\<lambda>d. ew_fit_line (ds_fit d)) = Some pf"
    and eq: "p = \<lparr> p_peer_sn = other,
        p_relative_offset = (if flipped then fit_intercept f else - fit_intercept f),
        p_slope = fit_slope f, p_r2 = fit_r2 f,
        p_disagreement = \<bar>(if flipped then fit_intercept f else - fit_intercept f)
          - (own - fit_slope pf)\<bar> \<rparr>"
    using assms(1) k
    by (auto simp: peer_report_of_def Let_def split: if_splits option.splits)
  have fin: "is_finite (fit_intercept f)" "is_finite (fit_slope pf)"
    using p ew_fit_line_finite by (auto simp: bind_eq_Some_conv)
  show "p_peer_sn p = other" "is_finite (p_relative_offset p)" using fin by (simp_all add: eq)
  show "other \<noteq> sn" using assms(1) by (auto simp: peer_report_of_def)
  have "\<not> is_nan (own - fit_slope pf)"
    using assms(2) fin by (intro finite_minus_not_nan is_finite_not_nan)
  then show "0 \<le> p_disagreement p"
    using fin by (auto simp: eq finite_minus_not_nan intro!: f64_abs_nonneg)
qed

lemma peer_reports_facts:
  assumes "p \<in> set (peer_reports sn (Some own) c)" and "is_finite own"
  shows "p_peer_sn p \<in> set (skeys (c_devices c))" "p_peer_sn p \<noteq> sn" "0 \<le> p_disagreement p"
  using assms peer_report_of_facts [OF _ assms(2)]
  by (auto simp: peer_reports_def List.map_filter_def)

lemma peer_reports_sns:
  assumes "is_finite own"
  shows "List.map p_peer_sn (peer_reports sn (Some own) c) =
    List.filter (\<lambda>k. peer_report_of c sn own k \<noteq> None) (skeys (c_devices c))"
proof -
  have "List.map p_peer_sn (List.map_filter (peer_report_of c sn own) ks) =
      List.filter (\<lambda>k. peer_report_of c sn own k \<noteq> None) ks" for ks
    by (induction ks) (auto simp: List.map_filter_simps peer_report_of_facts [OF _ assms] split: option.split)
  then show ?thesis by (simp add: peer_reports_def)
qed

lemma max_total_Some:
  assumes "max_total xs = Some m" and "\<forall>x\<in>set xs. \<not> is_nan x"
  shows "m \<in> set xs" "\<forall>x\<in>set xs. x \<le> m"
proof -
  have fold: "\<not> is_nan x \<Longrightarrow> \<forall>y\<in>set ys. \<not> is_nan y \<Longrightarrow>
      (let m = fold (\<lambda>y m. if ftotal_le m y then y else m) ys x
       in m \<in> insert x (set ys) \<and> (\<forall>y\<in>insert x (set ys). y \<le> m))" for x ys
  proof (induction ys arbitrary: x)
    case (Cons y ys)
    define z where "z = (if ftotal_le x y then y else x)"
    have z: "\<not> is_nan z" "x \<le> z" "y \<le> z" "z \<in> {x, y}"
      using Cons.prems by (auto simp: z_def ftotal_le_def f64_not_le f64_less_imp_le)
    then have "let m = fold (\<lambda>y m. if ftotal_le m y then y else m) ys z
       in m \<in> insert z (set ys) \<and> (\<forall>y\<in>insert z (set ys). y \<le> m)"
      using Cons.IH [of z] Cons.prems by simp
    then show ?case using z by (auto simp: Let_def z_def intro: f64_trans)
  qed simp
  obtain y ys where xs: "xs = y # ys" using assms(1) by (cases xs) (auto simp: max_total_def)
  show "m \<in> set xs" "\<forall>x\<in>set xs. x \<le> m"
    using fold [of y ys] assms xs by (simp_all add: max_total_def Let_def)
qed

lemma max_total_exceeds:
  assumes "\<forall>x\<in>set xs. \<not> is_nan x"
  shows "(case max_total xs of None \<Rightarrow> False | Some w \<Rightarrow> limit < w) \<longleftrightarrow> (\<exists>x\<in>set xs. limit < x)"
proof (cases "max_total xs")
  case None
  then show ?thesis by (auto simp: max_total_def split: list.splits)
next
  case (Some m)
  then show ?thesis
    using max_total_Some [OF Some assms] by (auto simp: f64_less_iff f64_le_iff)
qed

section \<open>The applied offset\<close>

text \<open>The offset the gates allow, read off a calibrator: \<open>None\<close> while any of them holds.\<close>

definition eligible_offset :: "calibrator \<Rightarrow> string \<Rightarrow> f64 option" where
  "eligible_offset c sn =
     (case sget (c_devices c) sn of None \<Rightarrow> None
      | Some dev \<Rightarrow> case ew_fit_line (ds_fit dev) of None \<Rightarrow> None
      | Some f \<Rightarrow>
        if \<not> ds_span_hours dev < o_min_span_hours (c_opts c)
           \<and> \<not> o_max_anchor_error_amperes (c_opts c) < anchor_error (ds_capacity_ah dev)
                (ds_span_hours dev) (o_tau_hours (c_opts c))
           \<and> \<not> o_max_stderr_amperes (c_opts c) < fit_stderr f
           \<and> (\<forall>p\<in>set (peer_reports sn (Some (fit_slope f)) c).
                \<not> o_peer_max_disagreement_amperes (c_opts c) < p_disagreement p)
        then Some (fclamp (- o_max_offset_amperes (c_opts c)) (o_max_offset_amperes (c_opts c))
               (fit_slope f))
        else None)"

definition device_slope :: "device_state \<Rightarrow> f64 option" where
  "device_slope dev = map_option fit_slope (ew_fit_line (ds_fit dev))"

abbreviation device_peers :: "calibrator \<Rightarrow> string \<Rightarrow> device_state \<Rightarrow> peer_report list" where
  "device_peers c sn dev \<equiv> peer_reports sn (device_slope dev) c"

lemma device_peers_disagreement:
  "p \<in> set (device_peers c sn dev) \<Longrightarrow> 0 \<le> p_disagreement p"
  by (cases "ew_fit_line (ds_fit dev)")
    (auto simp: device_slope_def peer_reports_def [of _ None] intro: peer_reports_facts ew_fit_line_finite)

lemma veto_gate:
  assumes "sget (c_devices c) sn = Some dev"
    and "veto (c_opts c) (ds_applied dev) (max_total (List.map p_disagreement (device_peers c sn dev)))
           (gate (c_opts c) dev) = (a, h)"
  shows "case eligible_offset c sn of None \<Rightarrow> a = ds_applied dev \<and> h \<noteq> HoldNone
    | Some off \<Rightarrow> a = off \<and> h = HoldNone"
proof -
  have "\<forall>x\<in>set (List.map p_disagreement (device_peers c sn dev)). \<not> is_nan x"
    using device_peers_disagreement by (fastforce simp: f64_le_iff)
  from max_total_exceeds [OF this]
  have v: "(case max_total (List.map p_disagreement (device_peers c sn dev)) of None \<Rightarrow> False
      | Some w \<Rightarrow> o_peer_max_disagreement_amperes (c_opts c) < w) =
      (\<exists>p\<in>set (device_peers c sn dev). o_peer_max_disagreement_amperes (c_opts c) < p_disagreement p)"
    by simp
  show ?thesis
  proof (cases "ew_fit_line (ds_fit dev)")
    case None
    then show ?thesis
      using assms by (auto simp: veto_def gate_def eligible_offset_def)
  next
    case (Some f)
    then have "device_slope dev = Some (fit_slope f)" by (simp add: device_slope_def)
    then show ?thesis
      using assms(2) v Some
      by (auto simp: veto_def gate_def eligible_offset_def assms(1) split: if_splits)
  qed
qed

lemma recompute_eq:
  assumes "sget (c_devices c) sn = Some dev"
    and "veto (c_opts c) (ds_applied dev) (max_total (List.map p_disagreement (device_peers c sn dev)))
           (gate (c_opts c) dev) = (a, h)"
  shows "recompute sn c = c\<lparr> c_state := (c_state c)\<lparr> st_devices :=
            sput sn (dev\<lparr> ds_applied := a \<rparr>) (c_devices c) \<rparr>,
          c_live := sput sn ((sentry live_default sn (c_live c))\<lparr> lv_hold := h,
            lv_peers := take (o_peer_max_published (c_opts c)) (device_peers c sn dev),
            lv_peer_disagreement := max_total (List.map p_disagreement (device_peers c sn dev))
            \<rparr>) (c_live c) \<rparr>"
  using assms by (simp add: recompute_def device_slope_def Let_def)

lemma peer_reports_recompute:
  assumes "sget (c_devices c) sn = Some dev" "smap_ok (c_devices c)"
  shows "peer_reports k e (recompute sn c) = peer_reports k e c"
proof -
  obtain a h where v: "veto (c_opts c) (ds_applied dev)
      (max_total (List.map p_disagreement (device_peers c sn dev))) (gate (c_opts c) dev) = (a, h)"
    by fastforce
  show ?thesis
    by (rule peer_reports_cong)
      (auto simp: recompute_eq [OF assms(1) v] skeys_sput_mem assms sget_Some_key sget_sput)
qed

lemma eligible_offset_recompute:
  assumes "sget (c_devices c) sn = Some dev" "smap_ok (c_devices c)"
  shows "eligible_offset (recompute sn c) sn = eligible_offset c sn"
proof -
  obtain a h where v: "veto (c_opts c) (ds_applied dev)
      (max_total (List.map p_disagreement (device_peers c sn dev))) (gate (c_opts c) dev) = (a, h)"
    by fastforce
  have "sget (c_devices (recompute sn c)) sn = Some (dev\<lparr> ds_applied := a \<rparr>)"
    by (simp add: recompute_eq [OF assms(1) v] sget_sput)
  then show ?thesis
    by (cases "ew_fit_line (ds_fit dev)")
      (simp_all add: eligible_offset_def assms peer_reports_recompute [OF assms])
qed

lemma observe_outcome:
  assumes "observe ex sn s c = (a, c')" and "smap_ok (c_devices c)"
  shows "sget (c_devices c') k = (if k = sn then Some (observed_device ex sn s c\<lparr> ds_applied := a \<rparr>)
        else sget (c_devices c) k)"
    and "c_opts c' = c_opts c"
    and "\<exists>h. sget (c_live c') sn = Some ((remember_sample s (sentry live_default sn (c_live c)))\<lparr>
        lv_hold := h, lv_peers := take (o_peer_max_published (c_opts c))
          (device_peers c' sn (observed_device ex sn s c)),
        lv_peer_disagreement := max_total (List.map p_disagreement
          (device_peers c' sn (observed_device ex sn s c))) \<rparr>)
      \<and> (case eligible_offset c' sn of
           None \<Rightarrow> a = ds_applied (sentry device_default sn (c_devices c)) \<and> h \<noteq> HoldNone
         | Some off \<Rightarrow> a = off \<and> h = HoldNone)"
    and "smap_ok (c_devices c')"
proof -
  let ?dev = "observed_device ex sn s c"
  define c2 where "c2 = update_peers ex sn s (integrate ex sn s c)"
  have c2: "c_devices c2 = sput sn ?dev (c_devices c)" "c_opts c2 = c_opts c"
    "c_live c2 = sput sn (remember_sample s (sentry live_default sn (c_live c))) (c_live c)"
    by (simp_all add: c2_def observed_device_def) (simp add: integrate_def Let_def)
  have look: "sget (c_devices c2) sn = Some ?dev" and ok: "smap_ok (c_devices c2)"
    using assms(2) by (simp_all add: c2 sget_sput smap_ok_sput)
  obtain a' h where v: "veto (c_opts c2) (ds_applied ?dev)
      (max_total (List.map p_disagreement (device_peers c2 sn ?dev))) (gate (c_opts c2) ?dev) = (a', h)"
    by fastforce
  note r = recompute_eq [OF look v]
  have c': "c' = recompute sn c2" and a: "a = a'"
    using assms(1) by (auto simp: observe_def Let_def r sget_sput simp flip: c2_def)
  have peers: "device_peers c' sn ?dev = device_peers c2 sn ?dev"
    unfolding c' by (rule peer_reports_recompute [OF look ok])
  show "sget (c_devices c') k = (if k = sn then Some (?dev\<lparr> ds_applied := a \<rparr>)
        else sget (c_devices c) k)"
    by (simp add: c' a r c2 sget_sput)
  show "c_opts c' = c_opts c" by (simp add: c' c2)
  show "smap_ok (c_devices c')" using ok by (simp add: c' r smap_ok_sput)
  show "\<exists>h. sget (c_live c') sn = Some ((remember_sample s (sentry live_default sn (c_live c)))\<lparr>
        lv_hold := h, lv_peers := take (o_peer_max_published (c_opts c)) (device_peers c' sn ?dev),
        lv_peer_disagreement := max_total (List.map p_disagreement (device_peers c' sn ?dev)) \<rparr>)
      \<and> (case eligible_offset c' sn of
           None \<Rightarrow> a = ds_applied (sentry device_default sn (c_devices c)) \<and> h \<noteq> HoldNone
         | Some off \<Rightarrow> a = off \<and> h = HoldNone)"
    using veto_gate [OF look v] unfolding observed_device_applied a peers
    by (intro exI [of _ h])
      (simp add: c' eligible_offset_recompute [OF look ok], simp add: r c2 sget_sput sentry_def)
qed

text \<open>The calibrators a process can hold: new, after any frames, reloaded from a snapshot.\<close>

inductive cal_reach :: "(f64 \<Rightarrow> f64) \<Rightarrow> options \<Rightarrow> calibrator \<Rightarrow> bool" for ex opts where
  cal_reach_new: "cal_reach ex opts (calibrator_new opts)"
| cal_reach_frame: "cal_reach ex opts c \<Longrightarrow> observe ex sn s c = (a, c') \<Longrightarrow> cal_reach ex opts c'"
| cal_reach_restart: "cal_reach ex opts c \<Longrightarrow>
    cal_reach ex opts (cal_restore (cal_snapshot c) admit (calibrator_new opts))"

definition offset_within :: "f64 \<Rightarrow> f64 \<Rightarrow> bool" where
  "offset_within cap a \<longleftrightarrow> - cap \<le> a \<and> a \<le> cap"

lemma offset_within_0: "0 \<le> cap \<Longrightarrow> offset_within cap 0"
  by (simp add: offset_within_def f64_le_iff fkey_neg)

lemma clamp_offset_within:
  "0 \<le> cap \<Longrightarrow> \<not> is_nan x \<Longrightarrow> offset_within cap (fclamp (- cap) cap x)"
proof -
  assume "0 \<le> cap" "\<not> is_nan x"
  then have "clamp_ok (- cap) cap" by (simp add: clamp_ok_def f64_le_iff fkey_neg)
  then show ?thesis using \<open>\<not> is_nan x\<close> by (simp add: offset_within_def fclamp_bounds)
qed

lemma eligible_offset_within:
  "eligible_offset c sn = Some a \<Longrightarrow> 0 \<le> o_max_offset_amperes (c_opts c) \<Longrightarrow>
   offset_within (o_max_offset_amperes (c_opts c)) a"
  by (auto simp: eligible_offset_def split: option.splits if_splits
      intro!: clamp_offset_within is_finite_not_nan ew_fit_line_finite)

lemma observe_offset_within:
  assumes "observe ex sn s c = (a, c')" "smap_ok (c_devices c)" "0 \<le> o_max_offset_amperes (c_opts c)"
    and "offset_within (o_max_offset_amperes (c_opts c)) (ds_applied (sentry device_default sn (c_devices c)))"
  shows "offset_within (o_max_offset_amperes (c_opts c)) a"
proof (cases "eligible_offset c' sn")
  case None
  then show ?thesis using observe_outcome(3) [OF assms(1,2)] assms(4) by auto
next
  case (Some off)
  then show ?thesis
    using observe_outcome(2,3) [OF assms(1,2)] eligible_offset_within [OF Some] assms(3) by auto
qed

lemma cal_reach_invariant:
  assumes "cal_reach ex opts c" and "0 \<le> o_max_offset_amperes opts"
  shows "c_opts c = opts \<and> smap_ok (c_devices c) \<and>
    (\<forall>sn d. sget (c_devices c) sn = Some d \<longrightarrow> offset_within (o_max_offset_amperes opts) (ds_applied d))"
  using assms(1)
proof induction
  case cal_reach_new
  then show ?case by (simp add: calibrator_new_def cal_state_default_def)
next
  case (cal_reach_frame c sn s a c')
  have "offset_within (o_max_offset_amperes opts) (ds_applied (sentry device_default sn (c_devices c)))"
    using cal_reach_frame.IH assms(2)
    by (cases "sget (c_devices c) sn") (auto simp: sentry_def device_default_def offset_within_0)
  then show ?case
    using cal_reach_frame.IH assms(2) observe_outcome(1,2,4) [OF cal_reach_frame.hyps(2)]
      observe_offset_within [OF cal_reach_frame.hyps(2)]
    by (auto split: if_splits)
next
  case (cal_reach_restart c admit)
  then show ?case
    by (auto simp: cal_restore_def cal_snapshot_def calibrator_new_def smap_ok_sfilter sget_sfilter
        split: if_splits)
qed

section \<open>Peer keys and the restored snapshot\<close>

lemma pair_key_swap: "a \<noteq> b \<Longrightarrow> fst (pair_key a b) = fst (pair_key b a) \<and> snd (pair_key a b) = (\<not> snd (pair_key b a))"
  by (auto simp: pair_key_def)

lemma bar_append_inject:
  "bar \<notin> set a \<Longrightarrow> bar \<notin> set c \<Longrightarrow> a @ bar # b = c @ bar # d \<longleftrightarrow> a = c \<and> b = d"
  by (induction a arbitrary: c) (case_tac c; auto)+

lemma split_on_none: "bar \<notin> set s \<Longrightarrow> split_on bar s = [s]"
  by (induction s) auto

lemma split_on_append: "bar \<notin> set a \<Longrightarrow> split_on bar (a @ bar # b) = a # split_on bar b"
  by (induction a) auto

lemma split_pair_key:
  assumes "CHR ''|'' \<notin> set a" "CHR ''|'' \<notin> set b"
  shows "set (split_on (CHR ''|'') (fst (pair_key a b))) = {a, b}"
  using assms by (auto simp: pair_key_def split_on_append split_on_none)

section \<open>Integrated time\<close>

lemma minus_nonpos: "x \<le> y \<Longrightarrow> \<not> 0 < x - (y :: f64)"
proof -
  have "fvalid x \<Longrightarrow> fvalid y \<Longrightarrow> fdata_le x y \<Longrightarrow>
     fdata_add x (fdata_neg y) = FNaN \<or> fdata_key (fdata_add x (fdata_neg y)) \<le> 0" for x y
    using fbound_pos(1) rnd_mono [of _ 0]
    by (cases x; cases y) (auto simp: fdata_key_pack fclip_def min_le_iff_disj simp del: fbound_pos)
  then have "x \<le> y \<Longrightarrow> is_nan (x - y) \<or> fkey (x - y) \<le> 0"
    by transfer
  then show "x \<le> y \<Longrightarrow> ?thesis" by (auto simp: f64_less_iff)
qed

section \<open>A concrete run\<close>

text \<open>
  Five hourly frames of one idle pack whose reported charge steps from 0 to its 40 Ah capacity
  half-way. The time constant is so long that the decay factor rounds to one, which is what
  \<open>demo_exp\<close> returns.
\<close>

definition demo_options :: options where
  "demo_options = options_default\<lparr> o_tau_hours := flit (2 ^ 60), o_min_span_hours := flit 2,
     o_max_anchor_error_amperes := flit 20, o_max_stderr_amperes := flit 20,
     o_max_gap_secs := flit 3600, o_max_offset_amperes := flit 12 \<rparr>"

definition demo_sample :: "int \<Rightarrow> rat \<Rightarrow> sample" where
  "demo_sample h q = \<lparr> s_current_a = 0, s_balance_a = None, s_remaining_ah = Some (flit q),
     s_capacity_ah = Some (flit 40), s_now_secs = f64_of_int (3600 * h) \<rparr>"

definition demo_exp :: "f64 \<Rightarrow> f64" where
  "demo_exp x = 1"

definition demo_device :: "rat \<Rightarrow> rat \<Rightarrow> rat \<Rightarrow> rat \<Rightarrow> rat \<Rightarrow> rat \<Rightarrow> rat \<Rightarrow> device_state" where
  "demo_device n sx sy sxx sxy syy a =
     \<lparr> ds_fit = \<lparr> ew_n = flit n, ew_sx = flit sx, ew_sy = flit sy, ew_sxx = flit sxx,
         ew_sxy = flit sxy, ew_syy = flit syy \<rparr>,
       ds_x = flit n, ds_span_hours = flit n, ds_cum_net_ah = 0, ds_cum_bal_ah = 0,
       ds_applied = flit a, ds_capacity_ah = flit 40 \<rparr>"

definition demo_calibrator :: "int \<Rightarrow> hold \<Rightarrow> device_state \<Rightarrow> calibrator" where
  "demo_calibrator h hold dev =
     \<lparr> c_opts = demo_options, c_state = \<lparr> st_devices = [(''a'', dev)], st_pairs = [] \<rparr>,
       c_live = [(''a'', \<lparr> lv_last_ts = Some (f64_of_int (3600 * h)), lv_last_current = Some 0,
         lv_last_balance = None, lv_last_raw = Some (f64_of_int (3600 * h), 0), lv_hold = hold,
         lv_peers = [], lv_peer_disagreement = None \<rparr>)],
       c_pair_live = [] \<rparr>"

definition demo0 :: calibrator where
  "demo0 = demo_calibrator 0 NoFit device_default"

definition demo2 :: calibrator where
  "demo2 = demo_calibrator 2 NoFit (demo_device 2 3 0 5 0 0 0)"

definition demo3 :: calibrator where
  "demo3 = demo_calibrator 3 HoldNone (demo_device 3 6 (- 40) 14 (- 120) 1600 (- 12))"

definition demo4 :: calibrator where
  "demo4 = demo_calibrator 4 HoldNone (demo_device 4 10 (- 80) 30 (- 280) 3200 (- 12))"

lemma demo0_step: "observe demo_exp ''a'' (demo_sample 0 0) (calibrator_new demo_options) = (0, demo0)"
  by code_simp

lemma demo2_step:
  "(let c = snd (observe demo_exp ''a'' (demo_sample 1 0) demo0)
    in observe demo_exp ''a'' (demo_sample 2 0) c) = (0, demo2)"
  by code_simp

lemma demo4_step: "observe demo_exp ''a'' (demo_sample 4 40) demo3 = (flit (- 12), demo4)"
  by code_simp

lemma demo3_step: "observe demo_exp ''a'' (demo_sample 3 40) demo2 = (flit (- 12), demo3)"
  by code_simp

lemma demo_reach: "cal_reach demo_exp demo_options demo4"
proof -
  define c1 where "c1 = snd (observe demo_exp ''a'' (demo_sample 1 0) demo0)"
  have s1: "observe demo_exp ''a'' (demo_sample 1 0) demo0 =
      (fst (observe demo_exp ''a'' (demo_sample 1 0) demo0), c1)"
    by (simp add: c1_def)
  have s2: "observe demo_exp ''a'' (demo_sample 2 0) c1 = (0, demo2)"
    using demo2_step by (simp add: c1_def)
  show ?thesis
    by (rule cal_reach_frame [OF cal_reach_frame [OF cal_reach_frame [OF cal_reach_frame
          [OF cal_reach_frame [OF cal_reach_new demo0_step] s1] s2] demo3_step] demo4_step])
qed

lemma demo_ok: "smap_ok (c_devices demo3)" "c_opts demo4 = demo_options" "c_opts demo3 = demo_options"
  by (simp_all add: demo3_def demo4_def demo_calibrator_def smap_ok_Cons)

lemma demo_lookup:
  "sget (c_devices demo4) ''a'' = Some (demo_device 4 10 (- 80) 30 (- 280) 3200 (- 12))"
  "sget (c_devices demo3) ''a'' = Some (demo_device 3 6 (- 40) 14 (- 120) 1600 (- 12))"
  by (simp_all add: demo3_def demo4_def demo_calibrator_def)

section \<open>Properties\<close>

text \<open>C30: The offset returned for a frame is exactly what the gates decide. When the fit exists,
  the integrated span has reached its minimum, the anchor bound and the standard error are within
  their limits and no qualifying peer, published or not, disagrees by more than the limit, it is
  the fitted slope clamped to the limit and the reason recorded is \<open>Hold::None\<close>. In every other
  case it is the offset applied before. No frame touches another device's state.\<close>

theorem offset_follows_gates:
  assumes "observe ex sn s c = (a, c')" and "smap_ok (c_devices c)"
  shows "a = (case eligible_offset c' sn of
           None \<Rightarrow> ds_applied (sentry device_default sn (c_devices c)) | Some off \<Rightarrow> off)
    \<and> map_option ds_applied (sget (c_devices c') sn) = Some a
    \<and> (case sget (c_live c') sn of None \<Rightarrow> False
        | Some l \<Rightarrow> (lv_hold l = HoldNone) = (eligible_offset c' sn \<noteq> None))
    \<and> sfilter (\<lambda>k. k \<noteq> sn) (c_devices c') = sfilter (\<lambda>k. k \<noteq> sn) (c_devices c)"
proof (intro conjI)
  note o = observe_outcome [OF assms]
  show "a = (case eligible_offset c' sn of
      None \<Rightarrow> ds_applied (sentry device_default sn (c_devices c)) | Some off \<Rightarrow> off)"
    using o(3) by (auto split: option.splits)
  show "map_option ds_applied (sget (c_devices c') sn) = Some a"
    by (simp add: o(1) [of sn])
  show "case sget (c_live c') sn of None \<Rightarrow> False
        | Some l \<Rightarrow> (lv_hold l = HoldNone) = (eligible_offset c' sn \<noteq> None)"
    using o(3) by (auto split: option.splits)
  show "sfilter (\<lambda>k. k \<noteq> sn) (c_devices c') = sfilter (\<lambda>k. k \<noteq> sn) (c_devices c)"
    by (rule smap_eqI) (simp_all add: smap_ok_sfilter assms(2) o(4) sget_sfilter o(1))
qed

lemma offset_follows_gates_witness:
  "eligible_offset demo4 ''a'' = Some (flit (- 12))"
proof -
  have "sfilter (\<lambda>k. k \<noteq> ''a'') (c_devices demo4) = sfilter (\<lambda>k. k \<noteq> ''a'') (c_devices demo3)
      \<and> (case sget (c_live demo4) ''a'' of None \<Rightarrow> False
        | Some l \<Rightarrow> (lv_hold l = HoldNone) = (eligible_offset demo4 ''a'' \<noteq> None))
      \<and> flit (- 12) = (case eligible_offset demo4 ''a'' of
           None \<Rightarrow> ds_applied (sentry device_default ''a'' (c_devices demo3)) | Some off \<Rightarrow> off)"
    using offset_follows_gates [OF demo4_step demo_ok(1)] by simp
  then show ?thesis
    by (auto simp: demo4_def demo_calibrator_def split: option.splits)
qed

text \<open>C31: In every calibrator a process can hold, after any sequence of frames of any devices and
  any reloads of its own snapshots, every applied offset lies within the configured limit.\<close>

theorem applied_offset_bounded:
  assumes "cal_reach ex opts c" and "0 \<le> o_max_offset_amperes opts"
    and "sget (c_devices c) sn = Some d"
  shows "- o_max_offset_amperes opts \<le> ds_applied d \<and> ds_applied d \<le> o_max_offset_amperes opts"
  using cal_reach_invariant [OF assms(1,2)] assms(3) by (auto simp: offset_within_def)

lemma applied_offset_bounded_witness:
  "- flit 12 \<le> ds_applied (demo_device 4 10 (- 80) 30 (- 280) 3200 (- 12))
   \<and> ds_applied (demo_device 4 10 (- 80) 30 (- 280) 3200 (- 12)) \<le> flit 12"
proof -
  have o: "o_max_offset_amperes demo_options = flit 12" by (simp add: demo_options_def)
  have "0 \<le> flit 12" by code_simp
  then show ?thesis
    using applied_offset_bounded [OF demo_reach _ demo_lookup(1)] by (simp add: o)
qed

end
