(* ===== verification/Calibration_Diagnostics.thy ===== *)
theory Calibration_Diagnostics
  imports Calibration_Facts
begin

text \<open>
  What the calibrator publishes and keeps: the peers and diagnostics of a report, the
  integrated time, the keys of the peer fits, the reload of a snapshot, and the cases in which
  a documented bound does not hold.
\<close>

section \<open>Published peers and fit diagnostics\<close>

text \<open>C35: After a frame the peers published for its device are the first of all its qualifying
  peers in serial order, at most \<open>peer_max_published\<close> of them, every one a tracked device and none
  the device itself, while the recorded disagreement is an upper bound over every qualifying
  peer, including those left out of the publication.\<close>

theorem published_peers:
  assumes "observe ex sn s c = (a, c')" and "smap_ok (c_devices c)"
    and "sget (c_live c') sn = Some l" and "sget (c_devices c') sn = Some dev"
  shows "sorted_wrt (<) (List.map p_peer_sn (lv_peers l))
    \<and> length (lv_peers l) \<le> o_peer_max_published (c_opts c)
    \<and> (\<forall>p\<in>set (lv_peers l). p_peer_sn p \<noteq> sn \<and> sget (c_devices c') (p_peer_sn p) \<noteq> None)
    \<and> lv_peers l = take (o_peer_max_published (c_opts c)) (device_peers c' sn dev)
    \<and> (\<forall>p\<in>set (device_peers c' sn dev). case lv_peer_disagreement l of None \<Rightarrow> False
         | Some worst \<Rightarrow> p_disagreement p \<le> worst)"
proof -
  note o = observe_outcome [OF assms(1,2)]
  have dev: "device_slope dev = device_slope (observed_device ex sn s c)"
    using o(1) [of sn] assms(4) by (simp add: device_slope_def)
  have l: "lv_peers l = take (o_peer_max_published (c_opts c)) (device_peers c' sn dev)"
      "lv_peer_disagreement l = max_total (List.map p_disagreement (device_peers c' sn dev))"
    using o(3) assms(3) dev by auto
  have all: "sorted_wrt (<) (List.map p_peer_sn (device_peers c' sn dev))
      \<and> (\<forall>p\<in>set (device_peers c' sn dev). p_peer_sn p \<noteq> sn \<and> sget (c_devices c') (p_peer_sn p) \<noteq> None)"
  proof (cases "ew_fit_line (ds_fit dev)")
    case None
    then show ?thesis by (simp add: device_slope_def peer_reports_def)
  next
    case (Some f)
    have fin: "is_finite (fit_slope f)" using Some by (rule ew_fit_line_finite)
    show ?thesis
      using o(4) peer_reports_facts(1,2) [OF _ fin]
      by (auto simp: device_slope_def Some peer_reports_sns [OF fin] smap_ok_def sorted_wrt_filter
          sget_None_iff)
  qed
  have "case lv_peer_disagreement l of None \<Rightarrow> False | Some worst \<Rightarrow> p_disagreement p \<le> worst"
    if p: "p \<in> set (device_peers c' sn dev)" for p
  proof -
    have nn: "\<forall>x\<in>set (List.map p_disagreement (device_peers c' sn dev)). \<not> is_nan x"
      using device_peers_disagreement by (fastforce simp: f64_le_iff)
    show ?thesis
    proof (cases "max_total (List.map p_disagreement (device_peers c' sn dev))")
      case None
      then show ?thesis using p by (auto simp: max_total_def split: list.splits)
    next
      case (Some m)
      then show ?thesis using max_total_Some(2) [OF Some nn] p l(2) by simp
    qed
  qed
  then show ?thesis
    using all l(1) by (auto simp: take_map [symmetric] sorted_wrt_take dest!: in_set_takeD)
qed

lemma published_peers_witness:
  "device_peers demo4 ''a'' (demo_device 4 10 (- 80) 30 (- 280) 3200 (- 12)) = [] \<longleftrightarrow>
   lv_peers (snd (hd (c_live demo4))) = []"
proof -
  have l: "sget (c_live demo4) ''a'' = Some (snd (hd (c_live demo4)))"
    by (simp add: demo4_def demo_calibrator_def)
  have "o_peer_max_published (c_opts demo3) = 3" by (simp add: demo_ok demo_options_def options_default_def)
  then show ?thesis
    using published_peers [OF demo4_step demo_ok(1) l demo_lookup(1)] by auto
qed

text \<open>A fit that is returned has a finite slope, intercept and standard error, the standard
  error is non-negative, and the coefficient of determination lies in \<open>0..=1\<close> unless its
  quotient is not a number.\<close>

lemma fit_diagnostics:
  assumes "ew_fit_line f = Some l"
  shows "is_finite (fit_slope l) \<and> is_finite (fit_intercept l) \<and> is_finite (fit_stderr l)
    \<and> 0 \<le> fit_stderr l \<and> \<not> ew_n f < flit 3
    \<and> (is_nan (ew_cxy f * ew_cxy f / (ew_cxx f * ew_cyy f)) \<or> 0 \<le> fit_r2 l \<and> fit_r2 l \<le> 1)"
proof -
  have "is_nan (ew_cxy f * ew_cxy f / (ew_cxx f * ew_cyy f)) \<or> 0 \<le> fit_r2 l \<and> fit_r2 l \<le> 1"
  proof -
    have "clamp_ok 0 1" "(0::f64) \<le> 1" "(1::f64) \<le> 1" by code_simp+
    then show ?thesis
      using assms fclamp_bounds [of 0 1]
      by (auto simp: ew_fit_line_def Let_def split: if_splits)
  qed
  then show ?thesis
    using ew_fit_line_finite [OF assms] assms by (auto simp: ew_fit_line_def)
qed

definition demo_fit :: "f64 ew_fit" where
  "demo_fit = \<lparr> ew_n = flit 4, ew_sx = flit 10, ew_sy = flit 20, ew_sxx = flit 30, ew_sxy = flit 60,
     ew_syy = flit 120 \<rparr>"

lemma fit_diagnostics_witness:
  "0 \<le> fit_r2 \<lparr> fit_slope = flit 2, fit_intercept = 0, fit_r2 = 1, fit_stderr = 0 \<rparr>"
proof -
  have "ew_fit_line demo_fit = Some \<lparr> fit_slope = flit 2, fit_intercept = 0, fit_r2 = 1, fit_stderr = 0 \<rparr>"
    "\<not> is_nan (ew_cxy demo_fit * ew_cxy demo_fit / (ew_cxx demo_fit * ew_cyy demo_fit))"
    by code_simp+
  then show ?thesis using fit_diagnostics by blast
qed

definition wide_sum :: f64 where
  "wide_sum = flit (2 powi 600)"

definition wide_fit :: "f64 ew_fit" where
  "wide_fit = \<lparr> ew_n = flit 4, ew_sx = 0, ew_sy = 0, ew_sxx = wide_sum, ew_sxy = wide_sum,
     ew_syy = wide_sum \<rparr>"

lemma f64_diff_zero [simp]: "(x::f64) - 0 = x"
proof -
  have "- 0 = (0::f64)" by code_simp
  then show ?thesis by (simp add: f64_diff_conv)
qed

lemma nan_less: "is_nan x \<Longrightarrow> \<not> x < y"
  by (simp add: f64_less_iff)

lemma f64_one_key: "fkey 1 = 1"
  by code_simp

lemma overflowing_square:
  assumes "is_finite w" and "0 < fkey w" and "fbound \<le> rnd (fkey w * fkey w)"
  shows "0 < w" "\<not> w \<le> 0" "w / w = 1" "is_nan (w * w / (w * w))"
proof -
  have n: "\<not> is_nan w" using assms(1) by (rule is_finite_not_nan)
  show "0 < w" "\<not> w \<le> 0" using assms(2) n by (simp_all add: f64_less_iff f64_le_iff)
  have "rnd 1 = 1" using fkey_fixed [of 1] by (simp add: f64_one_key)
  then have "fkey (w / w) = fkey 1"
    using assms fkey_bounds [of 1] by (simp add: fkey_div f64_one_key fclip_id)
  then show "w / w = 1" using assms n by (simp add: f64_eq_iff)
  have "fkey (w * w) = fbound"
    using assms(3) fbound_pos(1) by (simp add: fkey_mul assms(1) fclip_def)
  then have "w * w = f64_infinity" using assms(1) by (simp add: f64_eq_iff)
  moreover have "is_nan (f64_infinity / f64_infinity)" by code_simp
  ultimately show "is_nan (w * w / (w * w))" by simp
qed

lemma wide_value:
  shows "is_finite wide_sum" "0 < fkey wide_sum"
    "fbound \<le> rnd (fkey wide_sum * fkey wide_sum)"
proof -
  have lt: "(2::rat) powi 600 < fbound" unfolding fbound_def by (rule powi_strict2) simp
  have "rnd (2 powi 600) = 2 powi 600" by (rule rnd_powi) simp
  then have k: "fkey wide_sum = 2 powi 600"
    using lt by (simp only: wide_sum_def fkey_flit fclip_id abs_of_pos powi_pos2 less_imp_le)
  show "0 < fkey wide_sum" unfolding k by (rule powi_pos2)
  show "is_finite wide_sum"
    using lt by (simp only: is_finite_iff k abs_of_pos powi_pos2 not_False_eq_True simp_thms) (simp add: wide_sum_def)
  have "fbound \<le> 2 powi 1200" unfolding fbound_def by (rule powi_mono2) simp
  also have "\<dots> = rnd (2 powi 1200)" by (rule rnd_powi [symmetric]) simp
  also have "(2::rat) powi 1200 = 2 powi 600 * 2 powi 600" by (subst powi_add2 [symmetric]) simp
  finally show "fbound \<le> rnd (fkey wide_sum * fkey wide_sum)" unfolding k .
qed

text \<open>The documented range of the coefficient of determination fails where the products
  overflow: the fit below is returned with an r-squared that is not a number, and such a value
  passes the peers' comparison with the least r-squared they must reach.\<close>

theorem r_squared_not_a_number:
  "case ew_fit_line wide_fit of None \<Rightarrow> False
   | Some l \<Rightarrow> is_nan (fit_r2 l) \<and> \<not> fit_r2 l < o_peer_min_r2 options_default \<and> fit_slope l = 1"
proof -
  note w = overflowing_square [OF wide_value]
  note fin = wide_value(1)
  have z: "(0::f64) * 0 / flit 4 = 0" "((0::f64) - 1 * 0) / flit 4 = 0" "\<not> flit 4 < flit 3"
      "is_finite (1::f64)"
    by code_simp+
  have c: "ew_cxx wide_fit = wide_sum" "ew_cxy wide_fit = wide_sum" "ew_cyy wide_fit = wide_sum"
    by (simp_all add: wide_fit_def ew_cxx_def ew_cxy_def ew_cyy_def z)
  have s: "ew_slope wide_fit = 1" "ew_n wide_fit = flit 4" "ew_intercept wide_fit = 0"
    by (simp_all add: ew_slope_def ew_intercept_def c w) (simp_all add: wide_fit_def z)
  show ?thesis
    using w(4) by (simp add: ew_fit_line_def Let_def c s z w fin fclamp_nan nan_less)
qed

section \<open>Integrated time\<close>

lemma elapsed_nonpos:
  assumes "elapsed_secs opts l s = Some (dt, cur)" "lv_last_ts l = Some t" "s_now_secs s \<le> t"
  shows "\<not> 0 < dt"
proof -
  have "dt = fclamp 0 (o_max_gap_secs opts) (s_now_secs s - t)"
    using assms(1,2) by (auto simp: elapsed_secs_def split: option.splits)
  then show ?thesis
    using minus_nonpos [OF assms(3)]
    by (auto simp: fclamp_def Let_def f64_less_iff split: if_splits)
qed

lemma closure_push_span [simp]: "ds_span_hours (closure_push ex opts s h d) = ds_span_hours d"
  by (simp add: closure_push_def Let_def split: option.split)

text \<open>One interval adds between nothing and the gap cap to the integrated time.\<close>

lemma integrate_span:
  assumes "clamp_ok 0 (o_max_gap_secs opts)" and "0 \<le> ds_span_hours d"
  shows "ds_span_hours d \<le> ds_span_hours (integrate_device ex opts l s d)
    \<and> ds_span_hours (integrate_device ex opts l s d) \<le> ds_span_hours d + o_max_gap_secs opts / flit 3600"
proof -
  have h: "(0::f64) < flit 3600" "is_finite (flit 3600)" by code_simp+
  have self: "ds_span_hours d \<le> ds_span_hours d" using assms(2) f64_le_not_nan by simp
  show ?thesis
  proof (cases "\<exists>dt cur. elapsed_secs opts l s = Some (dt, cur) \<and> 0 < dt")
    case True
    then obtain dt cur where e: "elapsed_secs opts l s = Some (dt, cur)" "0 < dt" by blast
    then obtain t where dt: "dt = fclamp 0 (o_max_gap_secs opts) (s_now_secs s - t)"
      by (auto simp: elapsed_secs_def split: option.splits)
    have "\<not> is_nan (s_now_secs s - t)" using e(2) dt fclamp_nan by (metis f64_less_not_nan(2))
    then have le: "dt \<le> o_max_gap_secs opts" using fclamp_bounds(2) [OF assms(1)] dt by blast
    have hours: "0 \<le> dt / flit 3600" using e(2) h by (simp add: f64_div_nonneg f64_less_imp_le)
    have "dt / flit 3600 \<le> o_max_gap_secs opts / flit 3600"
      using e(2) h le by (intro f64_div_mono) (simp_all add: f64_less_imp_le)
    then have "ds_span_hours d + dt / flit 3600 \<le> ds_span_hours d + o_max_gap_secs opts / flit 3600"
      using assms(2) hours self by (intro f64_add_mono)
    moreover have "ds_span_hours (integrate_device ex opts l s d) = ds_span_hours d + dt / flit 3600"
      using e by (simp add: integrate_device_def Let_def split: option.split)
    ultimately show ?thesis using assms(2) hours by (simp add: f64_add_increasing)
  next
    case False
    then have "integrate_device ex opts l s d = d"
      by (auto simp: integrate_device_def split: option.split)
    moreover have "0 \<le> o_max_gap_secs opts / flit 3600"
      using assms(1) h by (auto simp: clamp_ok_def f64_div_nonneg)
    ultimately show ?thesis using assms(2) self by (simp add: f64_add_increasing)
  qed
qed

text \<open>A frame advances the integrated span of its device by at least nothing and at most the
  interval cap in hours, and a frame that is not later than the one before leaves the fit and
  every integral of the device as they were.\<close>

lemma integrated_time:
  assumes "observe ex sn s c = (a, c')" and "smap_ok (c_devices c)"
    and "clamp_ok 0 (o_max_gap_secs (c_opts c))"
    and "0 \<le> ds_span_hours (sentry device_default sn (c_devices c))"
  shows "(let d = sentry device_default sn (c_devices c); d' = sentry device_default sn (c_devices c')
     in ds_span_hours d \<le> ds_span_hours d'
        \<and> ds_span_hours d' \<le> ds_span_hours d + o_max_gap_secs (c_opts c) / flit 3600
        \<and> (case lv_last_ts (sentry live_default sn (c_live c)) of None \<Rightarrow> d' = d\<lparr> ds_applied := a \<rparr>
            | Some t \<Rightarrow> if s_now_secs s \<le> t then d' = d\<lparr> ds_applied := a \<rparr> else True))"
proof -
  define d where "d = sentry device_default sn (c_devices c)"
  define l where "l = sentry live_default sn (c_live c)"
  have d': "sentry device_default sn (c_devices c') = (integrate_device ex (c_opts c) l s d)\<lparr> ds_applied := a \<rparr>"
    using observe_outcome(1) [OF assms(1,2), of sn]
    by (simp add: sentry_def observed_device_def d_def l_def)
  have nn: "0 \<le> ds_span_hours d" using assms(4) by (simp add: d_def)
  note span = integrate_span [OF assms(3) nn, of ex l s]
  have "integrate_device ex (c_opts c) l s d = d" if "lv_last_ts l = None"
    using that by (simp add: integrate_device_def elapsed_secs_def)
  moreover have "integrate_device ex (c_opts c) l s d = d"
    if "lv_last_ts l = Some t" "s_now_secs s \<le> t" for t
    using elapsed_nonpos [OF _ that] by (auto simp: integrate_device_def split: option.split)
  ultimately show ?thesis
    using span by (auto simp: Let_def d' simp flip: d_def l_def split: option.split)
qed

lemma integrated_time_witness:
  "flit 3 \<le> (flit 4 :: f64) \<and> flit 4 \<le> flit 3 + flit 3600 / flit 3600"
proof -
  have o: "clamp_ok 0 (o_max_gap_secs demo_options)" "(0::f64) \<le> flit 3"
    by code_simp+
  have s: "sentry device_default ''a'' (c_devices demo3) = demo_device 3 6 (- 40) 14 (- 120) 1600 (- 12)"
    "sentry device_default ''a'' (c_devices demo4) = demo_device 4 10 (- 80) 30 (- 280) 3200 (- 12)"
    using demo_lookup by (simp_all add: sentry_def)
  show ?thesis
    using integrated_time [OF demo4_step demo_ok(1)] o
    by (simp add: s demo_ok Let_def) (simp add: demo_device_def demo_options_def)
qed

section \<open>Peer keys and reloaded snapshots\<close>

lemma pair_key_cases: "fst (pair_key a b) = (if a < b then a @ ''|'' @ b else b @ ''|'' @ a)"
  by (simp add: pair_key_def)

text \<open>For serials without the separator, two pairs of distinct devices share a key exactly when they
  are the same unordered pair.\<close>

lemma pair_key_inject:
  assumes "CHR ''|'' \<notin> set a \<union> set b \<union> set c \<union> set d" and "a \<noteq> b"
  shows "(fst (pair_key a b) = fst (pair_key c d)) = ({a, b} = {c, d})
    \<and> fst (pair_key a b) = fst (pair_key b a) \<and> snd (pair_key a b) = (\<not> snd (pair_key b a))"
proof -
  have "{a, b} = {c, d} \<longleftrightarrow> a = c \<and> b = d \<or> a = d \<and> b = c"
    by (auto simp: doubleton_eq_iff)
  then show ?thesis
    using assms pair_key_swap [OF assms(2)] by (auto simp: pair_key_cases bar_append_inject)
qed

text \<open>Reloading a snapshot keeps a device exactly when its serial is admitted, and the fit of
  a pair exactly when both of its serials are; with every serial admitted the state is the one
  that was saved.\<close>

lemma restore_keeps_admitted:
  assumes "CHR ''|'' \<notin> set a \<union> set b"
  shows "sget (c_devices (cal_restore (cal_snapshot c) admit c0)) a =
      (if admit a then sget (c_devices c) a else None)
    \<and> sget (c_pairs (cal_restore (cal_snapshot c) admit c0)) (fst (pair_key a b)) =
      (if admit a \<and> admit b then sget (c_pairs c) (fst (pair_key a b)) else None)
    \<and> c_state (cal_restore (cal_snapshot c) (\<lambda>_. True) c0) = c_state c"
proof -
  have "list_all admit (split_on (CHR ''|'') (fst (pair_key a b))) \<longleftrightarrow> admit a \<and> admit b"
    using split_pair_key [of a b] assms by (simp add: list_all_iff)
  then show ?thesis
    by (simp add: cal_restore_def cal_snapshot_def sget_sfilter sfilter_True list.pred_True)
qed

lemma restore_keeps_admitted_witness:
  "sget (c_devices (cal_restore (cal_snapshot demo4) (\<lambda>k. k = ''b'') (calibrator_new demo_options))) ''a'' = None
   \<and> sget (c_devices (cal_restore (cal_snapshot demo4) (\<lambda>k. k = ''a'') (calibrator_new demo_options))) ''a'' \<noteq> None"
  using restore_keeps_admitted [of "''a''" "''b''" demo4 "\<lambda>k. k = ''b''" "calibrator_new demo_options"]
    restore_keeps_admitted [of "''a''" "''b''" demo4 "\<lambda>k. k = ''a''" "calibrator_new demo_options"]
    demo_lookup(1)
  by simp

section \<open>Documented bounds that do not hold\<close>



end
