(* ===== verification/Config_Facts.thy ===== *)
theory Config_Facts
  imports Config Decode_Facts Metrics_Facts Calibration_Diagnostics
begin

text \<open>
  What the configuration guarantees to the rest of the program: after the substitutions every
  knob is in range and no change is silent, the integrator and the estimator never see a knob
  that makes them panic or run backwards, an accepted serial is safe as a label and as a part of
  a pair key, and the default plausibility gate is a window of raw register values.
\<close>

section \<open>Valid configurations\<close>

definition config_valid :: "config \<Rightarrow> bool" where
  "config_valid c \<longleftrightarrow>
     interval_in_range (coulomb_state_min_interval_secs c)
     \<and> 0 < max_plausible_current_amperes c
     \<and> min_plausible_pack_volts c < max_plausible_pack_volts c
     \<and> 0 < max_frame_amp_hours c \<and> 0 < max_frame_watt_hours c
     \<and> 0 < calibration_tau_hours c \<and> 0 \<le> calibration_min_span_hours c
     \<and> 0 \<le> calibration_max_offset_amperes c \<and> 0 \<le> calibration_max_anchor_error_amperes c
     \<and> 0 < calibration_peer_max_disagreement_amperes c"

fun advice :: "warning \<Rightarrow> bool" where
  "advice Low_frame_ah = True"
| "advice Low_frame_wh = True"
| "advice Span_exceeds_tau = True"
| "advice _ = False"

lemma not_positive_iff: "not_positive v \<longleftrightarrow> \<not> 0 < v"
  by (auto simp: not_positive_def f64_le_iff f64_less_iff)

lemma negative_iff: "negative v \<longleftrightarrow> \<not> 0 \<le> v"
  by (auto simp: negative_def f64_le_iff f64_less_iff)

lemma window_iff: "is_nan a \<or> is_nan b \<or> b \<le> a \<longleftrightarrow> \<not> a < (b :: f64)"
  by (auto simp: f64_le_iff f64_less_iff)

text \<open>A guarded update of a field as an update with a guarded value, so that the chain of
  substitutions is one record expression.\<close>

lemma guarded_updates:
  "(if b then c\<lparr> coulomb_state_min_interval_secs := n \<rparr> else c) =
     c\<lparr> coulomb_state_min_interval_secs := if b then n else coulomb_state_min_interval_secs c \<rparr>"
  "(if b then c\<lparr> max_plausible_current_amperes := v \<rparr> else c) =
     c\<lparr> max_plausible_current_amperes := if b then v else max_plausible_current_amperes c \<rparr>"
  "(if b then c\<lparr> min_plausible_pack_volts := v, max_plausible_pack_volts := w \<rparr> else c) =
     c\<lparr> min_plausible_pack_volts := if b then v else min_plausible_pack_volts c,
        max_plausible_pack_volts := if b then w else max_plausible_pack_volts c \<rparr>"
  "(if b then c\<lparr> max_frame_amp_hours := v \<rparr> else c) =
     c\<lparr> max_frame_amp_hours := if b then v else max_frame_amp_hours c \<rparr>"
  "(if b then c\<lparr> max_frame_watt_hours := v \<rparr> else c) =
     c\<lparr> max_frame_watt_hours := if b then v else max_frame_watt_hours c \<rparr>"
  "(if b then c\<lparr> calibration_tau_hours := v \<rparr> else c) =
     c\<lparr> calibration_tau_hours := if b then v else calibration_tau_hours c \<rparr>"
  "(if b then c\<lparr> calibration_min_span_hours := v \<rparr> else c) =
     c\<lparr> calibration_min_span_hours := if b then v else calibration_min_span_hours c \<rparr>"
  "(if b then c\<lparr> calibration_max_offset_amperes := v \<rparr> else c) =
     c\<lparr> calibration_max_offset_amperes := if b then v else calibration_max_offset_amperes c \<rparr>"
  "(if b then c\<lparr> calibration_max_anchor_error_amperes := v \<rparr> else c) =
     c\<lparr> calibration_max_anchor_error_amperes := if b then v else calibration_max_anchor_error_amperes c \<rparr>"
  "(if b then c\<lparr> calibration_peer_max_disagreement_amperes := v \<rparr> else c) =
     c\<lparr> calibration_peer_max_disagreement_amperes :=
          if b then v else calibration_peer_max_disagreement_amperes c \<rparr>"
  by simp_all

definition config_or_default :: "config \<Rightarrow> config" where
  "config_or_default c = c\<lparr>
     coulomb_state_min_interval_secs :=
       if interval_in_range (coulomb_state_min_interval_secs c)
       then coulomb_state_min_interval_secs c else 5,
     max_plausible_current_amperes :=
       if 0 < max_plausible_current_amperes c then max_plausible_current_amperes c else flit 100,
     min_plausible_pack_volts :=
       if min_plausible_pack_volts c < max_plausible_pack_volts c then min_plausible_pack_volts c else flit 18,
     max_plausible_pack_volts :=
       if min_plausible_pack_volts c < max_plausible_pack_volts c then max_plausible_pack_volts c else flit 34,
     max_frame_amp_hours := if 0 < max_frame_amp_hours c then max_frame_amp_hours c else flit 25,
     max_frame_watt_hours := if 0 < max_frame_watt_hours c then max_frame_watt_hours c else flit 900,
     calibration_tau_hours := if 0 < calibration_tau_hours c then calibration_tau_hours c else flit 1440,
     calibration_min_span_hours :=
       if 0 \<le> calibration_min_span_hours c then calibration_min_span_hours c else flit 168,
     calibration_max_offset_amperes :=
       if 0 \<le> calibration_max_offset_amperes c then calibration_max_offset_amperes c else flit (5 / 10),
     calibration_max_anchor_error_amperes :=
       if 0 \<le> calibration_max_anchor_error_amperes c then calibration_max_anchor_error_amperes c
       else flit (5 / 100),
     calibration_peer_max_disagreement_amperes :=
       if 0 < calibration_peer_max_disagreement_amperes c then calibration_peer_max_disagreement_amperes c
       else flit (25 / 100) \<rparr>"

lemma check_pair: "check bad w g (ws, c) = (ws @ (if bad c then [w] else []), if bad c then g c else c)"
  and advise_pair: "advise bad w (ws, c) = (ws @ (if bad c then [w] else []), c)"
  by (simp_all add: check_def advise_def)

lemma list_all_warn:
  "list_all advice (if b then [w] else []) = (\<not> b \<or> advice w)"
  "list_all advice (if b then [] else [w]) = (b \<or> advice w)"
  by simp_all

lemmas range_tests = not_positive_iff negative_iff window_iff

lemma if_flip: "(if \<not> b then x else y) = (if b then y else x)"
  by simp

lemma config_default_simps:
  "coulomb_state_min_interval_secs config_default = 5"
  "max_plausible_current_amperes config_default = flit 100"
  "min_plausible_pack_volts config_default = flit 18"
  "max_plausible_pack_volts config_default = flit 34"
  "max_frame_amp_hours config_default = flit 25"
  "max_frame_watt_hours config_default = flit 900"
  "calibration_tau_hours config_default = flit 1440"
  "calibration_min_span_hours config_default = flit 168"
  "calibration_max_offset_amperes config_default = flit (5 / 10)"
  "calibration_max_anchor_error_amperes config_default = flit (5 / 100)"
  "calibration_peer_max_disagreement_amperes config_default = flit (25 / 100)"
  by (simp_all add: config_default_def)

lemma reset_config: "snd (reset_out_of_range_to_defaults c) = config_or_default c"
  by (simp add: reset_out_of_range_to_defaults_def reset_calibration_out_of_range_def Let_def
      check_pair advise_pair guarded_updates config_or_default_def config_default_simps range_tests
      if_flip split del: if_split cong: if_cong)

lemma reset_silent: "list_all advice (fst (reset_out_of_range_to_defaults c)) = config_valid c"
  by (simp add: reset_out_of_range_to_defaults_def reset_calibration_out_of_range_def Let_def
      check_pair advise_pair guarded_updates config_default_simps range_tests list_all_warn
      if_flip config_valid_def conj_ac split del: if_split)

lemma default_literals:
  "0 < flit 100" "flit 18 < flit 34" "0 < flit 25" "0 < flit 900" "0 < flit 1440" "0 \<le> flit 168"
  "0 \<le> flit (5 / 10)" "0 \<le> flit (5 / 100)" "0 < flit (25 / 100)"
  by code_simp+

lemma config_or_default_valid: "config_valid (config_or_default c)"
  using default_literals by (auto simp: config_valid_def config_or_default_def interval_in_range_def)

lemma config_or_default_id: "config_valid c \<Longrightarrow> config_or_default c = c"
  by (simp add: config_valid_def config_or_default_def)

text \<open>C20: Startup leaves no knob out of range and changes none silently: after the substitutions
  every value is in its documented range, running them again changes nothing, a configuration is
  changed exactly when a substitution was logged, and that is exactly when some value was out of
  range, NaN included.\<close>

theorem reset_repairs_config:
  "config_valid (snd (reset_out_of_range_to_defaults c))
   \<and> snd (reset_out_of_range_to_defaults (snd (reset_out_of_range_to_defaults c))) =
       snd (reset_out_of_range_to_defaults c)
   \<and> list_all advice (fst (reset_out_of_range_to_defaults c)) =
       (snd (reset_out_of_range_to_defaults c) = c)
   \<and> list_all advice (fst (reset_out_of_range_to_defaults c)) = config_valid c"
  unfolding reset_config reset_silent
  using config_or_default_valid [of c] config_or_default_id by metis

section \<open>Knobs of the integrator and the estimator\<close>

lemma of_nat_nonneg: "0 \<le> f64_of_nat n"
  using rnd_nonneg [of "of_nat n"] by (simp add: f64_of_nat_def f64_le_iff fkey_flit fclip_def le_max_iff_disj)

text \<open>C21: Whatever the file says, the exporter starts with knobs its arithmetic can rely on: the caps
  of a frame are positive, the write interval is between a second and an hour, the estimator's
  clamps have ordered bounds (so \<open>clamp\<close> cannot panic), its time constant is positive and it
  integrates over the same gap as the counters.\<close>

theorem started_knobs_safe:
  "let opts = metrics_options_of (snd (reset_out_of_range_to_defaults c)); cal = mo_calibration opts
   in 0 < mo_max_frame_amp_hours opts \<and> 0 < mo_max_frame_watt_hours opts
     \<and> secs_to_nanos 1 \<le> mo_state_min_interval opts \<and> mo_state_min_interval opts \<le> secs_to_nanos 3600
     \<and> clamp_ok 0 (o_max_gap_secs cal)
     \<and> clamp_ok (- o_max_offset_amperes cal) (o_max_offset_amperes cal)
     \<and> 0 < o_tau_hours cal \<and> o_max_gap_secs cal = mo_coulomb_max_gap_secs opts"
proof -
  have v: "config_valid (snd (reset_out_of_range_to_defaults c))"
    unfolding reset_config by (rule config_or_default_valid)
  have sym: "0 \<le> x \<Longrightarrow> - x \<le> x" for x :: f64
    by (auto simp: f64_le_iff fkey_neg)
  show ?thesis
    using v of_nat_nonneg sym
    by (simp add: Let_def metrics_options_of_def config_valid_def clamp_ok_def secs_to_nanos_def
        interval_in_range_def)
qed

lemma default_options: "metrics_options_of config_default = metrics_options_default"
  by (simp add: metrics_options_of_def config_default_def metrics_options_default_def options_default_def
      f64_of_nat_def)

section \<open>The default gate\<close>

lemma gate_literals: "amps 31000 = flit 100" "amps 29000 = flit (- 100)" "deci 180 = flit 18"
  "deci 340 = flit 34" "- flit 100 = flit (- 100)"
  by code_simp+

lemma abs_exceeds: "is_finite x \<Longrightarrow> flit 100 < \<bar>x\<bar> \<longleftrightarrow> flit 100 < x \<or> x < flit (- 100)"
proof -
  have "fkey (flit (- 100)) = - fkey (flit 100)" unfolding gate_literals(5) [symmetric] by (rule fkey_neg)
  then show "is_finite x \<Longrightarrow> ?thesis"
    by (auto simp: f64_less_iff fkey_abs is_finite_not_nan abs_if)
qed

lemma mono_less_iff:
  fixes conv :: "u16 \<Rightarrow> f64"
  assumes "\<And>a b. a < b \<Longrightarrow> conv a < conv b"
  shows "conv a < conv b \<longleftrightarrow> a < b"
  using assms [of a b] assms [of b a] by (metis f64_irrefl f64_le_less_trans f64_less_imp_le linorder_neqE)

lemma amps_less_iff: "amps a < amps b \<longleftrightarrow> a < b"
  and deci_less_iff: "deci a < deci b \<longleftrightarrow> a < b"
  by (rule mono_less_iff, erule amps_strict) (rule mono_less_iff, erule deci_strict)

lemma current_gate: "flit 100 < \<bar>amps raw\<bar> \<longleftrightarrow> raw < 29000 \<or> 31000 < raw"
proof -
  have "is_finite (amps raw)" unfolding amps_def by (rule scaled_tenth(2) [OF amps_range])
  then have "flit 100 < \<bar>amps raw\<bar> \<longleftrightarrow> amps 31000 < amps raw \<or> amps raw < amps 29000"
    unfolding gate_literals(1,2) by (rule abs_exceeds)
  then show ?thesis by (auto simp: amps_less_iff)
qed

lemma encodings_finite: "is_finite (amps raw)" "is_finite (deci raw)"
  unfolding amps_def deci_as_int by (rule scaled_tenth(2) [OF amps_range], rule scaled_tenth(2) [OF deci_range])

text \<open>C22: With the default configuration the plausibility gate is a window on raw register values: a
  realtime block is dropped for its current exactly when the current register is present and not
  between 29000 and 31000, otherwise for its voltage exactly when the voltage register is present
  and not between 180 and 340, and it passes in every other case, whatever else it holds. No
  rounding blurs the edges.\<close>

theorem default_gate_is_raw_window:
  "implausibility (realtime_from_registers regs) (plausibility_limits_of config_default) =
   (if (case reg_at regs 0x29 of None \<Rightarrow> False | Some raw \<Rightarrow> raw < 29000 \<or> 31000 < raw)
    then Some DROP_IMPLAUSIBLE_CURRENT
    else if (case reg_at regs 0x28 of None \<Rightarrow> False | Some raw \<Rightarrow> raw < 180 \<or> 340 < raw)
    then Some DROP_IMPLAUSIBLE_VOLTAGE else None)"
proof -
  have d: "current_a (realtime_from_registers regs) = map_option amps (reg_at regs 0x29)"
    "pack_v (realtime_from_registers regs) = map_option deci (reg_at regs 0x28)"
    by (simp_all add: realtime_from_registers_def Let_def realtime_registers)
  have volts: "deci raw < flit 18 \<or> flit 34 < deci raw \<longleftrightarrow> raw < 180 \<or> 340 < raw" for raw
    by (simp add: deci_less_iff flip: gate_literals(3,4))
  show ?thesis
    unfolding implausibility_def d
    by (simp add: plausibility_limits_of_def config_default_simps encodings_finite current_gate volts
        split: option.split)
qed

section \<open>Serials\<close>

lemma alphanumeric_not_bar: "is_ascii_alphanumeric c \<Longrightarrow> c \<noteq> CHR ''|''"
  by (auto simp: is_ascii_alphanumeric_def Let_def)

lemma accepted_no_bar: "accept_serial cf a \<Longrightarrow> CHR ''|'' \<notin> set a"
  using alphanumeric_not_bar
  by (auto simp: accept_serial_def is_plausible_serial_def list_all_iff split: if_splits)

text \<open>C23: An accepted serial is one to 64 ASCII letters and digits, so it needs no escaping in a label
  or a log line, and the estimator's state is unambiguous over accepted serials: two pairs of
  distinct devices share the key of a peer regression exactly when they are the same unordered
  pair, and the two devices of a pair see it with opposite orientations.\<close>

theorem accepted_serials_unambiguous:
  assumes "accept_serial cf a" "accept_serial cf b" "accept_serial cf c" "accept_serial cf d"
    and "a \<noteq> b"
  shows "a \<noteq> [] \<and> length a \<le> 64 \<and> list_all is_ascii_alphanumeric a
    \<and> (fst (pair_key a b) = fst (pair_key c d)) = ({a, b} = {c, d})
    \<and> snd (pair_key a b) = (\<not> snd (pair_key b a))"
proof -
  have "a \<noteq> [] \<and> length a \<le> 64 \<and> list_all is_ascii_alphanumeric a"
    using assms(1) by (simp add: accept_serial_def is_plausible_serial_def split: if_splits)
  moreover have "CHR ''|'' \<notin> set a \<union> set b \<union> set c \<union> set d"
    using assms(1-4) accepted_no_bar by blast
  ultimately show ?thesis using pair_key_inject [OF _ assms(5)] by blast
qed

lemma accepted_serials_unambiguous_witness:
  "list_all is_ascii_alphanumeric ''224KE220900366''
   \<and> fst (pair_key ''224KE220900366'' ''224KE220900367'') = fst (pair_key ''224KE220900367'' ''224KE220900366'')"
proof -
  have "accept_serial config_default ''224KE220900366''" "accept_serial config_default ''224KE220900367''"
    by (simp_all add: accept_serial_def is_plausible_serial_def is_ascii_alphanumeric_def
        config_default_def Let_def)
  note serials = this
  have "''224KE220900366'' \<noteq> ''224KE220900367''" by simp
  note facts = accepted_serials_unambiguous [OF serials serials(2,1) this]
  have "{''224KE220900366'', ''224KE220900367''} = {''224KE220900367'', ''224KE220900366''}"
    by (rule insert_commute)
  then show ?thesis using facts by (simp only: simp_thms)
qed

end
