(* ===== verification/Calibration_Ideal.thy ===== *)
theory Calibration_Ideal
  imports Calibration
begin

text \<open>
  The estimator of \<open>src/calibration.rs\<close> in exact arithmetic: the accumulator updates of
  \<open>Calibration\<close>, read over an ordered field instead of the doubles. The running sums are the
  weighted sums over the whole history, the line they give is the weighted least-squares line
  and does not depend on the origin shifts, and the error a bounded residual can induce in its
  slope is bounded by the spread of the samples.
\<close>

section \<open>Histories\<close>

text \<open>One operation on an accumulator: a push after a decay, or a move of the origin.\<close>

datatype 'a fit_step = Observation 'a 'a 'a | Reorigin 'a

fun apply_step :: "('a :: field) fit_step \<Rightarrow> 'a ew_fit \<Rightarrow> 'a ew_fit" where
  "apply_step (Observation factor x y) f = ew_push x y (ew_decay factor f)"
| "apply_step (Reorigin d) f = ew_shift_x d f"

definition run_fit :: "('a :: field) fit_step list \<Rightarrow> 'a ew_fit" where
  "run_fit steps = fold apply_step steps ew_default"

text \<open>The specification keeps every sample with its weight and its abscissa.\<close>

fun history_step :: "('a :: field) fit_step \<Rightarrow> ('a \<times> 'a \<times> 'a) list \<Rightarrow> ('a \<times> 'a \<times> 'a) list" where
  "history_step (Observation factor x y) ss = (1, x, y) # List.map (\<lambda>(w, p). (w * factor, p)) ss"
| "history_step (Reorigin d) ss = List.map (\<lambda>(w, x, y). (w, x - d, y)) ss"

definition history :: "('a :: field) fit_step list \<Rightarrow> ('a \<times> 'a \<times> 'a) list" where
  "history steps = fold history_step steps []"

definition wsum :: "('a \<Rightarrow> 'a \<Rightarrow> 'a) \<Rightarrow> (('a :: field) \<times> 'a \<times> 'a) list \<Rightarrow> 'a" where
  "wsum g ss = sum_list (List.map (\<lambda>(w, x, y). w * g x y) ss)"

definition batch :: "(('a :: field) \<times> 'a \<times> 'a) list \<Rightarrow> 'a ew_fit" where
  "batch ss = \<lparr> ew_n = wsum (\<lambda>x y. 1) ss, ew_sx = wsum (\<lambda>x y. x) ss, ew_sy = wsum (\<lambda>x y. y) ss,
     ew_sxx = wsum (\<lambda>x y. x * x) ss, ew_sxy = wsum (\<lambda>x y. x * y) ss, ew_syy = wsum (\<lambda>x y. y * y) ss \<rparr>"

lemma wsum_simps [simp]:
  "wsum g [] = 0" "wsum g ((w, x, y) # ss) = w * g x y + wsum g ss"
  by (simp_all add: wsum_def)

lemma wsum_scale: "wsum g (List.map (\<lambda>(w, p). (w * k, p)) ss) = wsum g ss * k"
  by (induction ss) (auto simp: algebra_simps)

lemma wsum_shift: "wsum g (List.map (\<lambda>(w, x, y). (w, x - d, y)) ss) = wsum (\<lambda>x y. g (x - d) y) ss"
  by (induction ss) auto

lemma wsum_add: "wsum (\<lambda>x y. g x y + h x y) ss = wsum g ss + wsum h ss"
  by (induction ss) (auto simp: algebra_simps)

lemma wsum_minus: "wsum (\<lambda>x y. g x y - h x y) ss = wsum g ss - wsum h ss"
  by (induction ss) (auto simp: algebra_simps)

lemma wsum_cmult: "wsum (\<lambda>x y. c * g x y) ss = c * wsum g ss"
  by (induction ss) (auto simp: algebra_simps)

lemma wsum_const: "wsum (\<lambda>x y. c) ss = c * wsum (\<lambda>x y. 1) ss"
  by (induction ss) (auto simp: algebra_simps)

lemma apply_step_batch: "apply_step st (batch ss) = batch (history_step st ss)"
proof (cases st)
  case (Observation k x y)
  then show ?thesis
    by (simp add: ew_push_def ew_decay_def batch_def wsum_scale add.commute)
next
  case (Reorigin d)
  have "wsum (\<lambda>x y. (x - d) * (x - d)) ss =
      wsum (\<lambda>x y. x * x - ((1 + 1) * d) * x + d * d * 1) ss"
    by (rule arg_cong [where f = "\<lambda>g. wsum g ss"]) (auto simp: algebra_simps)
  also have "\<dots> = wsum (\<lambda>x y. x * x) ss - ((1 + 1) * d) * wsum (\<lambda>x y. x) ss + d * d * wsum (\<lambda>x y. 1) ss"
    by (simp only: wsum_add wsum_minus wsum_cmult)
  finally have xx: "wsum (\<lambda>x y. (x - d) * (x - d)) ss = \<dots>" .
  have xy: "wsum (\<lambda>x y. (x - d) * y) ss = wsum (\<lambda>x y. x * y) ss - d * wsum (\<lambda>x y. y) ss"
    by (simp only: left_diff_distrib wsum_minus wsum_cmult)
  have x: "wsum (\<lambda>x y. x - d) ss = wsum (\<lambda>x y. x) ss - d * wsum (\<lambda>x y. 1) ss"
    by (simp only: wsum_minus wsum_const [of d])
  show ?thesis
    by (simp add: Reorigin ew_shift_x_def batch_def wsum_shift xx xy x)
qed

lemma run_fit_batch: "run_fit steps = batch (history steps)"
proof -
  have "fold apply_step steps (batch ss) = batch (fold history_step steps ss)" for ss
    by (induction steps arbitrary: ss) (simp_all add: apply_step_batch)
  from this [of "[]"] show ?thesis
    by (simp add: run_fit_def history_def batch_def ew_default_def)
qed

text \<open>C33: The accumulator is a faithful summary: after any sequence of decays, pushes and origin
  shifts, its six numbers are the weighted sums over the whole history, every sample weighted by
  the product of the decay factors applied since it was pushed.\<close>

theorem fit_summarises_history: "run_fit steps = batch (history steps)"
  by (rule run_fit_batch)

section \<open>The line\<close>

lemma normal_equations:
  fixes f :: "('a :: field) ew_fit"
  assumes "ew_n f \<noteq> 0" and "ew_cxx f \<noteq> 0"
  shows "ew_sy f = ew_slope f * ew_sx f + ew_intercept f * ew_n f"
    and "ew_sxy f = ew_slope f * ew_sxx f + ew_intercept f * ew_sx f"
proof -
  show sy: "ew_sy f = ew_slope f * ew_sx f + ew_intercept f * ew_n f"
    using assms(1) by (simp add: ew_intercept_def)
  have "ew_slope f * ew_cxx f = ew_cxy f" using assms(2) by (simp add: ew_slope_def)
  then have "ew_slope f * ew_sxx f - ew_slope f * ew_sx f * (ew_sx f / ew_n f) =
      ew_sxy f - ew_sx f * (ew_sy f / ew_n f)"
    by (simp add: ew_cxx_def ew_cxy_def algebra_simps)
  moreover have "ew_sy f / ew_n f = ew_slope f * (ew_sx f / ew_n f) + ew_intercept f"
    using assms(1) by (subst sy) (simp add: add_divide_distrib)
  ultimately show "ew_sxy f = ew_slope f * ew_sxx f + ew_intercept f * ew_sx f"
    by (simp add: algebra_simps)
qed

text \<open>The sum of squared residuals of a line over weighted samples.\<close>

definition sse :: "('a :: field) \<Rightarrow> 'a \<Rightarrow> ('a \<times> 'a \<times> 'a) list \<Rightarrow> 'a" where
  "sse s i ss = wsum (\<lambda>x y. (y - (s * x + i)) * (y - (s * x + i))) ss"

lemma sse_batch:
  "sse s i ss = (let f = batch ss in ew_syy f - 2 * s * ew_sxy f - 2 * i * ew_sy f
     + s * s * ew_sxx f + 2 * s * i * ew_sx f + i * i * ew_n f)"
proof -
  have "sse s i ss = wsum (\<lambda>x y. y * y - (2 * s) * (x * y) - (2 * i) * y + (s * s) * (x * x)
      + (2 * s * i) * x + (i * i) * 1) ss"
    unfolding sse_def by (rule arg_cong [where f = "\<lambda>g. wsum g ss"]) (auto simp: algebra_simps)
  then show ?thesis
    unfolding wsum_add wsum_minus wsum_cmult by (simp add: batch_def Let_def)
qed

lemma sse_excess:
  fixes ss :: "('a :: field \<times> 'a \<times> 'a) list"
  defines "f \<equiv> batch ss"
  assumes "ew_n f \<noteq> 0" and "ew_cxx f \<noteq> 0"
  shows "ew_n f * (sse s i ss - sse (ew_slope f) (ew_intercept f) ss) =
    (s - ew_slope f) * (s - ew_slope f) * (ew_n f * ew_cxx f)
    + ((s - ew_slope f) * ew_sx f + (i - ew_intercept f) * ew_n f)
      * ((s - ew_slope f) * ew_sx f + (i - ew_intercept f) * ew_n f)"
proof -
  note eqs = normal_equations [OF assms(2,3)]
  have c: "ew_n f * ew_cxx f = ew_n f * ew_sxx f - ew_sx f * ew_sx f"
    using assms(2) by (simp add: ew_cxx_def right_diff_distrib)
  show ?thesis
    unfolding sse_batch c f_def [symmetric] Let_def eqs by (simp add: algebra_simps)
qed

text \<open>C32: In exact arithmetic the line the estimator returns is the weighted least-squares line:
  over any history of positive total weight and positive spread along the abscissa, no other
  line has a smaller weighted sum of squared residuals.\<close>

theorem fit_is_least_squares:
  fixes steps :: "('a :: linordered_field) fit_step list"
  assumes "0 < ew_n (run_fit steps)" and "0 < ew_cxx (run_fit steps)"
  shows "sse (ew_slope (run_fit steps)) (ew_intercept (run_fit steps)) (history steps)
    \<le> sse s i (history steps)"
proof -
  let ?f = "batch (history steps)"
  have "0 \<le> ew_n ?f * (sse s i (history steps)
      - sse (ew_slope ?f) (ew_intercept ?f) (history steps))"
    using assms unfolding run_fit_batch
    by (subst sse_excess) (simp_all add: zero_le_mult_iff)
  then show ?thesis
    using assms(1) by (simp add: run_fit_batch zero_le_mult_iff)
qed

definition rat_steps :: "rat fit_step list" where
  "rat_steps = [Observation 1 0 1, Observation (1 / 2) 1 3, Reorigin 1, Observation (1 / 2) 1 5]"

lemma fit_is_least_squares_witness:
  "sse (ew_slope (run_fit rat_steps)) (ew_intercept (run_fit rat_steps)) (history rat_steps)
    \<le> sse 1 1 (history rat_steps)"
  by (rule fit_is_least_squares)
    (simp_all add: rat_steps_def run_fit_def ew_default_def ew_push_def ew_decay_def ew_shift_x_def
      ew_cxx_def)

text \<open>Moving the origin is exact: it leaves the slope and the centred sums unchanged and moves
  the intercept by the slope over the distance, so the line is the same line in the new
  coordinate.\<close>

lemma shift_keeps_line:
  fixes f :: "('a :: field) ew_fit"
  assumes "ew_n f \<noteq> 0"
  shows "ew_cxx (ew_shift_x d f) = ew_cxx f \<and> ew_cxy (ew_shift_x d f) = ew_cxy f
    \<and> ew_cyy (ew_shift_x d f) = ew_cyy f \<and> ew_slope (ew_shift_x d f) = ew_slope f
    \<and> ew_intercept (ew_shift_x d f) = ew_intercept f + ew_slope f * d"
proof -
  have xx: "ew_cxx (ew_shift_x d f) = ew_cxx f"
    using assms by (simp add: ew_cxx_def ew_shift_x_def field_simps)
  have xy: "ew_cxy (ew_shift_x d f) = ew_cxy f"
    using assms by (simp add: ew_cxy_def ew_shift_x_def field_simps)
  have s: "ew_slope (ew_shift_x d f) = ew_slope f" by (simp add: ew_slope_def xx xy)
  have "ew_intercept (ew_shift_x d f) = ew_intercept f + ew_slope f * d"
    unfolding ew_intercept_def s using assms by (simp add: ew_shift_x_def field_simps)
  then show ?thesis by (simp add: xx xy s) (simp add: ew_cyy_def ew_shift_x_def)
qed

section \<open>The error of the slope\<close>

lemma wsum_cong_on: "(\<forall>(w, x, y)\<in>set ss. g x y = h x y) \<Longrightarrow> wsum g ss = wsum h ss"
  by (induction ss) auto

lemma wsum_nonneg:
  fixes ss :: "('a :: linordered_field \<times> 'a \<times> 'a) list"
  shows "\<forall>(w, x, y)\<in>set ss. 0 \<le> w \<and> 0 \<le> g x y \<Longrightarrow> 0 \<le> wsum g ss"
  by (induction ss) auto

text \<open>The Cauchy-Schwarz inequality for weighted sums, from the discriminant of a square.\<close>

lemma wsum_cauchy_schwarz:
  fixes ss :: "('a :: linordered_field \<times> 'a \<times> 'a) list"
  assumes "\<forall>(w, x, y)\<in>set ss. 0 \<le> w" and "0 < wsum (\<lambda>x y. g x y * g x y) ss"
  shows "wsum (\<lambda>x y. g x y * h x y) ss * wsum (\<lambda>x y. g x y * h x y) ss
    \<le> wsum (\<lambda>x y. g x y * g x y) ss * wsum (\<lambda>x y. h x y * h x y) ss"
proof -
  define A where "A = wsum (\<lambda>x y. g x y * g x y) ss"
  define B where "B = wsum (\<lambda>x y. g x y * h x y) ss"
  define C where "C = wsum (\<lambda>x y. h x y * h x y) ss"
  have "0 \<le> wsum (\<lambda>x y. (A * h x y - B * g x y) * (A * h x y - B * g x y)) ss"
    by (rule wsum_nonneg) (use assms(1) in auto)
  also have "\<dots> = wsum (\<lambda>x y. (A * A) * (h x y * h x y) - (2 * A * B) * (g x y * h x y)
      + (B * B) * (g x y * g x y)) ss"
    by (rule arg_cong [where f = "\<lambda>g. wsum g ss"]) (auto simp: algebra_simps)
  also have "\<dots> = A * (A * C - B * B)"
    unfolding wsum_add wsum_minus wsum_cmult by (simp add: A_def B_def C_def algebra_simps)
  finally have "0 \<le> A * (A * C - B * B)" .
  then show ?thesis
    using assms(2) by (simp add: zero_le_mult_iff A_def B_def C_def)
qed

text \<open>The centred sums as sums over centred abscissae.\<close>

lemma batch_centred:
  fixes ss :: "('a :: field \<times> 'a \<times> 'a) list"
  assumes "ew_n (batch ss) \<noteq> 0"
  defines "m \<equiv> ew_sx (batch ss) / ew_n (batch ss)"
  shows "ew_cxx (batch ss) = wsum (\<lambda>x y. (x - m) * (x - m)) ss"
    and "ew_cxy (batch ss) = wsum (\<lambda>x y. (x - m) * y) ss"
    and "wsum (\<lambda>x y. (x - m) * x) ss = ew_cxx (batch ss)"
    and "wsum (\<lambda>x y. (x - m) * c) ss = 0"
proof -
  let ?n = "wsum (\<lambda>x y. 1) ss" and ?sx = "wsum (\<lambda>x y. x) ss"
  have n: "?n \<noteq> 0" and m: "m = ?sx / ?n" using assms by (simp_all add: batch_def)
  have "wsum (\<lambda>x y. (x - m) * (x - m)) ss = wsum (\<lambda>x y. x * x - (2 * m) * x + (m * m) * 1) ss"
    by (rule arg_cong [where f = "\<lambda>g. wsum g ss"]) (auto simp: algebra_simps)
  also have "\<dots> = wsum (\<lambda>x y. x * x) ss - 2 * m * ?sx + m * m * ?n"
    by (simp only: wsum_add wsum_minus wsum_cmult)
  also have "\<dots> = ew_cxx (batch ss)" using n by (simp add: ew_cxx_def batch_def m field_simps)
  finally show "ew_cxx (batch ss) = wsum (\<lambda>x y. (x - m) * (x - m)) ss" ..
  have "wsum (\<lambda>x y. (x - m) * y) ss = wsum (\<lambda>x y. x * y) ss - m * wsum (\<lambda>x y. y) ss"
    by (simp only: left_diff_distrib wsum_minus wsum_cmult)
  then show "ew_cxy (batch ss) = wsum (\<lambda>x y. (x - m) * y) ss"
    by (simp add: ew_cxy_def batch_def m)
  have "wsum (\<lambda>x y. (x - m) * x) ss = wsum (\<lambda>x y. x * x) ss - m * ?sx"
    by (simp only: left_diff_distrib wsum_minus wsum_cmult)
  then show "wsum (\<lambda>x y. (x - m) * x) ss = ew_cxx (batch ss)"
    by (simp add: ew_cxx_def batch_def m)
  have "wsum (\<lambda>x y. (x - m) * c) ss = wsum (\<lambda>x y. c * x - (c * m) * 1) ss"
    by (rule arg_cong [where f = "\<lambda>g. wsum g ss"]) (auto simp: algebra_simps)
  then show "wsum (\<lambda>x y. (x - m) * c) ss = 0"
    using n unfolding wsum_minus wsum_cmult by (simp add: m)
qed

lemma history_weights:
  fixes steps :: "('a :: linordered_field) fit_step list"
  assumes "\<forall>st\<in>set steps. case st of Observation k x y \<Rightarrow> 0 \<le> k | Reorigin d \<Rightarrow> True"
  shows "\<forall>(w, x, y)\<in>set (history steps). 0 \<le> w"
proof -
  have "\<forall>st\<in>set steps. case st of Observation k x y \<Rightarrow> 0 \<le> k | Reorigin d \<Rightarrow> True \<Longrightarrow>
      \<forall>p\<in>set ss. 0 \<le> fst p \<Longrightarrow> \<forall>p\<in>set (fold history_step steps ss). 0 \<le> fst p" for ss
  proof (induction steps arbitrary: ss)
    case (Cons st steps)
    have "\<forall>p\<in>set (history_step st ss). 0 \<le> fst p"
      using Cons.prems by (cases st) auto
    then show ?case using Cons by simp
  qed simp
  from this [OF assms, of "[]"] show ?thesis by (auto simp: history_def)
qed

text \<open>C34: The bound on the error of the slope that does hold. If every sample lies within \<open>r\<close> of
  the line with slope \<open>offset\<close> (the reported charge moves within a capacity of \<open>2 r\<close>), the
  fitted slope differs from \<open>offset\<close> by no more than \<open>r\<close> times the square root of the total
  weight over the spread of the abscissae.\<close>

theorem slope_error_bound:
  fixes steps :: "('a :: linordered_field) fit_step list"
  assumes weights: "\<forall>st\<in>set steps. case st of Observation k x y \<Rightarrow> 0 \<le> k | Reorigin d \<Rightarrow> True"
    and pos: "0 < ew_n (run_fit steps)" "0 < ew_cxx (run_fit steps)"
    and near: "\<forall>(w, x, y)\<in>set (history steps). \<bar>y - offset * x - c\<bar> \<le> r"
  shows "(ew_slope (run_fit steps) - offset) * (ew_slope (run_fit steps) - offset)
      * ew_cxx (run_fit steps) \<le> r * r * ew_n (run_fit steps)"
proof -
  let ?ss = "history steps"
  let ?f = "batch ?ss"
  define m where "m = ew_sx ?f / ew_n ?f"
  define e where "e = (\<lambda>x y. y - offset * x - c)"
  have n: "ew_n ?f \<noteq> 0" and xx: "0 < ew_cxx ?f" using pos by (auto simp: run_fit_batch)
  note cen = batch_centred [OF n, folded m_def]
  have w: "\<forall>(w, x, y)\<in>set ?ss. 0 \<le> w" using weights by (rule history_weights)
  have "wsum (\<lambda>x y. (x - m) * e x y) ?ss =
      wsum (\<lambda>x y. (x - m) * y - offset * ((x - m) * x) - (x - m) * c) ?ss"
    by (rule arg_cong [where f = "\<lambda>g. wsum g ?ss"]) (auto simp: e_def algebra_simps)
  also have "\<dots> = ew_cxy ?f - offset * ew_cxx ?f"
    unfolding wsum_minus wsum_cmult cen(3,4) cen(2) [symmetric] by simp
  also have "\<dots> = (ew_slope ?f - offset) * ew_cxx ?f"
    using xx by (simp add: ew_slope_def left_diff_distrib)
  finally have err: "wsum (\<lambda>x y. (x - m) * e x y) ?ss = (ew_slope ?f - offset) * ew_cxx ?f" .
  have "((ew_slope ?f - offset) * ew_cxx ?f) * ((ew_slope ?f - offset) * ew_cxx ?f)
      \<le> ew_cxx ?f * wsum (\<lambda>x y. e x y * e x y) ?ss"
    using wsum_cauchy_schwarz [of ?ss "\<lambda>x y. x - m" e] w xx
    by (simp add: err flip: cen(1))
  then have "(ew_slope ?f - offset) * (ew_slope ?f - offset) * ew_cxx ?f
      \<le> wsum (\<lambda>x y. e x y * e x y) ?ss"
    using xx by (simp add: mult.assoc mult.left_commute [of _ "ew_cxx ?f"])
  also have "\<dots> \<le> wsum (\<lambda>x y. r * r) ?ss"
  proof -
    have "0 \<le> wsum (\<lambda>x y. r * r - e x y * e x y) ?ss"
    proof (rule wsum_nonneg, safe)
      fix w x y assume s: "(w, x, y) \<in> set ?ss"
      then show "0 \<le> w" using w by auto
      have "\<bar>e x y\<bar> \<le> r" using near s by (auto simp: e_def)
      then have "\<bar>e x y\<bar> * \<bar>e x y\<bar> \<le> r * r" by (intro mult_mono) auto
      then show "0 \<le> r * r - e x y * e x y" by simp
    qed
    then show ?thesis by (simp add: wsum_minus)
  qed
  also have "\<dots> = r * r * ew_n ?f" by (simp add: wsum_const [of "r * r"] batch_def)
  finally show ?thesis by (simp add: run_fit_batch)
qed

text \<open>The run of \<open>Calibration_Diagnostics\<close> in exact arithmetic: the bound there is met.\<close>

definition step_charge :: "rat fit_step list" where
  "step_charge = [Observation 1 1 0, Observation 1 2 0, Observation 1 3 (- 40), Observation 1 4 (- 40)]"

lemma slope_error_bound_witness:
  "(ew_slope (run_fit step_charge) - 0) * (ew_slope (run_fit step_charge) - 0)
      * ew_cxx (run_fit step_charge) \<le> 20 * 20 * ew_n (run_fit step_charge)
   \<and> ew_slope (run_fit step_charge) = - 16"
proof -
  have h: "\<forall>(w, x, y)\<in>set (history step_charge). \<bar>y - 0 * x - (- 20)\<bar> \<le> 20"
    by (simp add: step_charge_def history_def)
  have "\<forall>st\<in>set step_charge. case st of Observation k x y \<Rightarrow> 0 \<le> k | Reorigin d \<Rightarrow> True"
    "0 < ew_n (run_fit step_charge)" "0 < ew_cxx (run_fit step_charge)"
    "ew_slope (run_fit step_charge) = - 16"
    by (simp_all add: step_charge_def run_fit_def ew_default_def ew_push_def ew_decay_def
        ew_cxx_def ew_cxy_def ew_slope_def)
  then show ?thesis using slope_error_bound [OF _ _ _ h] by simp
qed

end
