(* ===== verification/Server.thy ===== *)
theory Server
  imports Config Flush
begin

text \<open>
  \<open>src/server.rs\<close> and \<open>src/payload.rs\<close>: the decoding of one Modbus pair and the telemetry handler.
  The JSON parser, the hex decoder, \<open>exp\<close> and the registry are arguments; the clocks and the
  outcomes of the file operations of a frame are its environment. Logging is left out.
\<close>

section \<open>Wire types and state\<close>

record data_entry =
  de_command :: string
  de_data :: string
  de_timestamp :: "string option"

record telemetry_body =
  tb_device_name :: string
  tb_sn :: string
  tb_data :: "data_entry list"

text \<open>The shared state of the handlers, with the disk the metrics write to.\<close>

record ('s, 'b) app_state =
  app_config :: config
  app_metrics :: "'s metrics"
  app_disk :: "'b disk"

text \<open>What a frame meets: the wall clock when it is integrated and when the flush stamps its
  gauge, the monotonic clock, and the outcomes of the calls of a write.\<close>

record frame_env =
  fe_now_secs :: f64
  fe_flush_secs :: f64
  fe_now :: int
  fe_io :: io_results

section \<open>One Modbus pair\<close>

fun drop_reason :: "'h decode_error \<Rightarrow> string" where
  "drop_reason (BadHex _) = ''bad_hex''"
| "drop_reason (TooShort _) = ''too_short''"
| "drop_reason (BadAddress _) = ''bad_frame''"
| "drop_reason (BadFunction _) = ''bad_frame''"
| "drop_reason (BadByteCount _ _) = ''bad_frame''"
| "drop_reason (CrcMismatch _ _) = ''crc''"
| "drop_reason (UnknownBlock _) = ''unknown_block''"

definition plausibility_check :: "config \<Rightarrow> realtime_data \<Rightarrow> string + unit" where
  "plausibility_check c d = (case implausibility d (plausibility_limits_of c) of
     None \<Rightarrow> Inr () | Some reason \<Rightarrow> Inl reason)"

text \<open>\<open>accumulate_coulombs\<close> with the flush at its end, which its early returns skip.\<close>

definition accumulate_and_flush ::
  "'s prom_api \<Rightarrow> (f64 \<Rightarrow> f64) \<Rightarrow> (coulomb_state \<Rightarrow> 'b option) \<Rightarrow> frame_env \<Rightarrow> string \<Rightarrow> realtime_data \<Rightarrow>
   's metrics \<times> 'b disk \<Rightarrow> 's metrics \<times> 'b disk" where
  "accumulate_and_flush P ex ser env sn d = (\<lambda>(m, disk).
     case accumulate_coulombs P ex sn d (fe_now_secs env) m of
       None \<Rightarrow> (m, disk)
     | Some m \<Rightarrow> flush_coulomb_state P ser False (fe_flush_secs env) (fe_now env) (fe_io env) (m, disk))"

definition realtime_frame ::
  "'s prom_api \<Rightarrow> (f64 \<Rightarrow> f64) \<Rightarrow> (coulomb_state \<Rightarrow> 'b option) \<Rightarrow> frame_env \<Rightarrow> string \<Rightarrow> realtime_data \<Rightarrow>
   's metrics \<times> 'b disk \<Rightarrow> 's metrics \<times> 'b disk" where
  "realtime_frame P ex ser env sn d = (\<lambda>(m, disk).
     let m = update_realtime P sn d m;
         (m, disk) = accumulate_and_flush P ex ser env sn d (m, disk)
     in (record_decoded P ''realtime'' m, disk))"

definition config_frame :: "'s prom_api \<Rightarrow> string \<Rightarrow> config_data \<Rightarrow> 's metrics \<Rightarrow> 's metrics" where
  "config_frame P sn c m = record_decoded P ''config'' (update_config P sn c m)"

definition handle_entry ::
  "'s prom_api \<Rightarrow> (string \<Rightarrow> 'h + u8 list) \<Rightarrow> (f64 \<Rightarrow> f64) \<Rightarrow> (coulomb_state \<Rightarrow> 'b option) \<Rightarrow> frame_env \<Rightarrow>
   string \<Rightarrow> string \<Rightarrow> string \<Rightarrow> ('s, 'b) app_state \<Rightarrow> (string + unit) \<times> ('s, 'b) app_state" where
  "handle_entry P hexd ex ser env sn command data st =
     (case request_start_register hexd command of Inl e \<Rightarrow> (Inl ''bad_command'', st)
      | Inr start \<Rightarrow>
      case (from_start_register start :: 'h decode_error + block) of Inl e \<Rightarrow> (Inl ''unknown_block'', st)
      | Inr block \<Rightarrow>
      case parse_response hexd data of Inl e \<Rightarrow> (Inl (drop_reason e), st)
      | Inr regs \<Rightarrow>
      case block of
        Realtime \<Rightarrow>
          let d = realtime_from_registers regs in
          (case plausibility_check (app_config st) d of Inl reason \<Rightarrow> (Inl reason, st)
           | Inr _ \<Rightarrow>
             let (m, disk) = realtime_frame P ex ser env sn d (app_metrics st, app_disk st)
             in (Inr (), st\<lparr> app_metrics := m, app_disk := disk \<rparr>))
      | block.Config \<Rightarrow>
          (Inr (), st\<lparr> app_metrics := config_frame P sn (config_from_registers regs) (app_metrics st) \<rparr>))"

section \<open>Telemetry\<close>

definition drop_frame :: "'s prom_api \<Rightarrow> string \<Rightarrow> ('s, 'b) app_state \<Rightarrow> ('s, 'b) app_state" where
  "drop_frame P reason st = st\<lparr> app_metrics := record_dropped P reason (app_metrics st) \<rparr>"

text \<open>The loop over the entries of a body; entry number \<open>i\<close> meets the environment \<open>env i\<close>.\<close>

fun handle_entries ::
  "'s prom_api \<Rightarrow> (string \<Rightarrow> 'h + u8 list) \<Rightarrow> (f64 \<Rightarrow> f64) \<Rightarrow> (coulomb_state \<Rightarrow> 'b option) \<Rightarrow>
   (nat \<Rightarrow> frame_env) \<Rightarrow> string \<Rightarrow> nat \<Rightarrow> data_entry list \<Rightarrow> ('s, 'b) app_state \<Rightarrow> ('s, 'b) app_state" where
  "handle_entries P hexd ex ser env sn i [] st = st"
| "handle_entries P hexd ex ser env sn i (entry # entries) st =
     handle_entries P hexd ex ser env sn (Suc i) entries
       (case handle_entry P hexd ex ser (env i) sn (de_command entry) (de_data entry) st of
          (Inl reason, st) \<Rightarrow> drop_frame P reason st
        | (Inr _, st) \<Rightarrow> st)"

definition STATUS_OK :: nat where
  "STATUS_OK = 200"

definition telemetry ::
  "'s prom_api \<Rightarrow> (string \<Rightarrow> 'h + u8 list) \<Rightarrow> (f64 \<Rightarrow> f64) \<Rightarrow> (coulomb_state \<Rightarrow> 'b option) \<Rightarrow>
   ('d \<Rightarrow> 'j + telemetry_body) \<Rightarrow> (nat \<Rightarrow> frame_env) \<Rightarrow> f64 \<Rightarrow> 'd \<Rightarrow> ('s, 'b) app_state \<Rightarrow>
   nat \<times> ('s, 'b) app_state" where
  "telemetry P hexd ex ser from_json env seen_secs bytes st =
     (case from_json bytes of Inl e \<Rightarrow> (STATUS_OK, drop_frame P ''bad_json'' st)
      | Inr body \<Rightarrow>
      if \<not> accept_serial (app_config st) (tb_sn body)
      then (STATUS_OK, (drop_frame P ''serial_rejected'' ^^ max (length (tb_data body)) 1) st)
      else case admit (tb_sn body) (app_metrics st) of
        (False, m) \<Rightarrow>
          (STATUS_OK, (drop_frame P ''device_limit'' ^^ max (length (tb_data body)) 1) (st\<lparr> app_metrics := m \<rparr>))
      | (True, m) \<Rightarrow>
          let st = handle_entries P hexd ex ser env (tb_sn body) 0 (tb_data body) (st\<lparr> app_metrics := m \<rparr>)
          in (STATUS_OK, st\<lparr> app_metrics := mark_seen P (tb_sn body) seen_secs (app_metrics st) \<rparr>))"

end
