(* ===== verification/Router.thy ===== *)
theory Router
  imports Server
begin

text \<open>
  The outer half of \<open>src/server.rs\<close> and the life of the process in \<open>src/main.rs\<close>: the routing
  table, the handlers that only answer, the page of \<open>/metrics\<close>, the outermost layer that counts
  every response, startup, the requests of a process and its shutdown. What the router of \<open>axum\<close>
  and its layers do with a request is its \<open>outcome\<close>, which is data here: the handler that ran and
  the body it got, or the status answered without a handler. The runtime is single-threaded and no
  handler awaits after its body is read, so the requests of a process are a sequence.
\<close>

section \<open>Routes\<close>

datatype http_method = GET | POST

datatype endpoint = Telemetry | Registration | Metrics_page | Healthz

definition TELEMETRY_PATH :: string where
  "TELEMETRY_PATH = ''/api/v2/http2/SaveThingInfo1''"

definition REGISTRATION_PATH :: string where
  "REGISTRATION_PATH = ''/api/v2/http2/SaveThing''"

definition HEALTHZ_PATH :: string where
  "HEALTHZ_PATH = ''/healthz''"

definition routes :: "config \<Rightarrow> (string \<times> http_method \<times> endpoint) list" where
  "routes c =
     [(TELEMETRY_PATH, POST, Telemetry),
      (REGISTRATION_PATH, POST, Registration),
      (metrics_path c, GET, Metrics_page),
      (HEALTHZ_PATH, GET, Healthz)]"

text \<open>The label of \<open>record_metrics\<close>: one of five, whatever the path.\<close>

definition endpoint_of :: "config \<Rightarrow> string \<Rightarrow> string" where
  "endpoint_of c path =
     (if path = TELEMETRY_PATH then ''telemetry''
      else if path = REGISTRATION_PATH then ''registration''
      else if path = metrics_path c then ''metrics''
      else if path = HEALTHZ_PATH then ''healthz''
      else ''other'')"

section \<open>Responses\<close>

record response =
  rs_status :: nat
  rs_content_type :: "string option"
  rs_body :: string

definition plain :: "nat \<Rightarrow> response" where
  "plain status = \<lparr> rs_status = status, rs_content_type = None, rs_body = '''' \<rparr>"

text \<open>The encoder of the \<open>prometheus\<close> crate: the bytes it writes for what \<open>gather\<close> returns (an
  error leaves what was written), and its format type.\<close>

record 's encoder =
  en_encode :: "'s \<Rightarrow> u8 list"
  en_format_type :: string

text \<open>Outside the repository as well: \<open>String::from_utf8\<close> on those bytes and the parser of header values.\<close>

definition render :: "'s encoder \<Rightarrow> (u8 list \<Rightarrow> string option) \<Rightarrow> 's metrics \<Rightarrow> string \<times> string" where
  "render E from_utf8 m =
     (let body = (case from_utf8 (en_encode E (m_store m)) of None \<Rightarrow> '''' | Some b \<Rightarrow> b)
      in (en_format_type E, body))"

definition metrics_page ::
  "'s encoder \<Rightarrow> (u8 list \<Rightarrow> string option) \<Rightarrow> (string \<Rightarrow> bool) \<Rightarrow> ('s, 'b) app_state \<Rightarrow> response" where
  "metrics_page E from_utf8 header_valid st =
     (let (content_type, body) = render E from_utf8 (app_metrics st)
      in \<lparr> rs_status = STATUS_OK,
           rs_content_type = (if header_valid content_type then Some content_type else None),
           rs_body = body \<rparr>)"

definition registration :: "('s, 'b) app_state \<Rightarrow> response" where
  "registration st = plain STATUS_OK"

definition healthz :: "('s, 'b) app_state \<Rightarrow> response" where
  "healthz st = plain STATUS_OK"

section \<open>A request\<close>

text \<open>What the router and its layers do with a request.\<close>

datatype 'd outcome = Handled endpoint 'd | Answered nat

record 'd request =
  rq_path :: string
  rq_outcome :: "'d outcome"
  rq_env :: "nat \<Rightarrow> frame_env"
  rq_seen_secs :: f64

text \<open>What the program calls outside itself.\<close>

record ('s, 'h, 'b, 'd, 'j) externals =
  x_prom :: "'s prom_api"
  x_hex :: "string \<Rightarrow> 'h + u8 list"
  x_exp :: "f64 \<Rightarrow> f64"
  x_ser :: "coulomb_state \<Rightarrow> 'b option"
  x_de :: "'b \<Rightarrow> coulomb_state option"
  x_json :: "'d \<Rightarrow> 'j + telemetry_body"
  x_encoder :: "'s encoder"
  x_utf8 :: "u8 list \<Rightarrow> string option"
  x_header :: "string \<Rightarrow> bool"

definition run_outcome ::
  "('s, 'h, 'b, 'd, 'j) externals \<Rightarrow> 'd request \<Rightarrow> ('s, 'b) app_state \<Rightarrow> response \<times> ('s, 'b) app_state" where
  "run_outcome X rq st = (case rq_outcome rq of
       Answered status \<Rightarrow> (plain status, st)
     | Handled Telemetry bytes \<Rightarrow>
         let (status, st) = telemetry (x_prom X) (x_hex X) (x_exp X) (x_ser X) (x_json X) (rq_env rq)
               (rq_seen_secs rq) bytes st
         in (plain status, st)
     | Handled Registration bytes \<Rightarrow> (registration st, st)
     | Handled Metrics_page bytes \<Rightarrow> (metrics_page (x_encoder X) (x_utf8 X) (x_header X) st, st)
     | Handled Healthz bytes \<Rightarrow> (healthz st, st))"

text \<open>The outermost layer: the endpoint label is taken before the request runs, the status after.\<close>

definition record_metrics ::
  "'s prom_api \<Rightarrow> string \<Rightarrow> (('s, 'b) app_state \<Rightarrow> response \<times> ('s, 'b) app_state) \<Rightarrow> ('s, 'b) app_state \<Rightarrow>
   response \<times> ('s, 'b) app_state" where
  "record_metrics P path next_layer st =
     (let endpoint = endpoint_of (app_config st) path;
          (resp, st) = next_layer st
      in (resp, st\<lparr> app_metrics := record_request P endpoint (rs_status resp) (app_metrics st) \<rparr>))"

definition serve ::
  "('s, 'h, 'b, 'd, 'j) externals \<Rightarrow> 'd request \<Rightarrow> ('s, 'b) app_state \<Rightarrow> response \<times> ('s, 'b) app_state" where
  "serve X rq = record_metrics (x_prom X) (rq_path rq) (run_outcome X rq)"

fun serve_all ::
  "('s, 'h, 'b, 'd, 'j) externals \<Rightarrow> 'd request list \<Rightarrow> ('s, 'b) app_state \<Rightarrow>
   response list \<times> ('s, 'b) app_state" where
  "serve_all X [] st = ([], st)"
| "serve_all X (rq # rqs) st =
     (let (resp, st) = serve X rq st;
          (resps, st) = serve_all X rqs st
      in (resp # resps, st))"

section \<open>The process\<close>

text \<open>From the configuration file to the state the server starts with; the content of the state
  file comes from the disk.\<close>

definition start ::
  "'s prom_api \<Rightarrow> ('b \<Rightarrow> coulomb_state option) \<Rightarrow> (string \<Rightarrow> 'p + config) \<Rightarrow> 'e read_error + string \<Rightarrow>
   f64 \<Rightarrow> 'b disk \<Rightarrow> ('e, 'p) config_error + ('s, 'b) app_state" where
  "start P de from_yaml file now_secs disk =
     (case config_load from_yaml file of Inl e \<Rightarrow> Inl e
      | Inr c \<Rightarrow>
        let c = snd (reset_out_of_range_to_defaults c);
            opts = metrics_options_of c;
            state_file = (case coulomb_state_path c of None \<Rightarrow> None | Some path \<Rightarrow> dk_live disk path)
        in Inr \<lparr> app_config = c,
                 app_metrics = restore_coulombs P de now_secs state_file (metrics_new P opts),
                 app_disk = disk \<rparr>)"

definition shutdown ::
  "'s prom_api \<Rightarrow> (coulomb_state \<Rightarrow> 'b option) \<Rightarrow> f64 \<Rightarrow> int \<Rightarrow> io_results \<Rightarrow> ('s, 'b) app_state \<Rightarrow>
   ('s, 'b) app_state" where
  "shutdown P ser now_secs now io st =
     (let (m, disk) = persist_coulombs P ser now_secs now io (app_metrics st, app_disk st)
      in st\<lparr> app_metrics := m, app_disk := disk \<rparr>)"

text \<open>How the process ends: a refused configuration, the panic of \<open>Router::route\<close> on a table it
  rejects, a listener that cannot be bound, or after serving, with the error of the server if any.\<close>

datatype ('e, 'p, 'n) exit =
    Config_refused "('e, 'p) config_error"
  | Router_panic
  | Not_bound 'n
  | Served "'n option"

text \<open>The rest of the environment: the router and the listener, how serving ends, and what the last
  flush meets.\<close>

record 'n main_env =
  me_boot_secs :: f64
  me_router :: "(string \<times> http_method \<times> endpoint) list \<Rightarrow> bool"
  me_bind :: "socket_addr \<Rightarrow> 'n option"
  me_served :: "'n option"
  me_flush_secs :: f64
  me_now :: int
  me_io :: io_results

definition run_main ::
  "('s, 'h, 'b, 'd, 'j) externals \<Rightarrow> (string \<Rightarrow> 'p + config) \<Rightarrow> 'e read_error + string \<Rightarrow> 'n main_env \<Rightarrow>
   'd request list \<Rightarrow> 'b disk \<Rightarrow> ('e, 'p, 'n) exit \<times> ('s, 'b) app_state option" where
  "run_main X from_yaml file env rqs disk =
     (case start (x_prom X) (x_de X) from_yaml file (me_boot_secs env) disk of
        Inl e \<Rightarrow> (Config_refused e, None)
      | Inr st \<Rightarrow>
        if \<not> me_router env (routes (app_config st)) then (Router_panic, Some st)
        else case me_bind env (listen (app_config st)) of
          Some e \<Rightarrow> (Not_bound e, Some st)
        | None \<Rightarrow>
          let (resps, st) = serve_all X rqs st
          in (Served (me_served env),
              Some (shutdown (x_prom X) (x_ser X) (me_flush_secs env) (me_now env) (me_io env) st)))"

end
