(* ===== verification/Server_Facts.thy ===== *)
theory Server_Facts
  imports Server Crash_Safety
begin

text \<open>
  What the handlers guarantee: a frame is either dropped for a known reason without a trace in any
  metric or applied as a whole, a refused body touches nothing but the drop counter, and every
  telemetry request is a run of the transition system of \<open>Persistence\<close>, so that its guarantees
  are guarantees of the server.
\<close>

section \<open>Verdicts\<close>

lemma drop_reason_known: "drop_reason e \<in> set DROP_REASONS"
  by (cases e) (simp_all add: DROP_REASONS_def)

lemma implausible_known: "implausibility d l = Some r \<Longrightarrow> r \<in> set DROP_REASONS"
  by (auto simp: implausibility_def DROP_REASONS_def split: if_splits prod.splits)

lemma from_start_register_iff:
  "from_start_register s = Inr Realtime \<longleftrightarrow> s = 0x0000"
  "from_start_register s = Inr block.Config \<longleftrightarrow> s = 0x0080"
  by (auto simp: from_start_register_def)

lemma plausibility_check_Inl: "plausibility_check c d = Inl r \<longleftrightarrow> implausibility d (plausibility_limits_of c) = Some r"
  and plausibility_check_Inr: "plausibility_check c d = Inr u \<longleftrightarrow> implausibility d (plausibility_limits_of c) = None"
  by (auto simp: plausibility_check_def split: option.splits)

lemma entry_verdict:
  fixes hexd :: "string \<Rightarrow> 'h + u8 list"
  shows "case handle_entry P hexd ex ser env sn command data st of
     (Inl reason, st') \<Rightarrow> st' = st \<and> reason \<in> set DROP_REASONS
   | (Inr _, st') \<Rightarrow>
       (\<exists>regs. parse_response hexd data = Inr regs
         \<and> (request_start_register hexd command = Inr 0x0000
              \<and> implausibility (realtime_from_registers regs) (plausibility_limits_of (app_config st)) = None
              \<and> (app_metrics st', app_disk st') =
                  realtime_frame P ex ser env sn (realtime_from_registers regs) (app_metrics st, app_disk st)
              \<and> app_config st' = app_config st
            \<or> request_start_register hexd command = Inr 0x0080
              \<and> st' = st\<lparr> app_metrics := config_frame P sn (config_from_registers regs) (app_metrics st) \<rparr>))"
proof (cases "request_start_register hexd command")
  case (Inl e)
  then show ?thesis by (simp add: handle_entry_def DROP_REASONS_def)
next
  case start: (Inr start)
  show ?thesis
  proof (cases "from_start_register start :: 'h decode_error + block")
    case (Inl e)
    then show ?thesis using start by (simp add: handle_entry_def DROP_REASONS_def)
  next
    case block: (Inr block)
    show ?thesis
    proof (cases "parse_response hexd data")
      case (Inl e)
      then show ?thesis using start block by (simp add: handle_entry_def drop_reason_known)
    next
      case regs: (Inr regs)
      show ?thesis
      proof (cases block)
        case Realtime
        then have s: "start = 0" using block by (simp add: from_start_register_iff)
        let ?d = "realtime_from_registers regs"
        obtain m disk where f: "realtime_frame P ex ser env sn ?d (app_metrics st, app_disk st) = (m, disk)"
          by fastforce
        show ?thesis
          by (cases "implausibility ?d (plausibility_limits_of (app_config st))")
            (simp_all add: handle_entry_def start regs s from_start_register_def Let_def f
              plausibility_check_def implausible_known)
      next
        case Config
        then have s: "start = 0x80" using block by (simp add: from_start_register_iff)
        show ?thesis by (simp add: handle_entry_def start regs s from_start_register_def)
      qed
    qed
  qed
qed

text \<open>C7: A Modbus pair is all or nothing. When it is dropped, for whatever fault, the reason is one
  of the pre-created labels and metrics, device records and disk are exactly as before; otherwise
  its response passed the length, address and CRC checks, its request names one of the two
  blocks, a realtime frame passed the plausibility gate, and the whole update of its block was
  applied.\<close>

theorem entry_all_or_nothing:
  fixes hexd :: "string \<Rightarrow> 'h + u8 list"
  shows "case handle_entry P hexd ex ser env sn command data st of
     (Inl reason, st') \<Rightarrow> st' = st \<and> reason \<in> set DROP_REASONS
   | (Inr _, st') \<Rightarrow>
       (\<exists>regs. parse_response hexd data = Inr regs
         \<and> (request_start_register hexd command = Inr 0x0000
              \<and> implausibility (realtime_from_registers regs) (plausibility_limits_of (app_config st)) = None
              \<and> (app_metrics st', app_disk st') =
                  realtime_frame P ex ser env sn (realtime_from_registers regs) (app_metrics st, app_disk st)
              \<and> app_config st' = app_config st
            \<or> request_start_register hexd command = Inr 0x0080
              \<and> st' = st\<lparr> app_metrics := config_frame P sn (config_from_registers regs) (app_metrics st) \<rparr>))"
  by (rule entry_verdict)

section \<open>Refused bodies\<close>

lemma drop_frames_simps [simp]:
  "app_config ((drop_frame P reason ^^ k) st) = app_config st"
  "app_disk ((drop_frame P reason ^^ k) st) = app_disk st"
  "m_shared (app_metrics ((drop_frame P reason ^^ k) st)) = m_shared (app_metrics st)"
  "m_opts (app_metrics ((drop_frame P reason ^^ k) st)) = m_opts (app_metrics st)"
  by (induction k) (simp_all add: drop_frame_def record_dropped_def)

context prometheus
begin

lemma sample_drop_frames:
  "g \<noteq> Ex Frames_dropped \<Longrightarrow>
   pm_sample P (m_store (app_metrics ((drop_frame P reason ^^ k) st))) g ls =
   pm_sample P (m_store (app_metrics st)) g ls"
  by (induction k) (simp_all add: drop_frame_def record_dropped_def sample_inc)

end

definition refused :: "('d \<Rightarrow> 'j + telemetry_body) \<Rightarrow> 'd \<Rightarrow> ('s, 'b) app_state \<Rightarrow> bool" where
  "refused from_json bytes st = (case from_json bytes of Inl e \<Rightarrow> True
     | Inr body \<Rightarrow> \<not> accept_serial (app_config st) (tb_sn body)
         \<or> \<not> fst (admit (tb_sn body) (app_metrics st)))"

lemma refused_telemetry:
  assumes "refused from_json bytes st"
  shows "\<exists>reason k. telemetry P hexd ex ser from_json env seen_secs bytes st =
      (STATUS_OK, (drop_frame P reason ^^ Suc k) st) \<and> reason \<in> set DROP_REASONS"
proof (cases "from_json bytes")
  case (Inl e)
  then have "telemetry P hexd ex ser from_json env seen_secs bytes st =
      (STATUS_OK, (drop_frame P ''bad_json'' ^^ Suc 0) st)"
    by (simp add: telemetry_def)
  moreover have "''bad_json'' \<in> set DROP_REASONS" by (simp add: DROP_REASONS_def)
  ultimately show ?thesis by blast
next
  case (Inr body)
  define k where "k = max (length (tb_data body)) 1 - 1"
  have k: "max (length (tb_data body)) 1 = Suc k" by (simp add: k_def)
  have known: "''serial_rejected'' \<in> set DROP_REASONS" "''device_limit'' \<in> set DROP_REASONS"
    by (simp_all add: DROP_REASONS_def)
  show ?thesis
  proof (cases "accept_serial (app_config st) (tb_sn body)")
    case False
    then have "telemetry P hexd ex ser from_json env seen_secs bytes st =
        (STATUS_OK, (drop_frame P ''serial_rejected'' ^^ Suc k) st)"
      by (simp add: telemetry_def Inr k del: funpow.simps One_nat_def)
    then show ?thesis using known(1) by blast
  next
    case True
    then obtain m where m: "admit (tb_sn body) (app_metrics st) = (False, m)"
      using assms Inr by (cases "admit (tb_sn body) (app_metrics st)") (simp add: refused_def)
    then have "m = app_metrics st" by (auto simp: admit_def split: if_splits)
    then have "telemetry P hexd ex ser from_json env seen_secs bytes st =
        (STATUS_OK, (drop_frame P ''device_limit'' ^^ Suc k) st)"
      using True m by (simp add: telemetry_def Inr k del: funpow.simps One_nat_def)
    then show ?thesis using known(2) by blast
  qed
qed


text \<open>A body whose serial holds the separator of the pair keys, sent to a fresh server.\<close>

definition intruder_body :: telemetry_body where
  "intruder_body = \<lparr> tb_device_name = ''dev'', tb_sn = ''A|B'', tb_data =
     [\<lparr> de_command = ''D2030000007ED649'', de_data = ''00'', de_timestamp = None \<rparr>] \<rparr>"


section \<open>What admission alone leaves behind\<close>

text \<open>The time of the last frame is stamped for every admitted body, also one without a frame.\<close>

lemma empty_body_stamped:
  assumes "prometheus P" and "from_json bytes = Inr body" and "accept_serial (app_config st) (tb_sn body)"
    and "fst (admit (tb_sn body) (app_metrics st))" and "tb_data body = []"
  shows "pm_sample P (m_store (app_metrics (snd (telemetry P hexd ex ser from_json env now bytes st))))
    (Ex Last_frame_timestamp) [tb_sn body] = Some now"
  using assms(2-)
  by (auto simp: telemetry_def mark_seen_def prometheus.sample_set [OF assms(1)] split: prod.split)

text \<open>Reading the rated capacity of a device that never sent a configuration frame creates the
  series, with the value zero.\<close>

lemma capacity_hint_creates_series:
  assumes "prometheus P" and "pm_sample P s (Cf Rated_capacity) [sn] = None"
  shows "fst (rated_capacity_hint P sn s) = None"
    and "pm_sample P (snd (rated_capacity_hint P sn s)) (Cf Rated_capacity) [sn] = Some 0"
  using assms(2)
  by (simp_all add: rated_capacity_hint_def Let_def prometheus.sample_touch [OF assms(1)]
      prometheus.get_sample [OF assms(1)])

section \<open>Requests as runs\<close>

definition system_of :: "('s, 'b) app_state \<Rightarrow> ('s, 'b) system" where
  "system_of st = \<lparr> sy_metrics = app_metrics st, sy_flight = Idle, sy_disk = app_disk st \<rparr>"

lemma system_of_update [simp]:
  "system_of (st\<lparr> app_metrics := m \<rparr>) = \<lparr> sy_metrics = m, sy_flight = Idle, sy_disk = app_disk st \<rparr>"
  "system_of (st\<lparr> app_metrics := m, app_disk := d \<rparr>) = \<lparr> sy_metrics = m, sy_flight = Idle, sy_disk = d \<rparr>"
  by (simp_all add: system_of_def)

text \<open>The numbers a flush of the request would serialize are finite.\<close>

definition flush_finite :: "'s prom_api \<Rightarrow> (f64 \<Rightarrow> f64) \<Rightarrow> frame_env \<Rightarrow> string \<Rightarrow> realtime_data \<Rightarrow> 's metrics \<Rightarrow> bool" where
  "flush_finite P ex env sn d m = (case accumulate_coulombs P ex sn d (fe_now_secs env) m of
     None \<Rightarrow> True | Some m' \<Rightarrow> state_finite (fst (flush_state P m')))"

definition entry_finite ::
  "'s prom_api \<Rightarrow> (string \<Rightarrow> 'h + u8 list) \<Rightarrow> (f64 \<Rightarrow> f64) \<Rightarrow> frame_env \<Rightarrow> string \<Rightarrow> string \<Rightarrow>
   ('s, 'b) app_state \<Rightarrow> bool" where
  "entry_finite P hexd ex env sn data st = (case parse_response hexd data of Inl e \<Rightarrow> True
     | Inr regs \<Rightarrow> let d = realtime_from_registers regs
         in flush_finite P ex env sn d (update_realtime P sn d (app_metrics st)))"

fun entries_finite ::
  "'s prom_api \<Rightarrow> (string \<Rightarrow> 'h + u8 list) \<Rightarrow> (f64 \<Rightarrow> f64) \<Rightarrow> (coulomb_state \<Rightarrow> 'b option) \<Rightarrow>
   (nat \<Rightarrow> frame_env) \<Rightarrow> string \<Rightarrow> nat \<Rightarrow> data_entry list \<Rightarrow> ('s, 'b) app_state \<Rightarrow> bool" where
  "entries_finite P hexd ex ser env sn i [] st = True"
| "entries_finite P hexd ex ser env sn i (entry # entries) st =
     (entry_finite P hexd ex (env i) sn (de_data entry) st
      \<and> entries_finite P hexd ex ser env sn (Suc i) entries
          (case handle_entry P hexd ex ser (env i) sn (de_command entry) (de_data entry) st of
             (Inl reason, st) \<Rightarrow> drop_frame P reason st
           | (Inr _, st) \<Rightarrow> st))"

definition request_finite ::
  "'s prom_api \<Rightarrow> (string \<Rightarrow> 'h + u8 list) \<Rightarrow> (f64 \<Rightarrow> f64) \<Rightarrow> (coulomb_state \<Rightarrow> 'b option) \<Rightarrow>
   ('d \<Rightarrow> 'j + telemetry_body) \<Rightarrow> (nat \<Rightarrow> frame_env) \<Rightarrow> 'd \<Rightarrow> ('s, 'b) app_state \<Rightarrow> bool" where
  "request_finite P hexd ex ser from_json env bytes st = (case from_json bytes of Inl e \<Rightarrow> True
     | Inr body \<Rightarrow> entries_finite P hexd ex ser env (tb_sn body) 0 (tb_data body)
         (st\<lparr> app_metrics := snd (admit (tb_sn body) (app_metrics st)) \<rparr>))"

context exporter
begin

abbreviation reach :: "('s, 'b) system \<Rightarrow> bool" where
  "reach \<equiv> sys_reach P ex ser de opts path"

abbreviation run :: "('s, 'b) system \<Rightarrow> ('s, 'b) system \<Rightarrow> bool" where
  "run \<equiv> (sys_step P ex ser de opts path)\<^sup>*\<^sup>*"

abbreviation idle :: "'s metrics \<Rightarrow> 'b disk \<Rightarrow> ('s, 'b) system" where
  "idle m d \<equiv> \<lparr> sy_metrics = m, sy_flight = Idle, sy_disk = d \<rparr>"

lemma reach_run: "run s s' \<Longrightarrow> reach s \<Longrightarrow> reach s'"
  by (induction rule: rtranclp_induct) (auto intro: sys_reach_step)

lemma flush_run:
  assumes "reach (idle m d)" and "state_finite (fst (flush_state P m))" and "syncs_directories io"
    and "flush_coulomb_state P ser force now_secs now io (m, d) = (m', d')"
  shows "run (idle m d) (idle m' d')"
proof -
  have opts: "mo_coulomb_state_path (m_opts m) = Some path"
    using ok_opts [OF reach_ok [OF assms(1)]] state_path by simp
  obtain r m1 where p1: "flush_phase1 P ser force now_secs now m = (r, m1)" by fastforce
  show ?thesis
  proof (cases r)
    case None
    have "sys_step P ex ser de opts path (idle m d) ((idle m d)\<lparr> sy_metrics := m1 \<rparr>)"
      by (rule sys_no_flush) (use p1 None in simp)
    then show ?thesis using assms(4) opts p1 None by (simp add: flush_coulomb_state_def)
  next
    case (Some bs)
    obtain b snap where bs: "bs = (b, snap)" by fastforce
    obtain written trace m2 where p2: "flush_phase2 P path b io d m1 = (written, trace, m2)"
      using prod_cases3 by blast
    let ?s1 = "(idle m d)\<lparr> sy_metrics := m1, sy_flight := Writing b snap \<rparr>"
    let ?s2 = "\<lparr> sy_metrics = m2, sy_flight = Written written snap, sy_disk = last trace \<rparr>"
    let ?s3 = "?s2\<lparr> sy_metrics := flush_phase3 P written snap now_secs now (sy_metrics ?s2), sy_flight := Idle \<rparr>"
    have "sys_step P ex ser de opts path (idle m d) ?s1"
      by (rule sys_begin) (use p1 assms(2) in \<open>simp_all add: Some bs\<close>)
    moreover have "sys_step P ex ser de opts path ?s1 ?s2"
      by (rule sys_write) (use p2 assms(3) in simp_all)
    moreover have "sys_step P ex ser de opts path ?s2 ?s3"
      by (rule sys_finish) simp
    ultimately have "run (idle m d) ?s3" by (meson r_into_rtranclp rtranclp_trans)
    moreover have "?s3 = idle m' d'"
      using assms(4) opts p1 p2 by (simp add: flush_coulomb_state_def Some bs)
    ultimately show ?thesis by simp
  qed
qed

lemma step_run: "sys_step P ex ser de opts path s t \<Longrightarrow> run t u \<Longrightarrow> run s u"
  by (rule converse_rtranclp_into_rtranclp)

lemma accumulate_run:
  assumes "reach (idle m d)" and "flush_finite P ex env sn dd m" and "syncs_directories (fe_io env)"
    and "accumulate_and_flush P ex ser env sn dd (m, d) = (m', d')"
  shows "run (idle m d) (idle m' d')"
proof (cases "accumulate_coulombs P ex sn dd (fe_now_secs env) m")
  case None
  then show ?thesis using assms(4) by (simp add: accumulate_and_flush_def)
next
  case (Some m1)
  have s: "sys_step P ex ser de opts path (idle m d) (idle m1 d)"
    using sys_accumulate [of P ex sn dd "fe_now_secs env" "idle m d" m1] Some by simp
  then have "reach (idle m1 d)" using assms(1) by (blast intro: sys_reach_step)
  then show ?thesis
    using flush_run [of m1 d "fe_io env"] assms(2-4) Some
    by (intro step_run [OF s]) (auto simp: accumulate_and_flush_def flush_finite_def)
qed

lemma realtime_run:
  assumes "reach (idle m d)" and "flush_finite P ex env sn dd (update_realtime P sn dd m)"
    and "syncs_directories (fe_io env)"
    and "realtime_frame P ex ser env sn dd (m, d) = (m', d')"
  shows "run (idle m d) (idle m' d')"
proof -
  let ?m = "update_realtime P sn dd m"
  obtain m1 where a: "accumulate_and_flush P ex ser env sn dd (?m, d) = (m1, d')"
    and m': "m' = record_decoded P ''realtime'' m1"
    using assms(4) by (auto simp: realtime_frame_def Let_def split: prod.splits)
  have s: "sys_step P ex ser de opts path (idle m d) (idle ?m d)"
    using sys_realtime [of P ex ser de opts path "idle m d" sn dd] by simp
  then have "reach (idle ?m d)" using assms(1) by (blast intro: sys_reach_step)
  then have "run (idle ?m d) (idle m1 d')" using accumulate_run assms(2,3) a by blast
  moreover have "sys_step P ex ser de opts path (idle m1 d') (idle m' d')"
    using sys_decoded [of P ex ser de opts path "idle m1 d'" "''realtime''"] m' by simp
  ultimately show ?thesis using step_run [OF s] by (meson rtranclp.rtrancl_into_rtrancl)
qed

lemma drop_run: "run (system_of st) (system_of (drop_frame P reason st))"
  using sys_dropped [of P ex ser de opts path "system_of st" reason]
  by (auto simp: drop_frame_def system_of_def intro!: r_into_rtranclp)

lemma drops_run: "run (system_of st) (system_of ((drop_frame P reason ^^ k) st))"
proof (induction k)
  case (Suc k)
  then show ?case using drop_run by (auto intro: rtranclp_trans)
qed simp

lemma config_run: "run (idle m d) (idle (config_frame P sn c m) d)"
proof -
  have "sys_step P ex ser de opts path (idle m d) (idle (update_config P sn c m) d)"
    using sys_config [of P ex ser de opts path "idle m d" sn c] by simp
  moreover have "sys_step P ex ser de opts path (idle (update_config P sn c m) d) (idle (config_frame P sn c m) d)"
    using sys_decoded [of P ex ser de opts path "idle (update_config P sn c m) d" "''config''"]
    by (simp add: config_frame_def)
  ultimately show ?thesis by (meson r_into_rtranclp rtranclp_trans)
qed

lemma entry_run:
  assumes "reach (system_of st)" and "entry_finite P hexd ex env sn data st"
    and "syncs_directories (fe_io env)"
    and "handle_entry P hexd ex ser env sn command data st = (r, st')"
  shows "run (system_of st) (system_of st')"
proof (cases r)
  case (Inl reason)
  then have "st' = st"
    using assms(4) entry_verdict [where hexd = hexd and P = P and ex = ex and ser = ser and env = env and sn = sn
        and command = command and data = data and st = st] by simp
  then show ?thesis by simp
next
  case (Inr u)
  then obtain regs where regs: "parse_response hexd data = Inr regs"
    and cs: "(app_metrics st', app_disk st') =
          realtime_frame P ex ser env sn (realtime_from_registers regs) (app_metrics st, app_disk st)
      \<or> st' = st\<lparr> app_metrics := config_frame P sn (config_from_registers regs) (app_metrics st) \<rparr>"
    using assms(4) entry_verdict [where hexd = hexd and P = P and ex = ex and ser = ser and env = env and sn = sn
        and command = command and data = data and st = st] by auto
  from cs show ?thesis
  proof
    assume f: "(app_metrics st', app_disk st') =
      realtime_frame P ex ser env sn (realtime_from_registers regs) (app_metrics st, app_disk st)"
    show ?thesis
      using realtime_run [OF _ _ assms(3) f [symmetric]] assms(1,2) regs
      by (simp add: system_of_def entry_finite_def Let_def)
  next
    assume "st' = st\<lparr> app_metrics := config_frame P sn (config_from_registers regs) (app_metrics st) \<rparr>"
    then show ?thesis using config_run by (simp add: system_of_def)
  qed
qed

lemma entries_run:
  assumes "reach (system_of st)" and "entries_finite P hexd ex ser env sn i entries st"
    and "\<And>i. syncs_directories (fe_io (env i))"
  shows "run (system_of st) (system_of (handle_entries P hexd ex ser env sn i entries st))"
  using assms(1,2)
proof (induction entries arbitrary: i st)
  case (Cons entry entries)
  obtain r st1 where e: "handle_entry P hexd ex ser (env i) sn (de_command entry) (de_data entry) st = (r, st1)"
    by fastforce
  let ?st = "case r of Inl reason \<Rightarrow> drop_frame P reason st1 | Inr _ \<Rightarrow> st1"
  have fin: "entry_finite P hexd ex (env i) sn (de_data entry) st"
    "entries_finite P hexd ex ser env sn (Suc i) entries ?st"
    using Cons.prems(2) by (simp_all add: e)
  have "run (system_of st) (system_of st1)" using entry_run [OF Cons.prems(1) fin(1) assms(3) e] .
  moreover have "run (system_of st1) (system_of ?st)" using drop_run by (cases r) simp_all
  ultimately have run: "run (system_of st) (system_of ?st)" by (rule rtranclp_trans)
  then have "reach (system_of ?st)" using Cons.prems(1) by (rule reach_run)
  from Cons.IH [OF this fin(2)] run show ?case by (simp add: e rtranclp_trans)
qed simp

lemma telemetry_run:
  assumes "reach (system_of st)" and "request_finite P hexd ex ser from_json env bytes st"
    and "\<And>i. syncs_directories (fe_io (env i))"
    and "telemetry P hexd ex ser from_json env seen_secs bytes st = (status, st')"
  shows "status = STATUS_OK \<and> run (system_of st) (system_of st')"
proof (cases "refused from_json bytes st")
  case True
  then show ?thesis
    using refused_telemetry [OF True, of P hexd ex ser env seen_secs] assms(4) drops_run
    by (auto simp del: funpow.simps)
next
  case False
  then obtain body m where body: "from_json bytes = Inr body" "accept_serial (app_config st) (tb_sn body)"
    and m: "admit (tb_sn body) (app_metrics st) = (True, m)"
    by (cases "from_json bytes"; cases "admit (tb_sn (projr (from_json bytes))) (app_metrics st)")
      (auto simp: refused_def)
  let ?st1 = "st\<lparr> app_metrics := m \<rparr>"
  let ?st2 = "handle_entries P hexd ex ser env (tb_sn body) 0 (tb_data body) ?st1"
  have st': "status = STATUS_OK" "st' = ?st2\<lparr> app_metrics := mark_seen P (tb_sn body) seen_secs (app_metrics ?st2) \<rparr>"
    using assms(4) body m by (simp_all add: telemetry_def Let_def)
  have one: "run (system_of st) (system_of ?st1)"
    using sys_admit [of P ex ser de opts path "system_of st" "tb_sn body"] m
    by (auto simp: system_of_def intro!: r_into_rtranclp)
  have two: "run (system_of ?st1) (system_of ?st2)"
    by (rule entries_run [OF reach_run [OF one assms(1)] _ assms(3)])
      (use assms(2) body m in \<open>simp add: request_finite_def\<close>)
  have three: "run (system_of ?st2) (system_of st')"
    using sys_seen [of P ex ser de opts path "system_of ?st2" "tb_sn body" seen_secs]
    by (auto simp: st' system_of_def intro!: r_into_rtranclp)
  show ?thesis using one two three st'(1) by (blast intro: rtranclp_trans)
qed

end

end
