(* ===== verification/Accounting.thy ===== *)
theory Accounting
  imports Router Server_Facts
begin

text \<open>
  The exporter's own counters: every Modbus pair of every body is counted once, as decoded or as
  dropped, and every response of the server is counted once, under one of five endpoint labels.
  Both rest on the frames of the operations (\<open>only\<close> of \<open>Store_Facts\<close>): nothing but the counting
  itself writes these series.
\<close>

section \<open>Verdicts\<close>

text \<open>What becomes of one Modbus pair: decoded as a block, or dropped for a reason.\<close>

datatype verdict = Decoded string | Dropped string

definition known_verdicts :: "verdict set" where
  "known_verdicts = {Decoded ''realtime'', Decoded ''config''} \<union> Dropped ` set DROP_REASONS"

text \<open>A counter after \<open>n\<close> increments by one.\<close>

definition tally :: "f64 \<Rightarrow> nat \<Rightarrow> f64" where
  "tally v n = ((\<lambda>x. x + 1) ^^ n) v"

lemma tally_0 [simp]: "tally v 0 = v"
  by (simp add: tally_def)

lemma tally_Suc: "tally v (Suc n) = tally v n + 1"
  by (simp add: tally_def)

lemma tally_add: "tally v (m + n) = tally (tally v m) n"
  by (induction n) (simp_all add: tally_Suc)

text \<open>The two counters of frames after the verdicts \<open>vs\<close>.\<close>

definition accounts :: "'s prom_api \<Rightarrow> verdict list \<Rightarrow> 's \<Rightarrow> 's \<Rightarrow> bool" where
  "accounts P vs s s' \<longleftrightarrow>
     (\<forall>b. series_value P s' (Ex Frames_decoded) [b] =
        tally (series_value P s (Ex Frames_decoded) [b]) (count_list vs (Decoded b)))
   \<and> (\<forall>r. series_value P s' (Ex Frames_dropped) [r] =
        tally (series_value P s (Ex Frames_dropped) [r]) (count_list vs (Dropped r)))"

lemma count_list_append: "count_list (xs @ ys) x = count_list xs x + count_list ys x"
  by (induction xs) simp_all

lemma accounts_append:
  "accounts P vs s t \<Longrightarrow> accounts P ws t u \<Longrightarrow> accounts P (vs @ ws) s u"
  by (simp add: accounts_def count_list_append tally_add)

lemma accounts_only:
  "writes P W T s s' \<Longrightarrow> Ex Frames_decoded \<notin> W \<Longrightarrow> Ex Frames_dropped \<notin> W \<Longrightarrow> accounts P [] s s'"
  by (simp add: accounts_def writesD)

context prometheus
begin

lemma accounts_decoded: "accounts P [Decoded b] (m_store m) (m_store (record_decoded P b m))"
  by (auto simp: accounts_def record_decoded_def series_value_def sample_inc tally_Suc)

lemma accounts_dropped: "accounts P [Dropped r] (m_store m) (m_store (record_dropped P r m))"
  by (auto simp: accounts_def record_dropped_def series_value_def sample_inc tally_Suc)

text \<open>The frame of an accepted realtime frame short of its count.\<close>

abbreviation quiet :: "family set" where
  "quiet \<equiv> - {Ex Frames_decoded, Ex Frames_dropped, Ex Http_requests}"

lemma only_realtime_frame:
  assumes "realtime_frame P ex ser env sn d (m, disk) = (m', disk')"
  shows "\<exists>m1. m' = record_decoded P ''realtime'' m1 \<and> only P quiet (m_store m) (m_store m1)"
proof -
  let ?m = "update_realtime P sn d m"
  obtain m1 where a: "accumulate_and_flush P ex ser env sn d (?m, disk) = (m1, disk')"
    and m': "m' = record_decoded P ''realtime'' m1"
    using assms by (auto simp: realtime_frame_def Let_def split: prod.splits)
  have one: "only P quiet (m_store m) (m_store ?m)" by (rule writes_mono [OF writes_update_realtime]) auto
  have two: "only P quiet (m_store ?m) (m_store m1)"
  proof (cases "accumulate_coulombs P ex sn d (fe_now_secs env) ?m")
    case None
    then show ?thesis using a by (simp add: accumulate_and_flush_def)
  next
    case (Some m2)
    have "only P quiet (m_store ?m) (m_store m2)" by (rule writes_mono [OF writes_accumulate [OF Some]]) auto
    moreover have "flush_coulomb_state P ser False (fe_flush_secs env) (fe_now env) (fe_io env) (m2, disk) = (m1, disk')"
      using a Some by (simp add: accumulate_and_flush_def)
    then have "only P quiet (m_store m2) (m_store m1)" by (rule writes_mono [OF writes_flush]) auto
    ultimately show ?thesis by (rule writes_trans)
  qed
  show ?thesis using m' writes_trans [OF one two] by blast
qed

end

abbreviation store_of :: "('s, 'b) app_state \<Rightarrow> 's" where
  "store_of st \<equiv> m_store (app_metrics st)"

context prometheus
begin

lemma counted:
  assumes "only P quiet s (m_store m)"
  shows "accounts P [Decoded b] s (m_store (record_decoded P b m))"
    and "accounts P [Dropped r] s (m_store (record_dropped P r m))"
    and "only P (- {Ex Http_requests}) s (m_store (record_decoded P b m))"
    and "only P (- {Ex Http_requests}) s (m_store (record_dropped P r m))"
proof -
  have a: "accounts P [] s (m_store m)" by (rule accounts_only [OF assms]) simp_all
  have o: "only P (- {Ex Http_requests}) s (m_store m)" by (rule writes_mono [OF assms]) auto
  show "accounts P [Decoded b] s (m_store (record_decoded P b m))"
    and "accounts P [Dropped r] s (m_store (record_dropped P r m))"
    using accounts_append [OF a accounts_decoded] accounts_append [OF a accounts_dropped] by simp_all
  show "only P (- {Ex Http_requests}) s (m_store (record_decoded P b m))"
    and "only P (- {Ex Http_requests}) s (m_store (record_dropped P r m))"
    using o by (simp_all add: record_decoded_def record_dropped_def writes_inc)
qed

lemma entry_counted:
  assumes "handle_entry P hexd ex ser env sn command data st = (r, st1)"
    and "st' = (case r of Inl reason \<Rightarrow> drop_frame P reason st1 | Inr _ \<Rightarrow> st1)"
  shows "\<exists>v\<in>known_verdicts. accounts P [v] (store_of st) (store_of st')
    \<and> only P (- {Ex Http_requests}) (store_of st) (store_of st')"
proof -
  note ev = entry_verdict [where hexd = hexd and P = P and ex = ex and ser = ser and env = env and sn = sn
      and command = command and data = data and st = st]
  show ?thesis
  proof (cases r)
    case (Inl reason)
    then have "st' = drop_frame P reason st" "reason \<in> set DROP_REASONS"
      using ev assms by simp_all
    then show ?thesis
      using counted(2,4) [where m = "app_metrics st" and r = reason, OF writes_refl]
      by (intro bexI [of _ "Dropped reason"]) (simp_all add: drop_frame_def known_verdicts_def)
  next
    case (Inr u)
    then have st': "st' = st1" using assms(2) by simp
    have "(\<exists>d. (app_metrics st1, app_disk st1) = realtime_frame P ex ser env sn d (app_metrics st, app_disk st))
      \<or> (\<exists>c. st1 = st\<lparr> app_metrics := config_frame P sn c (app_metrics st) \<rparr>)"
      using ev assms(1) Inr by auto
    then show ?thesis
    proof (elim disjE exE)
      fix d assume "(app_metrics st1, app_disk st1) = realtime_frame P ex ser env sn d (app_metrics st, app_disk st)"
      from only_realtime_frame [OF this [symmetric]] obtain m1
        where "app_metrics st1 = record_decoded P ''realtime'' m1" "only P quiet (store_of st) (m_store m1)" by blast
      then show ?thesis
        using counted(1,3) st' by (intro bexI [of _ "Decoded ''realtime''"]) (auto simp: known_verdicts_def)
    next
      fix c assume c: "st1 = st\<lparr> app_metrics := config_frame P sn c (app_metrics st) \<rparr>"
      have "only P quiet (store_of st) (m_store (update_config P sn c (app_metrics st)))"
        by (rule writes_mono [OF writes_update_config]) auto
      from counted(1,3) [OF this] show ?thesis
        using st' c by (intro bexI [of _ "Decoded ''config''"]) (auto simp: known_verdicts_def config_frame_def)
    qed
  qed
qed

lemma entries_counted:
  "\<exists>vs. length vs = length entries \<and> set vs \<subseteq> known_verdicts
    \<and> accounts P vs (store_of st) (store_of (handle_entries P hexd ex ser env sn i entries st))
    \<and> only P (- {Ex Http_requests}) (store_of st) (store_of (handle_entries P hexd ex ser env sn i entries st))"
proof (induction entries arbitrary: i st)
  case Nil
  then show ?case by (simp add: accounts_def)
next
  case (Cons entry entries)
  obtain r st1 where e: "handle_entry P hexd ex ser (env i) sn (de_command entry) (de_data entry) st = (r, st1)"
    by fastforce
  define st2 where "st2 = (case r of Inl reason \<Rightarrow> drop_frame P reason st1 | Inr _ \<Rightarrow> st1)"
  obtain v where v: "v \<in> known_verdicts" "accounts P [v] (store_of st) (store_of st2)"
    "only P (- {Ex Http_requests}) (store_of st) (store_of st2)"
    using entry_counted [OF e st2_def] by blast
  from Cons.IH [of st2 "Suc i"] obtain vs where "length vs = length entries" "set vs \<subseteq> known_verdicts"
    "accounts P vs (store_of st2) (store_of (handle_entries P hexd ex ser env sn (Suc i) entries st2))"
    "only P (- {Ex Http_requests}) (store_of st2) (store_of (handle_entries P hexd ex ser env sn (Suc i) entries st2))"
    by blast
  then show ?case
    using v accounts_append [OF v(2)] writes_trans [OF v(3)]
    by (intro exI [of _ "v # vs"]) (simp add: e st2_def)
qed

lemma drops_counted:
  "accounts P (replicate k (Dropped r)) (store_of st) (store_of ((drop_frame P r ^^ k) st))
   \<and> only P (- {Ex Http_requests}) (store_of st) (store_of ((drop_frame P r ^^ k) st))"
proof (induction k)
  case 0
  then show ?case by (simp add: accounts_def)
next
  case (Suc k)
  let ?t = "(drop_frame P r ^^ k) st"
  note one = counted(2,4) [where m = "app_metrics ?t" and r = r, OF writes_refl]
  have "replicate (Suc k) (Dropped r) = replicate k (Dropped r) @ [Dropped r]"
    by (simp add: replicate_append_same)
  moreover have "store_of (drop_frame P r ?t) = m_store (record_dropped P r (app_metrics ?t))"
    by (simp add: drop_frame_def)
  ultimately show ?case
    using accounts_append [OF conjunct1 [OF Suc] one(1)] writes_trans [OF conjunct2 [OF Suc] one(2)]
    by (simp del: replicate_Suc)
qed

end

text \<open>The verdicts a body may get: one per pair when it is accepted, one drop per pair and at least
  one when it is refused.\<close>

definition verdicts_fit ::
  "('d \<Rightarrow> 'j + telemetry_body) \<Rightarrow> 'd \<Rightarrow> ('s, 'b) app_state \<Rightarrow> verdict list \<Rightarrow> bool" where
  "verdicts_fit from_json bytes st vs = (case from_json bytes of
       Inl e \<Rightarrow> vs = [Dropped ''bad_json'']
     | Inr body \<Rightarrow>
         if \<not> accept_serial (app_config st) (tb_sn body)
         then vs = replicate (max (length (tb_data body)) 1) (Dropped ''serial_rejected'')
         else if \<not> fst (admit (tb_sn body) (app_metrics st))
         then vs = replicate (max (length (tb_data body)) 1) (Dropped ''device_limit'')
         else length vs = length (tb_data body))"

context prometheus
begin

lemma admitted_counted:
  assumes "m_store (app_metrics st1) = store_of st"
    and "st2 = handle_entries P hexd ex ser env sn i entries st1"
    and "st' = st2\<lparr> app_metrics := mark_seen P sn seen_secs (app_metrics st2) \<rparr>"
  shows "\<exists>vs. length vs = length entries \<and> set vs \<subseteq> known_verdicts
    \<and> accounts P vs (store_of st) (store_of st')
    \<and> only P (- {Ex Http_requests}) (store_of st) (store_of st')"
proof -
  obtain vs where vs: "length vs = length entries" "set vs \<subseteq> known_verdicts"
    "accounts P vs (store_of st) (store_of st2)" "only P (- {Ex Http_requests}) (store_of st) (store_of st2)"
    using entries_counted [where entries = entries and st = st1 and hexd = hexd and ex = ex and ser = ser
        and env = env and sn = sn and i = i] by (auto simp: assms(1,2))
  note seen = writes_mark_seen [where m = "app_metrics st2" and sn = sn and t = seen_secs]
  have "accounts P (vs @ []) (store_of st) (store_of st')"
    using accounts_append [OF vs(3) accounts_only [OF seen]] assms(3) by simp
  moreover have "only P (- {Ex Http_requests}) (store_of st) (store_of st')"
    using writes_trans [OF vs(4) writes_mono [OF seen]] assms(3) by simp
  ultimately show ?thesis using vs(1,2) by auto
qed

lemma telemetry_counted:
  assumes "telemetry P hexd ex ser from_json env seen_secs bytes st = (status, st')"
  shows "\<exists>vs. verdicts_fit from_json bytes st vs \<and> set vs \<subseteq> known_verdicts
    \<and> accounts P vs (store_of st) (store_of st')
    \<and> only P (- {Ex Http_requests}) (store_of st) (store_of st')"
proof -
  have drops: "\<exists>vs. vs = replicate k (Dropped r) \<and> set vs \<subseteq> known_verdicts
      \<and> accounts P vs (store_of st) (store_of st') \<and> only P (- {Ex Http_requests}) (store_of st) (store_of st')"
    if "st' = (drop_frame P r ^^ k) st" "r \<in> set DROP_REASONS" for r k
    using drops_counted [where k = k and r = r and st = st] that by (auto simp: known_verdicts_def)
  have known: "set [''bad_json'', ''serial_rejected'', ''device_limit''] \<subseteq> set DROP_REASONS"
    by (simp add: DROP_REASONS_def)
  show ?thesis
  proof (cases "from_json bytes")
    case (Inl e)
    then have "st' = (drop_frame P ''bad_json'' ^^ 1) st" using assms by (simp add: telemetry_def)
    from drops [OF this] show ?thesis using known Inl by (auto simp: verdicts_fit_def)
  next
    case (Inr body)
    let ?k = "max (length (tb_data body)) 1"
    obtain ok m where a: "admit (tb_sn body) (app_metrics st) = (ok, m)" by fastforce
    consider "\<not> accept_serial (app_config st) (tb_sn body)"
      | "accept_serial (app_config st) (tb_sn body)" "\<not> ok"
      | "accept_serial (app_config st) (tb_sn body)" ok by blast
    then show ?thesis
    proof cases
      case 1
      then have "st' = (drop_frame P ''serial_rejected'' ^^ ?k) st"
        using assms Inr by (simp add: telemetry_def)
      from drops [OF this] show ?thesis using known Inr 1 by (auto simp: verdicts_fit_def)
    next
      case 2
      then have "m = app_metrics st" using a by (auto simp: admit_def split: if_splits)
      then have "st' = (drop_frame P ''device_limit'' ^^ ?k) st"
        using assms Inr 2 a by (simp add: telemetry_def)
      from drops [OF this] show ?thesis using known Inr 2 a by (auto simp: verdicts_fit_def)
    next
      case 3
      have "m_store (app_metrics (st\<lparr> app_metrics := m \<rparr>)) = store_of st"
        using a by (auto simp: admit_def split: if_splits)
      note counted = admitted_counted [OF this refl refl, where hexd = hexd and ex = ex and ser = ser and env = env
          and sn = "tb_sn body" and i = 0 and entries = "tb_data body" and seen_secs = seen_secs]
      show ?thesis
        using counted assms Inr 3 a by (auto simp: telemetry_def Let_def verdicts_fit_def)
    qed
  qed
qed

lemma telemetry_only:
  assumes "telemetry P hexd ex ser from_json env seen_secs bytes st = (status, st')"
  shows "only P (- {Ex Http_requests}) (store_of st) (store_of st')"
  using telemetry_counted [OF assms] by blast

text \<open>Requests other than a telemetry post change nothing before they are counted.\<close>

lemma run_outcome_facts:
  assumes "run_outcome X rq st = (resp, st')" and "x_prom X = P"
  shows "only P (- {Ex Http_requests}) (store_of st) (store_of st')
    \<and> ((\<forall>bytes. rq_outcome rq \<noteq> Handled Telemetry bytes) \<longrightarrow> st' = st)"
  using assms telemetry_only
  by (auto simp: run_outcome_def Let_def split: outcome.splits endpoint.splits prod.splits)

end

section \<open>Accounting\<close>


definition ENDPOINTS :: "string list" where
  "ENDPOINTS = [''telemetry'', ''registration'', ''metrics'', ''healthz'', ''other'']"

text \<open>C9: Every response is counted exactly once, under its final status and one of five endpoint
  labels whatever path was asked for, so probing paths creates no series of its own; a request that
  runs no telemetry handler changes no other series, no device record and no file.\<close>

theorem responses_counted:
  assumes "prometheus (x_prom X)" and "serve X rq st = (resp, st')"
  shows "endpoint_of (app_config st) (rq_path rq) \<in> set ENDPOINTS
    \<and> series_value (x_prom X) (store_of st') (Ex Http_requests) ls =
        (let v = series_value (x_prom X) (store_of st) (Ex Http_requests) ls
         in if ls = [endpoint_of (app_config st) (rq_path rq), digits (rs_status resp)] then v + 1 else v)
    \<and> ((\<exists>bytes. rq_outcome rq = Handled Telemetry bytes)
       \<or> only (x_prom X) {Ex Http_requests} (store_of st) (store_of st')
         \<and> m_shared (app_metrics st') = m_shared (app_metrics st) \<and> app_disk st' = app_disk st)"
proof -
  let ?P = "x_prom X" and ?e = "endpoint_of (app_config st) (rq_path rq)"
  obtain st1 where r: "run_outcome X rq st = (resp, st1)"
    and st': "st' = st1\<lparr> app_metrics := record_request ?P ?e (rs_status resp) (app_metrics st1) \<rparr>"
    using assms(2) by (auto simp: serve_def record_metrics_def Let_def split: prod.splits)
  note facts = prometheus.run_outcome_facts [OF assms(1) r refl]
  have "series_value ?P (store_of st1) (Ex Http_requests) ls = series_value ?P (store_of st) (Ex Http_requests) ls"
    using facts by (simp add: writes_def)
  moreover have "series_value ?P (store_of st') (Ex Http_requests) ls =
      (if ls = [?e, digits (rs_status resp)] then series_value ?P (store_of st1) (Ex Http_requests) ls + 1
       else series_value ?P (store_of st1) (Ex Http_requests) ls)"
    by (simp add: st' record_request_def series_value_def prometheus.sample_inc [OF assms(1)])
  moreover have "?e \<in> set ENDPOINTS" by (simp add: endpoint_of_def ENDPOINTS_def)
  moreover have "only ?P {Ex Http_requests} (store_of st1) (store_of st')"
    using writes_mono [OF prometheus.writes_records(1) [OF assms(1)], of "{Ex Http_requests}" UNIV] by (simp add: st')
  ultimately show ?thesis
    using facts by (auto simp: st' Let_def record_request_def)
qed

text \<open>The witnesses: the body with a forged serial, and a request for a path that does not exist.\<close>

definition demo_externals :: "(series, hex_error, coulomb_state, telemetry_body, unit) externals" where
  "demo_externals = \<lparr> x_prom = map_registry, x_hex = hex_decode_ref, x_exp = (\<lambda>_. 0), x_ser = Some,
     x_de = Some, x_json = Inr, x_encoder = \<lparr> en_encode = (\<lambda>_. []), en_format_type = ''text/plain'' \<rparr>,
     x_utf8 = (\<lambda>_. Some ''''), x_header = (\<lambda>_. True) \<rparr>"

definition fresh_app :: "(series, coulomb_state) app_state" where
  "fresh_app = \<lparr> app_config = config_default, app_metrics = demo_metrics, app_disk = empty_disk \<rparr>"

lemma intruder_serial: "\<not> is_plausible_serial (tb_sn intruder_body)"
proof -
  have "\<not> is_ascii_alphanumeric CHR ''|''" by code_simp
  then show ?thesis by (simp add: intruder_body_def is_plausible_serial_def)
qed


lemma responses_counted_witness:
  "series_value map_registry (store_of (snd (serve demo_externals
      \<lparr> rq_path = ''/nope'', rq_outcome = Answered 404, rq_env = (\<lambda>_. undefined), rq_seen_secs = 0 \<rparr> fresh_app)))
      (Ex Http_requests) [''other'', digits 404]
    = series_value map_registry (store_of fresh_app) (Ex Http_requests) [''other'', digits 404] + 1"
proof -
  let ?rq = "\<lparr> rq_path = ''/nope'', rq_outcome = Answered 404 :: telemetry_body outcome,
    rq_env = (\<lambda>_. undefined), rq_seen_secs = 0 \<rparr>"
  obtain resp st' where r: "serve demo_externals ?rq fresh_app = (resp, st')" by fastforce
  have "rs_status resp = 404"
    using r by (simp add: serve_def record_metrics_def run_outcome_def plain_def Let_def) auto
  moreover have "endpoint_of (app_config fresh_app) (rq_path ?rq) = ''other''"
    by (simp add: endpoint_of_def TELEMETRY_PATH_def REGISTRATION_PATH_def HEALTHZ_PATH_def fresh_app_def
        config_default_def)
  ultimately show ?thesis
    using responses_counted [OF _ r, of "[''other'', digits 404]"] r
    by (simp add: demo_externals_def map_registry_laws Let_def)
qed

end
