(* ===== verification/Process_Facts.thy ===== *)
theory Process_Facts
  imports Accounting Guarantees
begin

text \<open>
  The life of a process: what it starts with, any sequence of requests and its shutdown are a run
  of the transition system of \<open>Persistence\<close>, so the guarantees of the store hold from process to
  process; a clean shutdown loses nothing, and the next process shows what it wrote.
\<close>

section \<open>Requests as runs\<close>

text \<open>The numbers the flushes of a request would serialize are finite.\<close>

definition request_ok ::
  "('s, 'h, 'b, 'd, 'j) externals \<Rightarrow> 'd request \<Rightarrow> ('s, 'b) app_state \<Rightarrow> bool" where
  "request_ok X rq st = (case rq_outcome rq of
       Handled Telemetry bytes \<Rightarrow>
         request_finite (x_prom X) (x_hex X) (x_exp X) (x_ser X) (x_json X) (rq_env rq) bytes st
     | _ \<Rightarrow> True)"

fun requests_ok ::
  "('s, 'h, 'b, 'd, 'j) externals \<Rightarrow> 'd request list \<Rightarrow> ('s, 'b) app_state \<Rightarrow> bool" where
  "requests_ok X [] st = True"
| "requests_ok X (rq # rqs) st = (request_ok X rq st \<and> requests_ok X rqs (snd (serve X rq st)))"

definition process_ok ::
  "('s, 'h, 'b, 'd, 'j) externals \<Rightarrow> 'd request list \<Rightarrow> ('s, 'b) app_state \<Rightarrow> bool" where
  "process_ok X rqs st \<longleftrightarrow> requests_ok X rqs st
     \<and> state_finite (fst (flush_state (x_prom X) (app_metrics (snd (serve_all X rqs st)))))"

definition syncing :: "'d request list \<Rightarrow> bool" where
  "syncing rqs \<longleftrightarrow> list_all (\<lambda>rq. \<forall>i. syncs_directories (fe_io (rq_env rq i))) rqs"

text \<open>The externals of a process are those of the transition system.\<close>

definition externals_are ::
  "('s, 'h, 'b, 'd, 'j) externals \<Rightarrow> 's prom_api \<Rightarrow> (f64 \<Rightarrow> f64) \<Rightarrow> (coulomb_state \<Rightarrow> 'b option) \<Rightarrow>
   ('b \<Rightarrow> coulomb_state option) \<Rightarrow> bool" where
  "externals_are X P ex ser de \<longleftrightarrow> x_prom X = P \<and> x_exp X = ex \<and> x_ser X = ser \<and> x_de X = de"

context exporter
begin

lemma outcome_run:
  assumes "externals_are X P ex ser de" and "reach (system_of st)" and "request_ok X rq st"
    and "\<forall>i. syncs_directories (fe_io (rq_env rq i))" and "run_outcome X rq st = (resp, st')"
  shows "run (system_of st) (system_of st')"
proof (cases "\<exists>bytes. rq_outcome rq = Handled Telemetry bytes")
  case True
  then obtain bytes where h: "rq_outcome rq = Handled Telemetry bytes" by blast
  obtain status st1 where t: "telemetry P (x_hex X) ex ser (x_json X) (rq_env rq) (rq_seen_secs rq) bytes st = (status, st1)"
    by fastforce
  have "request_finite P (x_hex X) ex ser (x_json X) (rq_env rq) bytes st"
    using assms(1,3) h by (simp add: request_ok_def externals_are_def)
  moreover have "st' = st1" using assms(1,5) h t by (simp add: run_outcome_def externals_are_def)
  ultimately show ?thesis using telemetry_run [OF assms(2) _ _ t] assms(4) by simp
next
  case False
  then have "st' = st"
    using assms(5) by (auto simp: run_outcome_def split: outcome.splits endpoint.splits)
  then show ?thesis by simp
qed

lemma serve_run:
  assumes "externals_are X P ex ser de" and "reach (system_of st)" and "request_ok X rq st"
    and "\<forall>i. syncs_directories (fe_io (rq_env rq i))"
  shows "run (system_of st) (system_of (snd (serve X rq st)))"
proof -
  obtain resp st1 where r: "run_outcome X rq st = (resp, st1)" by fastforce
  have "sys_step P ex ser de opts path (system_of st1) (system_of (snd (serve X rq st)))"
    using sys_request [of P ex ser de opts path "system_of st1" "endpoint_of (app_config st) (rq_path rq)" "rs_status resp"]
      assms(1) r by (simp add: serve_def record_metrics_def system_of_def externals_are_def)
  with outcome_run [OF assms r] show ?thesis by (rule rtranclp.rtrancl_into_rtrancl)
qed

lemma serve_all_run:
  assumes "externals_are X P ex ser de" and "reach (system_of st)" and "requests_ok X rqs st" and "syncing rqs"
  shows "run (system_of st) (system_of (snd (serve_all X rqs st)))"
  using assms(2-)
proof (induction rqs arbitrary: st)
  case (Cons rq rqs)
  have one: "run (system_of st) (system_of (snd (serve X rq st)))"
    by (rule serve_run [OF assms(1) Cons.prems(1)]) (use Cons.prems in \<open>simp_all add: syncing_def\<close>)
  have "run (system_of (snd (serve X rq st))) (system_of (snd (serve_all X rqs (snd (serve X rq st)))))"
    by (rule Cons.IH [OF reach_run [OF one Cons.prems(1)]]) (use Cons.prems in \<open>simp_all add: syncing_def\<close>)
  then show ?case using one by (simp add: split_beta)
qed simp

lemma shutdown_run:
  assumes "reach (system_of st)" and "state_finite (fst (flush_state P (app_metrics st)))"
    and "syncs_directories io"
  shows "run (system_of st) (system_of (shutdown P ser now_secs now io st))"
proof -
  obtain m d where f: "flush_coulomb_state P ser True now_secs now io (app_metrics st, app_disk st) = (m, d)"
    by fastforce
  from flush_run [OF _ assms(2,3) f] show ?thesis
    using assms(1) f by (simp add: shutdown_def persist_coulombs_def system_of_def)
qed

text \<open>A process that starts on what a crash left is a step of the system it continues.\<close>

lemma start_reach:
  assumes "reach s" and "content \<in> set (disk_possible (sy_disk s) path)"
    and "coulomb_state_path (snd (reset_out_of_range_to_defaults c)) = Some path"
    and "opts = metrics_options_of (snd (reset_out_of_range_to_defaults c))"
    and "config_load from_yaml file = Inr c"
    and "start P de from_yaml file now_secs (settled path content (sy_disk s)) = Inr st"
  shows "system_of st = \<lparr> sy_metrics = boot P de opts now_secs content, sy_flight = Idle,
      sy_disk = settled path content (sy_disk s) \<rparr>"
    and "sys_step P ex ser de opts path s (system_of st)"
proof -
  show st: "system_of st = \<lparr> sy_metrics = boot P de opts now_secs content, sy_flight = Idle,
      sy_disk = settled path content (sy_disk s) \<rparr>"
    using assms(3-6) by (auto simp: start_def Let_def system_of_def boot_def settled_def)
  show "sys_step P ex ser de opts path s (system_of st)"
    unfolding st by (rule sys_crash [OF assms(2)])
qed

text \<open>A whole process: its start, its requests and, unless the listener fails, its shutdown.\<close>

lemma main_run:
  assumes X: "externals_are X P ex ser de" and "reach s" and "content \<in> set (disk_possible (sy_disk s) path)"
    and path: "coulomb_state_path (snd (reset_out_of_range_to_defaults c)) = Some path"
    and opts: "opts = metrics_options_of (snd (reset_out_of_range_to_defaults c))"
    and load: "config_load from_yaml file = Inr c"
    and finite: "case start P de from_yaml file (me_boot_secs env) (settled path content (sy_disk s)) of
        Inl e \<Rightarrow> True | Inr st \<Rightarrow> process_ok X rqs st"
    and sync: "syncing rqs" "syncs_directories (me_io env)"
    and main: "run_main X from_yaml file env rqs (settled path content (sy_disk s)) = (exit, Some st')"
  shows "run s (system_of st')"
proof -
  have xs: "x_prom X = P" "x_ser X = ser" "x_de X = de" using X by (simp_all add: externals_are_def)
  let ?down = "shutdown P ser (me_flush_secs env) (me_now env) (me_io env)"
  obtain st0 where st0: "start P de from_yaml file (me_boot_secs env) (settled path content (sy_disk s)) = Inr st0"
    and end_state: "st' = st0 \<or> st' = ?down (snd (serve_all X rqs st0))"
    using main by (auto simp: run_main_def xs split: sum.splits if_splits option.splits prod.splits)
  have ok: "process_ok X rqs st0" using finite st0 by simp
  have boot: "sys_step P ex ser de opts path s (system_of st0)"
    by (rule start_reach(2) [OF assms(2,3) path opts load st0])
  with assms(2) have reach: "reach (system_of st0)" by (rule sys_reach_step)
  have served: "run (system_of st0) (system_of (snd (serve_all X rqs st0)))"
    by (rule serve_all_run [OF X reach _ sync(1)]) (use ok in \<open>simp add: process_ok_def\<close>)
  have "run (system_of (snd (serve_all X rqs st0))) (system_of (?down (snd (serve_all X rqs st0))))"
    by (rule shutdown_run [OF reach_run [OF served reach] _ sync(2)])
      (use ok in \<open>simp add: process_ok_def xs\<close>)
  with served have "run (system_of st0) (system_of st')" using end_state by (auto intro: rtranclp_trans)
  with boot show ?thesis by (rule converse_rtranclp_into_rtranclp)
qed

text \<open>The file a flush leaves shows, after a restart, each counter with its delta, one ulp up.\<close>

lemma payload_total:
  assumes "ok s" "ser (fst (flush_state P (sy_metrics s))) = Some b"
    "state_finite (fst (flush_state P (sy_metrics s)))"
  shows "file_total de (Some (Data b)) f sn =
    bump_ulp (counters P s f sn + pending_value (sy_metrics s) f sn)"
proof -
  let ?st = "fst (flush_state P (sy_metrics s))" and ?m = "sy_metrics s"
  have shared: "shared_ok opts (m_shared ?m)" using ok_shared [OF assms(1)] ok_opts [OF assms(1)] by simp
  have de: "parse_content de (Some (Data b)) = Some ?st"
    using json assms(2,3) by (simp add: json_roundtrip_def parse_content_def)
  note facts = flush_state_facts [OF assms(1)]
  show ?thesis
  proof (cases "sget (cs_devices ?st) sn")
    case None
    then have "sn \<notin> dkeys (m_shared ?m)" using facts(3) by (simp add: sget_None_iff)
    moreover from this have "pending_value ?m f sn = 0"
      by (simp add: pending_value_def flip: sget_None_iff)
    ultimately have "counters P s f sn + pending_value ?m f sn = 0"
      using untracked_zero [OF assms(1)] by simp
    then show ?thesis using None by (simp add: file_total_def de bump_ulp_def)
  next
    case (Some e)
    then show ?thesis
      using facts(4) [OF Some, of f] pending_take [OF shared, of f sn] by (simp add: file_total_def de)
  qed
qed

lemma shutdown_restart:
  assumes "reach (system_of st)" and "state_finite (fst (flush_state P (app_metrics st)))"
    and "ser (fst (flush_state P (app_metrics st))) = Some b"
    and "st' = shutdown P ser now_secs now io_ok st"
    and "content \<in> set (disk_possible (app_disk st') path)"
  shows "counter_value P (m_store (app_metrics st')) f sn =
      counter_value P (m_store (app_metrics st)) f sn + pending_value (app_metrics st) f sn
    \<and> pending_value (app_metrics st') f sn = 0
    \<and> counter_value P (m_store (boot P de opts boot_secs content)) f sn =
      bump_ulp (counter_value P (m_store (app_metrics st')) f sn)"
proof -
  note ok = reach_ok [OF assms(1)]
  let ?m = "app_metrics st"
  have m: "sy_metrics (system_of st) = ?m" "counters P (system_of st) = counter_value P (m_store ?m)"
    by (auto simp: system_of_def counters_def intro!: ext)
  have opts: "m_opts ?m = opts" using ok_opts [OF ok] m by simp
  have side: "shared_ok (m_opts ?m) (m_shared ?m)" "mo_coulomb_state_path (m_opts ?m) = Some path"
    "\<not> sh_writing (m_shared ?m)"
    using ok_shared [OF ok] ok state_path by (simp_all add: m opts sys_ok_def) (simp add: system_of_def)
  obtain m' d' where f: "flush_coulomb_state P ser True now_secs now io_ok (?m, app_disk st) = (m', d')"
    by fastforce
  have st': "app_metrics st' = m'" "app_disk st' = d'"
    using f assms(4) by (simp_all add: shutdown_def persist_coulombs_def)
  note completed = flush_completes [OF side(1,2) parent tmp_name side(3) _ assms(3) f, of f sn]
  have "content = Some (Data b)" using completed assms(5) st' by simp
  moreover have "file_ok de opts (Some (Data b))"
    using phase1_payload [OF ok] assms(2,3) by (simp add: m covers_def)
  ultimately have "counter_value P (m_store (boot P de opts boot_secs content)) f sn
      = file_total de (Some (Data b)) f sn"
    using boot_facts by simp
  then show ?thesis
    using completed payload_total [OF ok, of b f sn] assms(2,3) by (simp add: m st')
qed

end

end
