(* ===== verification/Spec2Isabelle.thy ===== *)
theory Spec2Isabelle
  imports Series_Records Ledger_Refinement Config_Facts Calibration_Facts Calibration_Ideal Process_Facts Replay
begin

text \<open>
  \<^bold>\<open>daly-bms-exporter\<close>: a verification library for the Prometheus exporter of Daly battery
  controllers (Rust, \<open>src/*.rs\<close> and \<open>examples/replay_history.rs\<close>).

  \<^bold>\<open>The program.\<close> A WiFi module posts JSON bodies with pairs of hex-encoded Modbus frames. The
  handler \<open>telemetry\<close> checks the serial, admits the device, and for each pair parses the frame
  (\<open>modbus.rs\<close>), decodes the register block (\<open>decode.rs\<close>), passes a plausibility gate, updates
  gauges and integrates current and power into counters (\<open>metrics.rs\<close>). An estimator
  (\<open>calibration.rs\<close>) learns the zero offset of each current sensor and feeds a second set of
  counters. The counters must never decrease for a scraper, also over crashes; therefore an
  increment is held back (\<open>Pending\<close>) until the state file with the new totals is durably on disk,
  and only then applied. \<open>config.rs\<close> supplies the knobs, \<open>server.rs\<close> the routes, \<open>main.rs\<close> the
  life of the process.

  \<^bold>\<open>Theories and code.\<close>
  \<^item> \<open>Prelude\<close>: machine words, strings as UTF-8 bytes, ordered maps for \<open>BTreeMap<String, _>\<close> and
    \<open>HashMap<String, _>\<close> (the program never depends on the iteration order of the latter).
  \<^item> \<open>Rounding\<close>, \<open>F64\<close>: Rust's \<open>f64\<close> as IEEE 754 binary64 with round-to-nearest-even: a value is
    NaN, an infinity or a rational that fits 53 bits, and every operation rounds the exact result.
    There is one zero and one NaN; no code here tells the two zeros apart.
  \<^item> \<open>Modbus\<close>: \<open>crc16\<close>, \<open>parse_response\<close>, \<open>request_start_register\<close>, the test helper \<open>build_frame\<close>,
    \<open>DecodeError\<close> of \<open>error.rs\<close>. \<open>Decode\<close>, \<open>Decode_Facts\<close>: register maps, encodings, both blocks,
    \<open>implausibility\<close>.
  \<^item> \<open>Calibration\<close>: \<open>EwFit\<close>, \<open>Calibrator::observe\<close> with \<open>integrate\<close>, \<open>update_peers\<close>, \<open>peer_reports\<close>,
    \<open>recompute\<close>, \<open>report\<close>, \<open>snapshot\<close>, \<open>restore\<close>. The fit is polymorphic in its numbers: on \<open>f64\<close> it
    is the code (\<open>Calibration_Facts\<close>, \<open>Calibration_Diagnostics\<close>), on an ordered field it is the
    same algorithm in exact arithmetic (\<open>Calibration_Ideal\<close>).
  \<^item> \<open>Metrics_State\<close>, \<open>Metrics\<close>, \<open>Metrics_Facts\<close>: \<open>CoulombShared\<close>, \<open>LastSeries\<close>, \<open>Pending\<close>, the
    trapezoid with its clamp, admission, the updates of both blocks, \<open>accumulate_coulombs\<close>,
    \<open>publish_calibration\<close>, the exporter's own counters. \<open>Registry\<close>, \<open>Registry_Facts\<close>: the 63 metric
    families, their registration, and the interface \<open>prometheus\<close> to the crate.
  \<^item> \<open>Durable_Write\<close>: \<open>write_file_durable\<close> over a disk whose files may show stale contents after a
    power loss until they are synced. \<open>Flush\<close>, \<open>Flush_Facts\<close>: the three phases of
    \<open>flush_coulomb_state\<close>, \<open>persist_coulombs\<close>, \<open>restore_coulombs\<close>.
  \<^item> \<open>Store_Facts\<close>: the frame of every operation, that is the families it may write.
  \<^item> \<open>Persistence\<close>, \<open>Persistence_Facts\<close>, \<open>Crash_Safety\<close>, \<open>Guarantees\<close>: the exporter as a transition
    system in which frames, requests, the phases of a flush, failing calls and power losses
    interleave; its invariant, and what it guarantees in every reachable state.
    \<open>Series_Records\<close>: the registry and the device records agree in every reachable state.
    \<open>Ledger\<close>: the abstract specification of one counter, a write-ahead ledger with six events;
    \<open>Ledger_Refinement\<close>: every step of the transition system is a run of that ledger.
  \<^item> \<open>Config\<close>, \<open>Config_Facts\<close>: the record, \<open>load\<close>, \<open>reset_out_of_range_to_defaults\<close>, \<open>accept_serial\<close>.
  \<^item> \<open>Server\<close>, \<open>Server_Facts\<close>: \<open>handle_entry\<close> and \<open>telemetry\<close>. \<open>Router\<close>: the routing table, the other
    handlers, \<open>record_metrics\<close>, and \<open>main\<close> as \<open>start\<close>, \<open>serve_all\<close>, \<open>shutdown\<close>, \<open>run_main\<close>.
    \<open>Accounting\<close>: what a request adds to the exporter's own counters. \<open>Process_Facts\<close>: a process
    is a run of the transition system.
  \<^item> \<open>Replay\<close>: \<open>examples/replay_history.rs\<close>.

  \<^bold>\<open>What is shown.\<close> Counters: never negative, never ahead of any content the state file may show
  after a crash, never decreasing, over any interleaving and from process to process; a flush moves
  every pending delta or none, is rate limited, succeeds on a working disk; each counter of each
  device implements the write-ahead ledger, so no amount is invented and none is lost but by a
  power loss before it was written; a clean shutdown and restart reproduce every counter up to one
  unit in the last place. Requests: each pair is dropped without a trace or applied whole, each pair
  and each response is counted once under a known label, a refused body leaves nothing behind, no
  series outlives what its device reports. Decoding: the
  exact acceptance condition of a frame, every error within 16 consecutive bits rejected, encodings
  within their documented error. Estimator: the code's updates are those of weighted least squares
  over the discounted history, the error of the slope is bounded, the applied offset follows the
  gates and stays within its limit between restarts.
  Configuration: every knob in range after startup, none changed silently.

  \<^bold>\<open>Interfaces.\<close> Code outside the repository is a parameter. The locale \<open>prometheus\<close> has the laws of
  the registry (interpreted by the finite map \<open>map_registry\<close>), \<open>hex_codec\<close> those of the hex decoder,
  \<open>exporter\<close> collects the hypotheses of the crash-safety results: the registry laws, a JSON
  serializer that round-trips finite numbers (\<open>json_roundtrip\<close>, and with it the side conditions
  \<open>state_finite\<close>, \<open>request_finite\<close>, \<open>process_ok\<close>), a state path with a directory part whose extension
  is not already \<open>tmp\<close>, and a file system that does not excuse a directory sync as unsupported
  (\<open>syncs_directories\<close>). The theorems on a bare file name and on the extension \<open>tmp\<close> show that the
  two conditions on the path are needed. \<open>exp\<close>, the YAML and JSON parsers, the clocks, the outcome
  of each file operation, the text encoder and what the router and its layers do with a request are
  arguments.

  \<^bold>\<open>Bounds.\<close> No definition needs fuel: every loop of the code runs over a finite list. Integer
  counters of the crate are \<open>u64\<close>; here every series is an \<open>f64\<close>, as a scrape shows it.

  \<^bold>\<open>Not modelled.\<close> The \<open>axum\<close>, \<open>tower\<close> and \<open>tokio\<close> libraries behind the routing table (body limit,
  timeout, panic layer, listener, signals), the command line and the logging, the text format of a
  scrape, the formatting of the lines the replay prints, and the unit and handler tests: they are
  library calls, or checks of the code that is modelled here. The mutex is represented by the
  atomicity of the operations that hold it; its poisoning is ignored by the code and so here.
\<close>

section \<open>The life of the process\<close>



text \<open>The witness: one realtime frame of 27.0 V and 10.0 A for a device the server has not seen.\<close>

definition demo_config :: config where
  "demo_config = config_default\<lparr> coulomb_state_path := Some ''/var/coulombs.json'',
     calibration_enabled := False \<rparr>"

definition demo_started_options :: metrics_options where
  "demo_started_options = metrics_options_default\<lparr> mo_coulomb_state_path := Some ''/var/coulombs.json'',
     mo_calibration_enabled := False \<rparr>"

lemma demo_started: "metrics_options_of demo_config = demo_started_options"
  by (simp add: metrics_options_of_def demo_config_def demo_started_options_def config_default_def
      metrics_options_default_def options_default_def f64_of_nat_def)

definition demo_app :: "(series, coulomb_state) app_state" where
  "demo_app = \<lparr> app_config = demo_config,
     app_metrics = boot map_registry Some demo_started_options 0 None, app_disk = empty_disk \<rparr>"

definition demo_regs :: "u16 list" where
  "demo_regs = replicate 0x28 0 @ [270, 30100]"

definition demo_body :: telemetry_body where
  "demo_body = \<lparr> tb_device_name = ''dev'', tb_sn = ''A'', tb_data =
     [\<lparr> de_command = ''D2030000007ED649'', de_data = hex_encode_ref (build_frame demo_regs),
        de_timestamp = None \<rparr>] \<rparr>"

definition demo_env :: frame_env where
  "demo_env = \<lparr> fe_now_secs = flit 3600, fe_flush_secs = flit 3600, fe_now = 0, fe_io = io_ok \<rparr>"

lemma demo_regs_parse: "parse_response hex_decode_ref (hex_encode_ref (build_frame demo_regs)) = Inr demo_regs"
  by (rule parse_build_frame [OF hexref.hex_codec_axioms]) (simp add: demo_regs_def)

definition demo_reading :: realtime_data where
  "demo_reading = (realtime_from_registers [])\<lparr> pack_v := Some (deci 270), current_a := Some (amps 30100) \<rparr>"

lemma demo_reading: "realtime_from_registers demo_regs = demo_reading"
  by (simp add: demo_reading_def realtime_from_registers_def Let_def realtime_registers reg_at_def
      demo_regs_def nth_append ascii_def clamped_count_def)

lemma demo_flush_finite:
  "flush_finite map_registry (\<lambda>_. 0) demo_env ''A'' demo_reading
     (update_realtime map_registry ''A'' demo_reading
       (snd (admit ''A'' (boot map_registry (Some :: coulomb_state \<Rightarrow> _) demo_started_options 0 None))))"
  by code_simp

lemma demo_request_finite:
  "request_finite map_registry hex_decode_ref (\<lambda>_. 0) Some (Inr :: telemetry_body \<Rightarrow> unit + _)
     (\<lambda>i. demo_env) demo_body demo_app"
  using demo_flush_finite
  by (simp add: request_finite_def demo_body_def entry_finite_def demo_regs_parse Let_def demo_reading demo_app_def)


section \<open>From process to process\<close>


text \<open>C5: A clean shutdown loses nothing and the next process shows it. If every call of the last
  write succeeds, every counter has grown by its pending delta and nothing stays pending; started
  again on the file, the exporter shows every counter at that value, at most the one unit in the
  last place above it by which the row was raised on its way to the disk.\<close>

theorem shutdown_restart_round_trip:
  assumes "prometheus P" and "json_roundtrip ser de"
    and "mo_coulomb_state_path opts = Some path" and "path_parent path \<noteq> None"
    and "with_extension path ''tmp'' \<noteq> path"
    and "0 \<le> mo_max_frame_amp_hours opts" "0 \<le> mo_max_frame_watt_hours opts"
    and "sys_reach P ex ser de opts path (system_of st)"
    and "state_finite (fst (flush_state P (app_metrics st)))"
    and "ser (fst (flush_state P (app_metrics st))) = Some b"
    and "st' = shutdown P ser now_secs now io_ok st"
    and "content \<in> set (disk_possible (app_disk st') path)"
  shows "counter_value P (store_of st') f sn =
      counter_value P (store_of st) f sn + pending_value (app_metrics st) f sn
    \<and> pending_value (app_metrics st') f sn = 0
    \<and> counter_value P (m_store (boot P de opts boot_secs content)) f sn =
      bump_ulp (counter_value P (store_of st') f sn)"
proof -
  have e: "exporter P ser de opts path" using assms(1-7) by (intro exporterI)
  show ?thesis by (rule exporter.shutdown_restart [OF e assms(8-12)])
qed

lemma run_pending_counts:
  "counter_value map_registry (m_store (the run_frame2)) Charge_amp_hours ''A'' = 0"
  "pending_value (the run_frame2) Charge_amp_hours ''A'' = flit 15"
  by code_simp+

definition pending_app :: "(series, coulomb_state) app_state" where
  "pending_app = \<lparr> app_config = demo_config, app_metrics = the run_frame2, app_disk = empty_disk \<rparr>"

lemma shutdown_restart_round_trip_witness:
  "\<exists>st' content. st' = shutdown map_registry Some (flit 7) 0 io_ok pending_app
     \<and> content = dk_live (app_disk st') demo_path_name
     \<and> counter_value map_registry (store_of st') Charge_amp_hours ''A'' = 0 + flit 15
     \<and> counter_value map_registry (m_store (boot map_registry Some demo_metrics_options (flit 9) content))
         Charge_amp_hours ''A'' = bump_ulp (0 + flit 15)"
proof -
  define st' where "st' = shutdown map_registry Some (flit 7) 0 io_ok pending_app"
  have reach: "demo_reach (system_of pending_app)"
    using run_pending_reach
    by (simp add: system_of_def pending_app_def run_pending_def empty_disk_def)
  have fin: "state_finite (fst (flush_state map_registry (app_metrics pending_app)))"
    by (simp add: pending_app_def run_finite)
  have "dk_live (app_disk st') demo_path_name \<in> set (disk_possible (app_disk st') demo_path_name)"
    by (simp add: disk_possible_def)
  from shutdown_restart_round_trip [OF demo_hypotheses reach fin refl st'_def this,
      where f = Charge_amp_hours and sn = "''A''" and boot_secs = "flit 9"]
  moreover have "counter_value map_registry (store_of pending_app) Charge_amp_hours ''A'' = 0"
    "pending_value (app_metrics pending_app) Charge_amp_hours ''A'' = flit 15"
    by (simp_all add: pending_app_def run_pending_counts)
  ultimately show ?thesis using st'_def by auto
qed

text \<open>A routing table the library rejects stops the process after everything else succeeded. The
  path of the metrics page is the one value startup does not check: for the path of the health
  check every substitution of startup leaves the configuration alone, the table has two handlers
  for one path and method, and a router that refuses such a table panics before the listener is
  bound.\<close>

lemma overlapping_metrics_path_panics:
  fixes conf :: "'e read_error + string"
  assumes "\<forall>table. \<not> distinct (List.map (\<lambda>(path, verb, h). (path, verb)) table) \<longrightarrow> \<not> me_router env table"
    and "conf = Inr text" and "from_yaml text = Inr (config_default\<lparr> metrics_path := HEALTHZ_PATH \<rparr>)"
  shows "config_valid (config_default\<lparr> metrics_path := HEALTHZ_PATH \<rparr>)
    \<and> fst (run_main X from_yaml conf env rqs disk) = Router_panic"
proof -
  let ?c = "config_default\<lparr> metrics_path := HEALTHZ_PATH \<rparr>"
  have valid: "config_valid ?c"
    using default_literals by (simp add: config_valid_def config_default_simps interval_in_range_def)
  then have c: "snd (reset_out_of_range_to_defaults ?c) = ?c"
    by (simp add: reset_config config_or_default_id)
  obtain st where st: "start (x_prom X) (x_de X) from_yaml conf (me_boot_secs env) disk = Inr st"
    "app_config st = ?c"
    using assms(2,3) c by (simp add: start_def config_load_def Let_def)
  have "\<not> distinct (List.map (\<lambda>(path, verb, h). (path, verb)) (routes ?c))"
    by (simp add: routes_def)
  then show ?thesis using valid assms(1) st by (simp add: run_main_def)
qed

lemma overlapping_metrics_path_panics_witness:
  "fst (run_main demo_externals (\<lambda>_. Inr (config_default\<lparr> metrics_path := HEALTHZ_PATH \<rparr>) :: unit + config)
      (Inr '''' :: unit read_error + string)
      \<lparr> me_boot_secs = 0, me_router = (\<lambda>table. distinct (List.map (\<lambda>(path, verb, h). (path, verb)) table)),
        me_bind = (\<lambda>_. None :: unit option), me_served = None, me_flush_secs = 0, me_now = 0, me_io = io_ok \<rparr>
      [] empty_disk) = Router_panic"
  using overlapping_metrics_path_panics
    [where env = "\<lparr> me_boot_secs = 0, me_router = (\<lambda>table. distinct (List.map (\<lambda>(path, verb, h). (path, verb)) table)),
        me_bind = (\<lambda>_. None :: unit option), me_served = None, me_flush_secs = 0, me_now = 0, me_io = io_ok \<rparr>"
      and conf = "Inr '''' :: unit read_error + string"
      and from_yaml = "\<lambda>_. Inr (config_default\<lparr> metrics_path := HEALTHZ_PATH \<rparr>) :: unit + config" and X = demo_externals and rqs = "[]" and disk = empty_disk, OF _ refl refl]
  by simp

text \<open>The witness: the frame of \<open>demo_body\<close>, then a scrape, then a clean shutdown.\<close>

lemma demo_accepts:
  "implausibility demo_reading \<lparr> max_current_a = flit 100, pack_volts = (flit 18, flit 34) \<rparr> = None"
  "request_start_register hex_decode_ref ''D2030000007ED649'' = Inr 0x0000"
  "is_plausible_serial ''A''"
  by code_simp+

lemma demo_limits:
  "plausibility_limits_of demo_config = \<lparr> max_current_a = flit 100, pack_volts = (flit 18, flit 34) \<rparr>"
  by (simp add: plausibility_limits_of_def demo_config_def config_default_simps)

lemma demo_admitted:
  "fst (admit ''A'' (boot map_registry (Some :: coulomb_state \<Rightarrow> _) demo_started_options 0 None))"
  by code_simp

definition demo_served :: "series metrics" where
  "demo_served = record_request map_registry ''metrics'' 200 (record_request map_registry ''telemetry'' 200
     (mark_seen map_registry ''A'' (flit 3600)
       (fst (realtime_frame map_registry (\<lambda>_. 0) Some demo_env ''A'' demo_reading
         (snd (admit ''A'' (boot map_registry (Some :: coulomb_state \<Rightarrow> _) demo_started_options 0 None)),
          empty_disk)))))"

lemma demo_served_finite: "state_finite (fst (flush_state map_registry demo_served))"
  by code_simp

definition demo_requests :: "telemetry_body request list" where
  "demo_requests =
     [\<lparr> rq_path = TELEMETRY_PATH, rq_outcome = Handled Telemetry demo_body, rq_env = (\<lambda>_. demo_env),
        rq_seen_secs = flit 3600 \<rparr>,
      \<lparr> rq_path = ''/metrics'', rq_outcome = Handled Metrics_page demo_body, rq_env = (\<lambda>_. demo_env),
        rq_seen_secs = 0 \<rparr>]"

lemma demo_all_served: "app_metrics (snd (serve_all demo_externals demo_requests demo_app)) = demo_served"
proof -
  obtain m0 where a: "admit ''A'' (boot map_registry (Some :: coulomb_state \<Rightarrow> _) demo_started_options 0 None) = (True, m0)"
    using demo_admitted by (metis prod.collapse)
  obtain m d where f: "realtime_frame map_registry (\<lambda>_. 0) Some demo_env ''A'' demo_reading (m0, empty_disk) = (m, d)"
    by fastforce
  have serial: "allowed_serials demo_config = None" "metrics_path demo_config = ''/metrics''"
    by (simp_all add: demo_config_def config_default_def)
  have t: "telemetry map_registry hex_decode_ref (\<lambda>_. 0) Some (Inr :: telemetry_body \<Rightarrow> unit + _)
      (\<lambda>_. demo_env) (flit 3600) demo_body demo_app =
      (200, demo_app\<lparr> app_metrics := mark_seen map_registry ''A'' (flit 3600) m, app_disk := d \<rparr>)"
    using f a
    by (simp add: telemetry_def demo_body_def demo_app_def accept_serial_def demo_accepts serial
        handle_entry_def from_start_register_def demo_regs_parse demo_reading plausibility_check_def
        demo_limits STATUS_OK_def Let_def)
  show ?thesis
    using t f a serial(2)
    by (simp add: demo_requests_def serve_def record_metrics_def run_outcome_def demo_externals_def
        metrics_page_def render_def plain_def endpoint_of_def TELEMETRY_PATH_def REGISTRATION_PATH_def
        STATUS_OK_def demo_served_def Let_def) (simp add: demo_app_def serial(2))
qed

definition demo_main :: "unit main_env" where
  "demo_main = \<lparr> me_boot_secs = 0, me_router = (\<lambda>_. True), me_bind = (\<lambda>_. None), me_served = None,
     me_flush_secs = flit 3700, me_now = 0, me_io = io_ok \<rparr>"

abbreviation demo_yaml :: "string \<Rightarrow> unit + config" where
  "demo_yaml \<equiv> \<lambda>_. Inr demo_config"

lemma demo_reset: "snd (reset_out_of_range_to_defaults demo_config) = demo_config"
proof -
  have "config_valid demo_config"
    using default_literals
    by (simp add: config_valid_def demo_config_def config_default_simps interval_in_range_def)
  then show ?thesis by (simp add: reset_config config_or_default_id)
qed

lemma demo_start:
  "start map_registry Some demo_yaml (Inr '''' :: unit read_error + string) 0 empty_disk = Inr demo_app"
  by (simp add: start_def config_load_def demo_reset demo_started Let_def demo_app_def boot_def empty_disk_def
      split: option.split)


end
